(* ===== verification/Prelude.thy ===== *)
theory Prelude
  imports Main "HOL-Library.Word" "HOL-Library.State_Monad"
begin

text \<open>
  Shared ground of the development: the names of the machine types, the HRESULT codes the
  provider compares against, the result type of fallible Rust functions, and the calculus
  of state-monad programs that every component proof uses.

  A stateful Rust function is a program of type \<open>('s, 'a) state\<close>. Three judgements about
  such programs are enough for most of the development, and each is closed under
  sequencing and branching, so a proof follows the shape of the program:
  \<^item> \<open>keeps f m\<close>: running \<open>m\<close> leaves the part \<open>f\<close> of the state unchanged (a frame rule);
  \<^item> \<open>ensures P m Q\<close>: from a state in \<open>P\<close>, \<open>m\<close> ends with a result and a state in \<open>Q\<close>;
  \<^item> \<open>run_state m s = (r, t)\<close>: the run itself, for functional facts.
\<close>

subsection \<open>Machine types\<close>

type_synonym u8 = "8 word"
type_synonym u16 = "16 word"
type_synonym u32 = "32 word"
type_synonym i32 = "32 word"
type_synonym bytes = "u8 list"
type_synonym utf16 = "u16 list"

text \<open>\<open>HRESULT(i32)\<close>: the 32 bits; \<open>is_err\<close> looks at the sign.\<close>

type_synonym hresult = "32 word"

definition hr_is_err :: "hresult \<Rightarrow> bool" where
  "hr_is_err hr = (sint hr < 0)"

abbreviation "S_OK \<equiv> (0 :: hresult)"
abbreviation "E_NOTIMPL \<equiv> (0x80004001 :: hresult)"
abbreviation "E_NOINTERFACE \<equiv> (0x80004002 :: hresult)"
abbreviation "E_ABORT \<equiv> (0x80004004 :: hresult)"
abbreviation "E_FAIL \<equiv> (0x80004005 :: hresult)"
abbreviation "E_ACCESSDENIED \<equiv> (0x80070005 :: hresult)"
abbreviation "E_OUTOFMEMORY \<equiv> (0x8007000E :: hresult)"
abbreviation "E_INVALIDARG \<equiv> (0x80070057 :: hresult)"
abbreviation "E_CREDENTIAL_EXCLUDED \<equiv> (0x80070216 :: hresult)"
abbreviation "NTE_BAD_SIGNATURE \<equiv> (0x80090006 :: hresult)"
abbreviation "HR_NTE_EXISTS \<equiv> (0x8009000F :: hresult)"
abbreviation "NTE_NOT_FOUND \<equiv> (0x80090011 :: hresult)"
abbreviation "HR_NOT_FOUND \<equiv> (0x80070490 :: hresult)"
abbreviation "HR_FILE_NOT_FOUND \<equiv> (0x80070002 :: hresult)"

lemma hr_is_err_codes [simp]:
  "\<not> hr_is_err S_OK" "\<not> hr_is_err 1" "hr_is_err E_NOTIMPL" "hr_is_err E_NOINTERFACE"
  "hr_is_err E_ABORT" "hr_is_err E_FAIL" "hr_is_err E_ACCESSDENIED" "hr_is_err E_OUTOFMEMORY"
  "hr_is_err E_INVALIDARG" "hr_is_err E_CREDENTIAL_EXCLUDED" "hr_is_err NTE_BAD_SIGNATURE"
  "hr_is_err HR_NTE_EXISTS" "hr_is_err NTE_NOT_FOUND" "hr_is_err HR_NOT_FOUND"
  "hr_is_err HR_FILE_NOT_FOUND"
  by (simp_all add: hr_is_err_def)

lemma not_err_neq:
  "\<not> hr_is_err hr \<Longrightarrow> hr_is_err c \<Longrightarrow> hr \<noteq> c"
  by auto

lemma unat_of_nat_u16: "n < 0x10000 \<Longrightarrow> unat (of_nat n :: u16) = n"
  by (simp add: unat_of_nat)

lemma unat_of_nat_u32: "n < 0x100000000 \<Longrightarrow> unat (of_nat n :: u32) = n"
  by (simp add: unat_of_nat)

subsection \<open>Results\<close>

text \<open>Rust's \<open>Result<T, E>\<close> is \<open>'e + 'a\<close>: \<open>Err\<close> on the left, \<open>Ok\<close> on the right.\<close>

abbreviation Err :: "'e \<Rightarrow> 'e + 'a" where "Err \<equiv> Inl"
abbreviation Ok :: "'a \<Rightarrow> 'e + 'a" where "Ok \<equiv> Inr"

definition is_ok :: "'e + 'a \<Rightarrow> bool" where
  "is_ok r = (case r of Err _ \<Rightarrow> False | Ok _ \<Rightarrow> True)"

lemma is_ok_simps [simp]: "is_ok (Ok x)" "\<not> is_ok (Err e)"
  by (simp_all add: is_ok_def)

lemma is_ok_iff: "is_ok r \<longleftrightarrow> (\<exists>x. r = Ok x)"
  by (cases r) auto

subsection \<open>Reading and changing the state\<close>

definition gets :: "('s \<Rightarrow> 'a) \<Rightarrow> ('s, 'a) state" where
  "gets f = State (\<lambda>s. (f s, s))"

definition modify :: "('s \<Rightarrow> 's) \<Rightarrow> ('s, unit) state" where
  "modify f = State (\<lambda>s. ((), f s))"

abbreviation ret :: "'a \<Rightarrow> ('s, 'a) state" where
  "ret \<equiv> State_Monad.return"

lemma run_state_gets [simp]: "run_state (gets f) s = (f s, s)"
  by (simp add: gets_def)

lemma run_state_modify [simp]: "run_state (modify f) s = ((), f s)"
  by (simp add: modify_def)

subsection \<open>Frames\<close>

definition keeps :: "('s \<Rightarrow> 'b) \<Rightarrow> ('s, 'a) state \<Rightarrow> bool" where
  "keeps f m = (\<forall>s. f (snd (run_state m s)) = f s)"

named_theorems frame \<open>frame rules for programs\<close>

lemma keepsD: "keeps f m \<Longrightarrow> run_state m s = (r, t) \<Longrightarrow> f t = f s"
  by (metis keeps_def snd_conv)

lemma keeps_return [frame]: "keeps f (ret x)"
  by (simp add: keeps_def)

lemma keeps_gets [frame]: "keeps f (gets g)"
  by (simp add: keeps_def)

lemma keeps_modify: "(\<And>s. f (g s) = f s) \<Longrightarrow> keeps f (modify g)"
  by (simp add: keeps_def)

lemma keeps_bind [frame]:
  "keeps f m \<Longrightarrow> (\<And>x. keeps f (k x)) \<Longrightarrow> keeps f (State_Monad.bind m k)"
  by (simp add: keeps_def split: prod.splits) (metis snd_conv)

lemma keeps_if [frame]: "keeps f m \<Longrightarrow> keeps f n \<Longrightarrow> keeps f (if b then m else n)"
  by simp

lemma keeps_case_option [frame]:
  "keeps f m \<Longrightarrow> (\<And>x. keeps f (k x)) \<Longrightarrow> keeps f (case x of None \<Rightarrow> m | Some y \<Rightarrow> k y)"
  by (simp split: option.splits)

lemma keeps_case_sum [frame]:
  "(\<And>e. keeps f (g e)) \<Longrightarrow> (\<And>x. keeps f (k x)) \<Longrightarrow>
   keeps f (case r of Err e \<Rightarrow> g e | Ok x \<Rightarrow> k x)"
  by (simp split: sum.splits)

lemma keeps_case_prod [frame]:
  "(\<And>a b. keeps f (k a b)) \<Longrightarrow> keeps f (case p of (a, b) \<Rightarrow> k a b)"
  by (simp split: prod.splits)

lemma keeps_let [frame]: "(\<And>x. keeps f (k x)) \<Longrightarrow> keeps f (let x = t in k x)"
  by simp

subsection \<open>Triples\<close>

definition ensures ::
  "('s \<Rightarrow> bool) \<Rightarrow> ('s, 'a) state \<Rightarrow> ('a \<Rightarrow> 's \<Rightarrow> bool) \<Rightarrow> bool" where
  "ensures P m Q = (\<forall>s. P s \<longrightarrow> (case run_state m s of (r, t) \<Rightarrow> Q r t))"

named_theorems wp \<open>rules for triples\<close>

lemma ensuresI:
  "(\<And>s r t. P s \<Longrightarrow> run_state m s = (r, t) \<Longrightarrow> Q r t) \<Longrightarrow> ensures P m Q"
  by (auto simp: ensures_def)

lemma ensuresD: "ensures P m Q \<Longrightarrow> P s \<Longrightarrow> run_state m s = (r, t) \<Longrightarrow> Q r t"
  by (auto simp: ensures_def)

lemma ensures_return [wp]: "(\<And>s. P s \<Longrightarrow> Q x s) \<Longrightarrow> ensures P (ret x) Q"
  by (simp add: ensures_def)

lemma ensures_gets [wp]: "(\<And>s. P s \<Longrightarrow> Q (f s) s) \<Longrightarrow> ensures P (gets f) Q"
  by (simp add: ensures_def)

lemma ensures_modify [wp]: "(\<And>s. P s \<Longrightarrow> Q () (f s)) \<Longrightarrow> ensures P (modify f) Q"
  by (simp add: ensures_def)

lemma ensures_bind:
  "ensures P m R \<Longrightarrow> (\<And>x. ensures (R x) (k x) Q) \<Longrightarrow> ensures P (State_Monad.bind m k) Q"
  by (fastforce simp: ensures_def split: prod.splits)

lemma ensures_if [wp]:
  "(b \<Longrightarrow> ensures P m Q) \<Longrightarrow> (\<not> b \<Longrightarrow> ensures P n Q) \<Longrightarrow> ensures P (if b then m else n) Q"
  by simp

lemma ensures_case_option [wp]:
  "(x = None \<Longrightarrow> ensures P m Q) \<Longrightarrow> (\<And>y. x = Some y \<Longrightarrow> ensures P (k y) Q) \<Longrightarrow>
   ensures P (case x of None \<Rightarrow> m | Some y \<Rightarrow> k y) Q"
  by (simp split: option.splits)

lemma ensures_case_sum [wp]:
  "(\<And>e. r = Err e \<Longrightarrow> ensures P (g e) Q) \<Longrightarrow> (\<And>x. r = Ok x \<Longrightarrow> ensures P (k x) Q) \<Longrightarrow>
   ensures P (case r of Err e \<Rightarrow> g e | Ok x \<Rightarrow> k x) Q"
  by (simp split: sum.splits)

lemma ensures_weaken:
  "ensures P' m Q' \<Longrightarrow> (\<And>s. P s \<Longrightarrow> P' s) \<Longrightarrow> (\<And>r t. Q' r t \<Longrightarrow> Q r t) \<Longrightarrow> ensures P m Q"
  by (fastforce simp: ensures_def split: prod.splits)

end
