(* ===== verification/Rust_Str.thy ===== *)
theory Rust_Str
  imports Prelude "HOL-Library.Sublist"
begin

text \<open>
  What the provider uses of Rust's strings. A \<open>str\<close> is its UTF-8 bytes, here a
  \<open>string\<close>; \<open>str_of\<close> and \<open>chars\<close> go between the bytes and the Unicode scalar values.
  On top of them: \<open>encode_utf16\<close>, \<open>String::from_utf16\<close> and its lossy variant,
  \<open>trim\<close>, \<open>to_ascii_lowercase\<close>, \<open>split(',')\<close>, \<open>join\<close> and byte-indexed slicing, with
  the panic of a slice that cuts a character as \<open>None\<close>.
\<close>

subsection \<open>Unicode scalar values and UTF-8\<close>

definition is_scalar :: "nat \<Rightarrow> bool" where
  "is_scalar c = (c < 0xD800 \<or> (0xE000 \<le> c \<and> c < 0x110000))"

definition utf8_char :: "nat \<Rightarrow> nat list" where
  "utf8_char c =
     (if c < 0x80 then [c]
      else if c < 0x800 then [0xC0 + c div 64, 0x80 + c mod 64]
      else if c < 0x10000 then [0xE0 + c div 4096, 0x80 + (c div 64) mod 64, 0x80 + c mod 64]
      else [0xF0 + c div 262144, 0x80 + (c div 4096) mod 64, 0x80 + (c div 64) mod 64,
            0x80 + c mod 64])"

definition cont :: "nat \<Rightarrow> bool" where
  "cont b = (0x80 \<le> b \<and> b < 0xC0)"

fun utf8_decode :: "nat list \<Rightarrow> nat list option" where
  "utf8_decode [] = Some []"
| "utf8_decode (a # bs) =
     (if a < 0x80 then map_option ((#) a) (utf8_decode bs)
      else if 0xC0 \<le> a \<and> a < 0xE0 then
        (case bs of
           b # bs' \<Rightarrow>
             (let c = (a - 0xC0) * 64 + (b - 0x80)
              in if cont b \<and> 0x80 \<le> c then map_option ((#) c) (utf8_decode bs') else None)
         | _ \<Rightarrow> None)
      else if 0xE0 \<le> a \<and> a < 0xF0 then
        (case bs of
           b # b' # bs' \<Rightarrow>
             (let c = (a - 0xE0) * 4096 + (b - 0x80) * 64 + (b' - 0x80)
              in if cont b \<and> cont b' \<and> 0x800 \<le> c \<and> is_scalar c
                 then map_option ((#) c) (utf8_decode bs') else None)
         | _ \<Rightarrow> None)
      else if 0xF0 \<le> a \<and> a < 0xF8 then
        (case bs of
           b # b' # b'' # bs' \<Rightarrow>
             (let c = (a - 0xF0) * 262144 + (b - 0x80) * 4096 + (b' - 0x80) * 64 + (b'' - 0x80)
              in if cont b \<and> cont b' \<and> cont b'' \<and> 0x10000 \<le> c \<and> is_scalar c
                 then map_option ((#) c) (utf8_decode bs') else None)
         | _ \<Rightarrow> None)
      else None)"

definition str_of :: "nat list \<Rightarrow> string" where
  "str_of cs = map char_of (concat (map utf8_char cs))"

definition chars :: "string \<Rightarrow> nat list" where
  "chars s = (case utf8_decode (map of_char s) of None \<Rightarrow> [] | Some cs \<Rightarrow> cs)"

text \<open>A Rust \<open>str\<close> is always well-formed UTF-8.\<close>

definition is_str :: "string \<Rightarrow> bool" where
  "is_str s = (\<exists>cs. list_all is_scalar cs \<and> s = str_of cs)"

lemma is_str_of [simp]: "list_all is_scalar cs \<Longrightarrow> is_str (str_of cs)"
  by (auto simp: is_str_def)

lemma split_64: "(c::nat) div 64 * 64 + c mod 64 = c"
  by simp

lemma split_4096: "(c::nat) div 4096 * 4096 + (c div 64) mod 64 * 64 + c mod 64 = c"
proof -
  have "c div 4096 = c div 64 div 64"
    by (simp add: div_mult2_eq [symmetric])
  then show ?thesis
    using div_mult_mod_eq [of "c div 64" 64] div_mult_mod_eq [of c 64] by linarith
qed

lemma split_262144:
  "(c::nat) div 262144 * 262144 + (c div 4096) mod 64 * 4096 + (c div 64) mod 64 * 64 + c mod 64 = c"
proof -
  have "c div 262144 = c div 4096 div 64"
    by (simp add: div_mult2_eq [symmetric])
  then show ?thesis
    using div_mult_mod_eq [of "c div 4096" 64] split_4096 [of c] by linarith
qed

lemma utf8_decode_char:
  assumes "is_scalar c"
  shows "utf8_decode (utf8_char c @ bs) = map_option ((#) c) (utf8_decode bs)"
proof -
  consider "c < 0x80" | "0x80 \<le> c" "c < 0x800" | "0x800 \<le> c" "c < 0x10000" | "0x10000 \<le> c"
    by linarith
  then show ?thesis
  proof cases
    case 1
    then show ?thesis by (simp add: utf8_char_def)
  next
    case 2
    then have "c div 64 < 32" by linarith
    with 2 split_64 [of c] show ?thesis by (simp add: utf8_char_def cont_def)
  next
    case 3
    then have "c div 4096 < 16" by linarith
    with 3 assms split_4096 [of c] show ?thesis by (simp add: utf8_char_def cont_def)
  next
    case 4
    from assms have "c < 0x110000" by (auto simp: is_scalar_def)
    then have "c div 262144 < 8" by linarith
    with 4 assms split_262144 [of c] show ?thesis by (simp add: utf8_char_def cont_def)
  qed
qed

lemma utf8_round_trip:
  "list_all is_scalar cs \<Longrightarrow> utf8_decode (concat (map utf8_char cs)) = Some cs"
  by (induction cs) (simp_all add: utf8_decode_char)

lemma utf8_char_byte: "is_scalar c \<Longrightarrow> b \<in> set (utf8_char c) \<Longrightarrow> b < 256"
  by (auto simp: utf8_char_def is_scalar_def split: if_splits)

lemma chars_str_of [simp]:
  assumes "list_all is_scalar cs"
  shows "chars (str_of cs) = cs"
proof -
  have "of_char (char_of b :: char) = b" if "b \<in> set (concat (map utf8_char cs))" for b :: nat
  proof -
    from that obtain c where "c \<in> set cs" "b \<in> set (utf8_char c)" by auto
    with assms have "b < 256" by (auto simp: list_all_iff intro: utf8_char_byte)
    then show ?thesis by simp
  qed
  then have "map (of_char \<circ> (char_of :: nat \<Rightarrow> char)) (concat (map utf8_char cs)) =
      concat (map utf8_char cs)"
    by (intro map_idI) (simp only: o_def)
  then have "map of_char (str_of cs) = concat (map utf8_char cs)"
    by (simp only: str_of_def map_map)
  with assms show ?thesis by (simp add: chars_def utf8_round_trip)
qed

lemma str_of_chars: "is_str s \<Longrightarrow> str_of (chars s) = s"
  by (auto simp: is_str_def)

lemma chars_scalar: "is_str s \<Longrightarrow> list_all is_scalar (chars s)"
  by (auto simp: is_str_def)

subsection \<open>ASCII strings\<close>

definition is_ascii :: "string \<Rightarrow> bool" where
  "is_ascii s = list_all (\<lambda>c. of_char c < (128::nat)) s"

lemma str_of_ascii: "is_ascii s \<Longrightarrow> str_of (map of_char s) = s"
  by (induction s) (simp_all add: is_ascii_def str_of_def utf8_char_def)

lemma ascii_is_str: "is_ascii s \<Longrightarrow> is_str s"
  unfolding is_str_def
  by (rule exI [of _ "map of_char s"])
    (auto simp: str_of_ascii, auto simp: is_ascii_def list_all_iff is_scalar_def)

lemma chars_ascii:
  assumes "is_ascii s"
  shows "chars s = map of_char s"
proof -
  have "list_all is_scalar (map of_char s)"
    using assms by (auto simp: is_ascii_def list_all_iff is_scalar_def)
  then have "chars (str_of (map of_char s)) = map of_char s" by simp
  with assms show ?thesis by (simp add: str_of_ascii)
qed

subsection \<open>UTF-16\<close>

definition utf16_char :: "nat \<Rightarrow> utf16" where
  "utf16_char c =
     (if c < 0x10000 then [of_nat c]
      else [of_nat (0xD800 + (c - 0x10000) div 1024), of_nat (0xDC00 + (c - 0x10000) mod 1024)])"

definition encode_utf16 :: "string \<Rightarrow> utf16" where
  "encode_utf16 s = concat (map utf16_char (chars s))"

text \<open>\<open>char::decode_utf16\<close>: one item per scalar value, an error item per unpaired surrogate.\<close>

fun decode_utf16 :: "utf16 \<Rightarrow> nat option list" where
  "decode_utf16 [] = []"
| "decode_utf16 (u # us) =
     (if unat u < 0xD800 \<or> 0xE000 \<le> unat u then Some (unat u) # decode_utf16 us
      else if 0xDC00 \<le> unat u then None # decode_utf16 us
      else (case us of
              [] \<Rightarrow> [None]
            | v # vs \<Rightarrow>
                if 0xDC00 \<le> unat v \<and> unat v < 0xE000
                then Some (0x10000 + (unat u - 0xD800) * 1024 + (unat v - 0xDC00)) # decode_utf16 vs
                else None # decode_utf16 us))"

definition from_utf16 :: "utf16 \<Rightarrow> string option" where
  "from_utf16 us =
     (if None \<in> set (decode_utf16 us) then None else Some (str_of (map the (decode_utf16 us))))"

definition from_utf16_lossy :: "utf16 \<Rightarrow> string" where
  "from_utf16_lossy us =
     str_of (map (\<lambda>r. case r of None \<Rightarrow> 0xFFFD | Some c \<Rightarrow> c) (decode_utf16 us))"

lemma decode_utf16_pair:
  "unat u = 0xD800 + a \<Longrightarrow> unat v = 0xDC00 + b \<Longrightarrow> a < 1024 \<Longrightarrow> b < 1024 \<Longrightarrow>
   decode_utf16 (u # v # us) = Some (0x10000 + a * 1024 + b) # decode_utf16 us"
  by simp

lemma decode_utf16_char:
  assumes "is_scalar c"
  shows "decode_utf16 (utf16_char c @ us) = Some c # decode_utf16 us"
proof (cases "c < 0x10000")
  case True
  then have "unat (of_nat c :: u16) = c"
    by (simp add: unat_of_nat_u16)
  with True assms show ?thesis by (auto simp: utf16_char_def is_scalar_def)
next
  case False
  define d where "d = c - 0x10000"
  from assms False have c: "c = 0x10000 + d" and d: "d < 0x100000"
    by (auto simp: d_def is_scalar_def)
  from d have hi: "unat (of_nat (0xD800 + d div 1024) :: u16) = 0xD800 + d div 1024"
    by (subst unat_of_nat_u16) auto
  have lo: "unat (of_nat (0xDC00 + d mod 1024) :: u16) = 0xDC00 + d mod 1024"
    by (subst unat_of_nat_u16) auto
  from d have "d div 1024 < 1024" by linarith
  moreover have "d mod 1024 < 1024" by simp
  moreover have "utf16_char c = [of_nat (0xD800 + d div 1024), of_nat (0xDC00 + d mod 1024)]"
    using False by (simp add: utf16_char_def d_def)
  ultimately show ?thesis using decode_utf16_pair [OF hi lo] c by simp
qed

lemma decode_encode_utf16:
  "list_all is_scalar cs \<Longrightarrow> decode_utf16 (concat (map utf16_char cs)) = map Some cs"
  by (induction cs) (simp_all add: decode_utf16_char)

lemma from_encode_utf16 [simp]: "is_str s \<Longrightarrow> from_utf16 (encode_utf16 s) = Some s"
  using decode_encode_utf16 [OF chars_scalar, of s]
  by (auto simp: from_utf16_def encode_utf16_def o_def str_of_chars)

lemma from_encode_utf16_lossy [simp]: "is_str s \<Longrightarrow> from_utf16_lossy (encode_utf16 s) = s"
  using decode_encode_utf16 [OF chars_scalar, of s]
  by (simp add: from_utf16_lossy_def encode_utf16_def o_def str_of_chars)

lemma utf16_char_nonzero:
  "is_scalar c \<Longrightarrow> c \<noteq> 0 \<Longrightarrow> (0::u16) \<notin> set (utf16_char c)"
proof -
  assume c: "is_scalar c" "c \<noteq> 0"
  have nz: "of_nat n \<noteq> (0::u16)" if "0 < n" "n < 65536" for n
    using that unat_of_nat_u16 [of n] by auto
  show ?thesis
  proof (cases "c < 0x10000")
    case True
    with c nz [of c] show ?thesis by (simp add: utf16_char_def)
  next
    case False
    moreover from c have "c < 0x110000" by (auto simp: is_scalar_def)
    moreover from this have "(c - 0x10000) div 1024 < 1024" by linarith
    moreover have "(c - 0x10000) mod 1024 < 1024" by simp
    ultimately show ?thesis
      using nz [of "0xD800 + (c - 0x10000) div 1024"] nz [of "0xDC00 + (c - 0x10000) mod 1024"]
      by (auto simp: utf16_char_def)
  qed
qed

lemma encode_utf16_nonzero:
  assumes "is_str s" and "0 \<notin> set (chars s)"
  shows "0 \<notin> set (encode_utf16 s)"
proof
  assume "0 \<in> set (encode_utf16 s)"
  then obtain c where "c \<in> set (chars s)" "0 \<in> set (utf16_char c)"
    by (auto simp: encode_utf16_def)
  moreover from this assms have "is_scalar c" "c \<noteq> 0"
    using chars_scalar [of s] by (auto simp: list_all_iff) (metis gr0I)
  ultimately show False using utf16_char_nonzero by blast
qed

subsection \<open>Trimming, case, splitting, joining, slicing\<close>

text \<open>\<open>char::is_whitespace\<close>: the Unicode \<open>White_Space\<close> property.\<close>

definition is_whitespace :: "nat \<Rightarrow> bool" where
  "is_whitespace c =
     ((9 \<le> c \<and> c \<le> 13) \<or> c = 32 \<or> c = 0x85 \<or> c = 0xA0 \<or> c = 0x1680 \<or>
      (0x2000 \<le> c \<and> c \<le> 0x200A) \<or> c = 0x2028 \<or> c = 0x2029 \<or> c = 0x202F \<or> c = 0x205F \<or>
      c = 0x3000)"

definition strip_ws :: "nat list \<Rightarrow> nat list" where
  "strip_ws cs = rev (dropWhile is_whitespace (rev (dropWhile is_whitespace cs)))"

definition trim :: "string \<Rightarrow> string" where
  "trim s = str_of (strip_ws (chars s))"

definition ascii_lower :: "char \<Rightarrow> char" where
  "ascii_lower c =
     (if (65::nat) \<le> of_char c \<and> of_char c \<le> (90::nat) then char_of (of_char c + (32::nat)) else c)"

definition to_ascii_lowercase :: "string \<Rightarrow> string" where
  "to_ascii_lowercase s = map ascii_lower s"

fun split_on :: "'a \<Rightarrow> 'a list \<Rightarrow> 'a list list" where
  "split_on c [] = [[]]"
| "split_on c (x # xs) =
     (if x = c then [] # split_on c xs
      else (case split_on c xs of [] \<Rightarrow> [[x]] | p # ps \<Rightarrow> (x # p) # ps))"

fun join :: "string \<Rightarrow> string list \<Rightarrow> string" where
  "join sep [] = []"
| "join sep [p] = p"
| "join sep (p # q # ps) = p @ sep @ join sep (q # ps)"

text \<open>\<open>&s[..n]\<close>: panics (\<open>None\<close>) past the end or inside a character.\<close>

definition is_char_boundary :: "string \<Rightarrow> nat \<Rightarrow> bool" where
  "is_char_boundary s n =
     (n = 0 \<or> n = length s \<or> (n < length s \<and> \<not> cont (of_char (s ! n))))"

definition slice_to :: "string \<Rightarrow> nat \<Rightarrow> string option" where
  "slice_to s n = (if is_char_boundary s n then Some (take n s) else None)"

lemma split_on_nonempty [simp]: "split_on c s \<noteq> []"
  by (induction s) (auto split: list.splits)

lemma split_on_no_sep: "p \<in> set (split_on c s) \<Longrightarrow> c \<notin> set p"
  by (induction s arbitrary: p) (auto split: if_splits list.splits)

lemma split_on_absent: "c \<notin> set p \<Longrightarrow> split_on c p = [p]"
  by (induction p) auto

lemma split_on_append: "c \<notin> set p \<Longrightarrow> split_on c (p @ c # s) = p # split_on c s"
  by (induction p) (auto split: list.splits)

lemma split_on_join:
  "ps \<noteq> [] \<Longrightarrow> \<forall>p\<in>set ps. c \<notin> set p \<Longrightarrow> split_on c (join [c] ps) = ps"
  by (induction "[c]" ps rule: join.induct) (auto simp: split_on_absent split_on_append)

lemma slice_to_ascii:
  assumes "is_ascii s" and "n \<le> length s"
  shows "slice_to s n = Some (take n s)"
proof -
  have "\<not> cont (of_char (s ! n))" if "n < length s"
    using assms that by (auto simp: is_ascii_def list_all_length cont_def not_le)
  with assms show ?thesis by (auto simp: slice_to_def is_char_boundary_def)
qed

lemma set_strip_ws: "set (strip_ws cs) \<subseteq> set cs"
  unfolding strip_ws_def by (auto dest!: set_dropWhileD)

lemma strip_ws_idem [simp]: "strip_ws (strip_ws cs) = strip_ws cs"
proof -
  define ds where "ds = dropWhile is_whitespace cs"
  have hd: "es = [] \<or> \<not> is_whitespace (hd es)" if "prefix es ds" for es
  proof (cases es)
    case (Cons e es')
    with that have "ds \<noteq> []" "hd ds = e" by (auto simp: prefix_def)
    then show ?thesis using Cons hd_dropWhile [of is_whitespace cs] by (simp add: ds_def)
  qed simp
  have "prefix (strip_ws cs) ds"
    unfolding strip_ws_def ds_def [symmetric]
    by (metis suffix_dropWhile suffix_to_prefix rev_rev_ident)
  then have front: "dropWhile is_whitespace (strip_ws cs) = strip_ws cs"
    using hd [of "strip_ws cs"] by (cases "strip_ws cs") auto
  have "rev (strip_ws cs) = dropWhile is_whitespace (rev ds)"
    by (simp add: strip_ws_def ds_def)
  then have "dropWhile is_whitespace (rev (strip_ws cs)) = rev (strip_ws cs)"
    by simp
  then show ?thesis using front unfolding strip_ws_def [of "strip_ws cs"] by simp
qed

lemma strip_ws_scalar: "is_str s \<Longrightarrow> list_all is_scalar (strip_ws (chars s))"
  using set_strip_ws [of "chars s"] chars_scalar [of s] by (auto simp: list_all_iff)

lemma trim_is_str [simp]: "is_str s \<Longrightarrow> is_str (trim s)"
  by (simp add: trim_def strip_ws_scalar)

lemma trim_trim [simp]: "is_str s \<Longrightarrow> trim (trim s) = trim s"
  by (simp add: trim_def strip_ws_scalar)

subsection \<open>Formatting numbers\<close>

text \<open>\<open>{}\<close> on an integer, and \<open>{:0wx}\<close> / \<open>{:0wX}\<close>: hexadecimal, zero-padded to \<open>w\<close> digits.\<close>

definition digit :: "bool \<Rightarrow> nat \<Rightarrow> char" where
  "digit upper d =
     char_of (if d < 10 then 48 + d else if upper then 55 + d else 87 + d)"

fun show_nat :: "nat \<Rightarrow> string" where
  "show_nat n = (if n < 10 then [digit False n] else show_nat (n div 10) @ [digit False (n mod 10)])"

declare show_nat.simps [simp del]

definition show_int :: "int \<Rightarrow> string" where
  "show_int i = (if i < 0 then ''-'' @ show_nat (nat (- i)) else show_nat (nat i))"

fun hex_digits :: "bool \<Rightarrow> nat \<Rightarrow> nat \<Rightarrow> string" where
  "hex_digits upper 0 n = []"
| "hex_digits upper (Suc w) n = hex_digits upper w (n div 16) @ [digit upper (n mod 16)]"

text \<open>The values formatted with a width \<open>w\<close> here have at most \<open>w\<close> hexadecimal digits.\<close>

definition hex08 :: "32 word \<Rightarrow> string" where
  "hex08 w = hex_digits False 8 (unat w)"

fun hex_nat :: "nat \<Rightarrow> string" where
  "hex_nat n = (if n < 16 then [digit False n] else hex_nat (n div 16) @ [digit False (n mod 16)])"

declare hex_nat.simps [simp del]

lemma length_hex_digits [simp]: "length (hex_digits u w n) = w"
  by (induction w arbitrary: n) simp_all

definition em_dash :: string where
  "em_dash = [CHR 0xE2, CHR 0x80, CHR 0x94]"

definition backslash :: char where
  "backslash = CHR 0x5C"

definition newline :: char where
  "newline = CHR 0x0A"

lemma hex_byte: "hex_digits u 2 n = [digit u (n div 16 mod 16), digit u (n mod 16)]"
  by (simp add: numeral_2_eq_2)

lemma lower_digits:
  "digit False 0 = CHR ''0''" "digit False (Suc 0) = CHR ''1''" "digit False 2 = CHR ''2''"
  "digit False 3 = CHR ''3''" "digit False 4 = CHR ''4''" "digit False 5 = CHR ''5''"
  "digit False 6 = CHR ''6''" "digit False 7 = CHR ''7''" "digit False 8 = CHR ''8''"
  "digit False 9 = CHR ''9''" "digit False 10 = CHR ''a''" "digit False 11 = CHR ''b''"
  "digit False 12 = CHR ''c''" "digit False 13 = CHR ''d''" "digit False 14 = CHR ''e''"
  "digit False 15 = CHR ''f''"
  by code_simp+

subsection \<open>Parsing a number\<close>

text \<open>\<open>str::parse::<u32>().ok()\<close>: an optional plus sign, then digits only, below \<open>2^32\<close>.\<close>

definition is_digit :: "char \<Rightarrow> bool" where
  "is_digit c = ((48::nat) \<le> of_char c \<and> of_char c \<le> (57::nat))"

definition digits_value :: "string \<Rightarrow> nat" where
  "digits_value ds = foldl (\<lambda>a c. 10 * a + (of_char c - 48)) 0 ds"

definition parse_u32 :: "string \<Rightarrow> u32 option" where
  "parse_u32 s =
     (let ds = (case s of [] \<Rightarrow> [] | c # cs \<Rightarrow> if c = CHR ''+'' \<and> cs \<noteq> [] then cs else s)
      in if ds = [] \<or> \<not> list_all is_digit ds \<or> 2 ^ 32 \<le> digits_value ds then None
         else Some (of_nat (digits_value ds)))"

lemma digit_is_digit: "d < 10 \<Longrightarrow> is_digit (digit False d)"
  by (simp add: is_digit_def digit_def)

lemma digit_value: "d < 10 \<Longrightarrow> of_char (digit False d) = 48 + d"
  by (simp add: digit_def)

lemma show_nat_digits: "show_nat n \<noteq> [] \<and> list_all is_digit (show_nat n) \<and> digits_value (show_nat n) = n"
proof (induction n rule: show_nat.induct)
  case (1 n)
  show ?case
  proof (cases "n < 10")
    case True
    then show ?thesis
      by (subst (1 2 3) show_nat.simps) (simp add: digit_is_digit digit_value digits_value_def)
  next
    case False
    with 1 show ?thesis
      by (subst (1 2 3) show_nat.simps) (simp add: digit_is_digit digit_value digits_value_def)
  qed
qed

lemma parse_show_nat: "n < 2 ^ 32 \<Longrightarrow> parse_u32 (show_nat n) = Some (of_nat n)"
proof -
  assume n: "n < 2 ^ 32"
  obtain c cs where c: "show_nat n = c # cs" using show_nat_digits [of n] by (cases "show_nat n") auto
  have "is_digit c" using show_nat_digits [of n] c by simp
  then have "c \<noteq> CHR ''+''" by (auto simp: is_digit_def)
  with c n show_nat_digits [of n] show ?thesis by (simp add: parse_u32_def)
qed

subsection \<open>Debug formatting\<close>

text \<open>
  \<open>{:?}\<close> on a \<open>str\<close>. Which characters beyond ASCII are escaped is a table of the standard
  library, here the argument \<open>table\<close>.
\<close>

definition escape_char :: "(nat \<Rightarrow> bool) \<Rightarrow> nat \<Rightarrow> string" where
  "escape_char table c =
     (if c = 0 then [backslash, CHR ''0'']
      else if c = 9 then [backslash, CHR ''t'']
      else if c = 10 then [backslash, CHR ''n'']
      else if c = 13 then [backslash, CHR ''r'']
      else if c = 0x22 \<or> c = 0x5C then [backslash, char_of c]
      else if c < 32 \<or> c = 127 \<or> (128 \<le> c \<and> table c)
      then backslash # ''u{'' @ hex_nat c @ ''}''
      else str_of [c])"

definition debug_str :: "(nat \<Rightarrow> bool) \<Rightarrow> string \<Rightarrow> string" where
  "debug_str table s = CHR 0x22 # concat (map (escape_char table) (chars s)) @ [CHR 0x22]"

subsection \<open>Pieces of a string are strings\<close>

lemma str_of_append [simp]: "str_of (xs @ ys) = str_of xs @ str_of ys"
  by (simp add: str_of_def)

lemma is_str_append [intro]: "is_str s \<Longrightarrow> is_str t \<Longrightarrow> is_str (s @ t)"
  unfolding is_str_def by (metis list_all_append str_of_append)

lemma utf8_char_ascii_byte:
  "is_scalar c \<Longrightarrow> b \<in> set (utf8_char c) \<Longrightarrow> b < 128 \<Longrightarrow> c = b \<and> utf8_char c = [b]"
  by (auto simp: utf8_char_def split: if_splits)

lemma split_on_decompose:
  "split_on a (xs @ ys) =
     (case split_on a ys of p # ps \<Rightarrow> butlast (split_on a xs) @ (last (split_on a xs) @ p) # ps | [] \<Rightarrow> [])"
proof (induction xs)
  case Nil
  show ?case by (cases "split_on a ys") auto
next
  case (Cons x xs)
  obtain p ps where p: "split_on a ys = p # ps" by (cases "split_on a ys") auto
  obtain q qs where q: "split_on a xs = q # qs" by (cases "split_on a xs") auto
  show ?case using Cons p q by (cases qs) auto
qed

text \<open>Splitting the bytes at an ASCII character splits the scalar values.\<close>

lemma split_on_str_of:
  assumes "list_all is_scalar cs" and "n < 128"
  shows "split_on (char_of n) (str_of cs) = map str_of (split_on n cs)"
  using assms(1)
proof (induction cs)
  case Nil
  then show ?case by (simp add: str_of_def)
next
  case (Cons c cs)
  then have c: "is_scalar c" and IH: "split_on (char_of n) (str_of cs) = map str_of (split_on n cs)"
    by simp_all
  obtain p ps where p: "split_on n cs = p # ps" by (cases "split_on n cs") auto
  have cons: "str_of (c # cs) = str_of [c] @ str_of cs" using str_of_append [of "[c]" cs] by simp
  show ?case
  proof (cases "c = n")
    case True
    with assms(2) have "str_of [c] = [char_of n]" by (simp add: str_of_def utf8_char_def)
    with True IH p cons show ?thesis by (simp add: str_of_def)
  next
    case False
    have "char_of n \<notin> set (str_of [c])"
    proof
      assume "char_of n \<in> set (str_of [c])"
      then obtain b where b: "b \<in> set (utf8_char c)" "(char_of n :: char) = char_of b"
        by (auto simp: str_of_def)
      have "b < 256" using utf8_char_byte [OF c b(1)] .
      moreover have "(of_char (char_of n :: char) :: nat) = of_char (char_of b :: char)"
        using b(2) by simp
      ultimately have "b = n" using assms(2) by simp
      with b(1) False assms(2) utf8_char_ascii_byte [OF c, of n] show False by simp
    qed
    then have "split_on (char_of n) (str_of [c]) = [str_of [c]]" by (rule split_on_absent)
    with False IH p cons show ?thesis
      using str_of_append [of "[c]" p] by (simp add: split_on_decompose)
  qed
qed

lemma split_on_subset: "p \<in> set (split_on a xs) \<Longrightarrow> set p \<subseteq> set xs"
proof (induction xs arbitrary: p)
  case (Cons x xs)
  obtain q qs where q: "split_on a xs = q # qs" by (cases "split_on a xs") auto
  have "set q \<subseteq> set xs" using Cons.IH q by simp
  moreover have "r \<in> set qs \<Longrightarrow> set r \<subseteq> set xs" for r using Cons.IH [of r] q by simp
  ultimately show ?case using Cons.prems q by (auto split: if_splits)
qed simp

lemma split_on_is_str:
  assumes "is_str s" and "p \<in> set (split_on (char_of n) s)" and "n < (128::nat)"
  shows "is_str p"
proof -
  obtain cs where cs: "list_all is_scalar cs" "s = str_of cs" using assms(1) by (auto simp: is_str_def)
  with assms(2,3) split_on_str_of obtain q where q: "q \<in> set (split_on n cs)" "p = str_of q" by auto
  have "set q \<subseteq> set cs" using q(1) by (rule split_on_subset)
  with cs(1) have "list_all is_scalar q" by (auto simp: list_all_iff)
  with q(2) show ?thesis by simp
qed

lemma join_is_str: "is_str sep \<Longrightarrow> list_all is_str ps \<Longrightarrow> is_str (join sep ps)"
  by (induction sep ps rule: join.induct) (auto intro: ascii_is_str simp: is_ascii_def)

text \<open>Trimming a piece introduces no separator.\<close>

lemma trim_no_char:
  assumes "is_str s" and "n < (128::nat)" and "char_of n \<notin> set s"
  shows "char_of n \<notin> set (trim s)"
proof -
  obtain cs where cs: "list_all is_scalar cs" "s = str_of cs" using assms(1) by (auto simp: is_str_def)
  have "set (strip_ws cs) \<subseteq> set cs" by (rule set_strip_ws)
  then have "set (str_of (strip_ws cs)) \<subseteq> set (str_of cs)" by (auto simp: str_of_def)
  with cs assms(3) show ?thesis by (auto simp: trim_def)
qed

end
