(* ===== verification/Json_Value.thy ===== *)
theory Json_Value
  imports Rust_Str
begin

text \<open>
  The values the provider exchanges with the plugin. \<open>json\<close> has the constructors of
  \<open>serde_json::Value\<close> that the code builds and inspects, with its documented accessors; the
  text format (\<open>to_string\<close>, \<open>from_str\<close>) is a parameter of the model. The wire structs of
  \<open>ctap/mod.rs\<close> and \<open>ipc/mod.rs\<close> become the objects their \<open>#[serde(rename)]\<close> attributes
  describe.
\<close>

subsection \<open>Values and accessors\<close>

datatype json =
    JNull
  | JBool bool
  | JNumber int
  | JString string
  | JArray "json list"
  | JObject "(string \<times> json) list"

text \<open>\<open>v[k]\<close> on a shared reference: \<open>Null\<close> where there is no such member.\<close>

definition json_get :: "json \<Rightarrow> string \<Rightarrow> json" where
  "json_get v k =
     (case v of
        JObject kvs \<Rightarrow> (case map_of kvs k of Some x \<Rightarrow> x | None \<Rightarrow> JNull)
      | _ \<Rightarrow> JNull)"

fun as_str :: "json \<Rightarrow> string option" where
  "as_str (JString s) = Some s"
| "as_str _ = None"

fun as_bool :: "json \<Rightarrow> bool option" where
  "as_bool (JBool b) = Some b"
| "as_bool _ = None"

fun as_array :: "json \<Rightarrow> json list option" where
  "as_array (JArray xs) = Some xs"
| "as_array _ = None"

lemma json_get_object [simp]:
  "json_get (JObject kvs) k = (case map_of kvs k of Some x \<Rightarrow> x | None \<Rightarrow> JNull)"
  by (simp add: json_get_def)

lemma json_get_null [simp]: "json_get JNull k = JNull"
  by (simp add: json_get_def)

lemma as_str_Some [simp]: "as_str v = Some s \<longleftrightarrow> v = JString s"
  by (cases v) auto

lemma as_array_Some [simp]: "as_array v = Some xs \<longleftrightarrow> v = JArray xs"
  by (cases v) auto

subsection \<open>The parameter and result structs of ctap/mod.rs\<close>

record CreatePasskeyParams =
  rp_id :: string
  rp_name :: string
  user_handle :: string
  user_name :: string
  user_display_name :: string

definition create_passkey_json :: "CreatePasskeyParams \<Rightarrow> json" where
  "create_passkey_json p = JObject
     [(''rpId'', JString (rp_id p)), (''rpName'', JString (rp_name p)),
      (''userHandle'', JString (user_handle p)), (''userName'', JString (user_name p)),
      (''userDisplayName'', JString (user_display_name p))]"

record CreatePasskeyResult =
  cpr_credential_id :: string
  cpr_public_key_cose :: string
  cpr_auth_data :: string

record SignAssertionParams =
  sap_credential_id :: string
  sap_auth_data :: string
  sap_client_data_hash :: string

definition sign_assertion_json :: "SignAssertionParams \<Rightarrow> json" where
  "sign_assertion_json p = JObject
     [(''credentialId'', JString (sap_credential_id p)), (''authData'', JString (sap_auth_data p)),
      (''clientDataHash'', JString (sap_client_data_hash p))]"

record SignAssertionResult =
  sar_signature :: string

record ListCredentialsParams =
  lcp_rp_id :: string

definition list_credentials_json :: "ListCredentialsParams \<Rightarrow> json" where
  "list_credentials_json p = JObject [(''rpId'', JString (lcp_rp_id p))]"

record CredentialInfo =
  ci_credential_id :: string
  ci_user_name :: string
  ci_rp_id :: string

record DeleteCredentialParams =
  dcp_credential_id :: string

definition delete_credential_json :: "DeleteCredentialParams \<Rightarrow> json" where
  "delete_credential_json p = JObject [(''credentialId'', JString (dcp_credential_id p))]"

record DeleteCredentialResult =
  dcr_deleted :: bool

subsection \<open>The JSON-RPC envelope of ipc/mod.rs\<close>

record RpcRequest =
  jsonrpc :: string
  req_id :: u32
  req_method :: string
  req_params :: json

record RpcErrorObj =
  err_code :: i32
  err_message :: string

record RpcResponse =
  resp_id :: json
  resp_result :: "json option"
  resp_error :: "RpcErrorObj option"

end
