(* ===== verification/Com_Types.thy ===== *)
theory Com_Types
  imports Prelude
begin

unbundle bit_operations_syntax

text \<open>
  \<open>com/types.rs\<close>: the enums and \<open>repr(C)\<close> structs shared with \<open>webauthn.dll\<close>. The structs
  matter for their memory layout (the crashes recorded in the source were layout
  mismatches), so each is given as its field list, and \<open>layout\<close> computes the offsets
  \<open>repr(C)\<close> gives it on x64 (8-byte pointers) and on x86 (4-byte pointers). \<open>Guid\<close> is also a
  value, with its conversion to the 128-bit number behind \<open>windows::core::GUID\<close>
  (\<open>com/server.rs\<close>).
\<close>

subsection \<open>Enums\<close>

datatype WebauthNPluginRequestType = Ctap2Cbor

datatype PluginLockStatus = Locked | Unlocked

fun request_type_u32 :: "WebauthNPluginRequestType \<Rightarrow> u32" where
  "request_type_u32 Ctap2Cbor = 0x1"

fun lock_status_u32 :: "PluginLockStatus \<Rightarrow> u32" where
  "lock_status_u32 Locked = 0"
| "lock_status_u32 Unlocked = 1"

subsection \<open>Field types and the repr(C) layout\<close>

datatype target = X64 | X86

fun ptr_size :: "target \<Rightarrow> nat" where
  "ptr_size X64 = 8"
| "ptr_size X86 = 4"

datatype field_type = DWORD | ENUM32 | ISIZE | POINTER | U16 | BYTES8 | INLINE_GUID

fun ft_size :: "target \<Rightarrow> field_type \<Rightarrow> nat" where
  "ft_size p DWORD = 4"
| "ft_size p ENUM32 = 4"
| "ft_size p ISIZE = ptr_size p"
| "ft_size p POINTER = ptr_size p"
| "ft_size p U16 = 2"
| "ft_size p BYTES8 = 8"
| "ft_size p INLINE_GUID = 16"

fun ft_align :: "target \<Rightarrow> field_type \<Rightarrow> nat" where
  "ft_align p DWORD = 4"
| "ft_align p ENUM32 = 4"
| "ft_align p ISIZE = ptr_size p"
| "ft_align p POINTER = ptr_size p"
| "ft_align p U16 = 2"
| "ft_align p BYTES8 = 1"
| "ft_align p INLINE_GUID = 4"

type_synonym struct_def = "(string \<times> field_type) list"

definition align_up :: "nat \<Rightarrow> nat \<Rightarrow> nat" where
  "align_up a n = (n + a - 1) div a * a"

text \<open>Fields in order, each at the next offset its alignment allows.\<close>

fun layout_from :: "target \<Rightarrow> nat \<Rightarrow> struct_def \<Rightarrow> (string \<times> nat \<times> nat) list" where
  "layout_from p off [] = []"
| "layout_from p off ((f, t) # fs) =
     (let o' = align_up (ft_align p t) off
      in (f, o', ft_size p t) # layout_from p (o' + ft_size p t) fs)"

definition layout :: "target \<Rightarrow> struct_def \<Rightarrow> (string \<times> nat \<times> nat) list" where
  "layout p sd = layout_from p 0 sd"

definition offset_of :: "target \<Rightarrow> struct_def \<Rightarrow> string \<Rightarrow> nat option" where
  "offset_of p sd f = map_option fst (map_of (layout p sd) f)"

fun end_from :: "target \<Rightarrow> nat \<Rightarrow> struct_def \<Rightarrow> nat" where
  "end_from p off [] = off"
| "end_from p off ((f, t) # fs) = end_from p (align_up (ft_align p t) off + ft_size p t) fs"

definition struct_align :: "target \<Rightarrow> struct_def \<Rightarrow> nat" where
  "struct_align p sd = fold (\<lambda>(f, t) a. max (ft_align p t) a) sd 1"

definition size_of :: "target \<Rightarrow> struct_def \<Rightarrow> nat" where
  "size_of p sd = align_up (struct_align p sd) (end_from p 0 sd)"

subsection \<open>The structs of the file\<close>

definition Guid_struct :: struct_def where
  "Guid_struct = [(''data1'', DWORD), (''data2'', U16), (''data3'', U16), (''data4'', BYTES8)]"

definition WebauthNPluginOperationRequest_struct :: struct_def where
  "WebauthNPluginOperationRequest_struct =
     [(''hwnd'', ISIZE), (''transaction_id'', INLINE_GUID), (''cb_request_signature'', DWORD),
      (''pb_request_signature'', POINTER), (''request_type'', ENUM32),
      (''cb_encoded_request'', DWORD), (''pb_encoded_request'', POINTER)]"

definition WebauthNPluginOperationResponse_struct :: struct_def where
  "WebauthNPluginOperationResponse_struct =
     [(''cb_encoded_response'', DWORD), (''pb_encoded_response'', POINTER)]"

definition WebauthNPluginCancelOperationRequest_struct :: struct_def where
  "WebauthNPluginCancelOperationRequest_struct =
     [(''transaction_id'', INLINE_GUID), (''cb_request_signature'', DWORD),
      (''pb_request_signature'', POINTER)]"

definition WebauthnPluginAddAuthenticatorOptions_struct :: struct_def where
  "WebauthnPluginAddAuthenticatorOptions_struct =
     [(''pwsz_authenticator_name'', POINTER), (''rclsid'', POINTER),
      (''pwsz_plugin_rp_id'', POINTER), (''pwsz_light_theme_logo_svg'', POINTER),
      (''pwsz_dark_theme_logo_svg'', POINTER), (''cb_authenticator_info'', DWORD),
      (''pb_authenticator_info'', POINTER), (''c_supported_rp_ids'', DWORD),
      (''ppwsz_supported_rp_ids'', POINTER)]"

definition WebauthnPluginAddAuthenticatorResponse_struct :: struct_def where
  "WebauthnPluginAddAuthenticatorResponse_struct =
     [(''cb_op_sign_pub_key'', DWORD), (''pb_op_sign_pub_key'', POINTER)]"

definition WebauthnPluginUserVerificationRequest_struct :: struct_def where
  "WebauthnPluginUserVerificationRequest_struct =
     [(''hwnd'', ISIZE), (''p_transaction_id'', POINTER), (''pwsz_username'', POINTER),
      (''pwsz_display_hint'', POINTER)]"

definition WebauthnPluginUserVerificationRequest2_struct :: struct_def where
  "WebauthnPluginUserVerificationRequest2_struct =
     [(''hwnd'', ISIZE), (''p_transaction_id'', POINTER), (''pwsz_username'', POINTER),
      (''pwsz_display_hint'', POINTER), (''cb_buffer_to_sign'', DWORD),
      (''pb_buffer_to_sign'', POINTER)]"

definition WebauthnPluginCredentialDetails_struct :: struct_def where
  "WebauthnPluginCredentialDetails_struct =
     [(''cb_credential_id'', DWORD), (''pb_credential_id'', POINTER), (''pwsz_rp_id'', POINTER),
      (''pwsz_rp_name'', POINTER), (''cb_user_id'', DWORD), (''pb_user_id'', POINTER),
      (''pwsz_user_name'', POINTER), (''pwsz_user_display_name'', POINTER)]"

subsection \<open>What every repr(C) layout guarantees\<close>

lemma align_up_ge: "0 < a \<Longrightarrow> n \<le> align_up a n"
proof -
  assume a: "0 < a"
  have "(n + a - 1) mod a < a" using a by simp
  then show ?thesis
    unfolding align_up_def using a div_mult_mod_eq [of "n + a - 1" a] by linarith
qed

lemma align_up_lt: "0 < a \<Longrightarrow> align_up a n < n + a"
  unfolding align_up_def using div_mult_mod_eq [of "n + a - 1" a] by linarith

lemma align_up_dvd [simp]: "a dvd align_up a n"
  by (simp add: align_up_def)

lemma ft_align_pos [simp]: "0 < ft_align p t"
  by (cases t; cases p) simp_all

lemma end_from_ge: "off \<le> end_from p off sd"
proof (induction sd arbitrary: off)
  case (Cons ft sd)
  obtain f t where ft: "ft = (f, t)" by force
  let ?o = "align_up (ft_align p t) off + ft_size p t"
  have "off \<le> ?o" using align_up_ge [of "ft_align p t" off] by simp
  also have "\<dots> \<le> end_from p ?o sd" using Cons by simp
  finally show ?case by (simp add: ft)
qed simp

text \<open>The fields of a laid-out list: in order, disjoint, none before \<open>lo\<close>, none past \<open>hi\<close>.\<close>

fun placed :: "nat \<Rightarrow> (string \<times> nat \<times> nat) list \<Rightarrow> nat \<Rightarrow> bool" where
  "placed lo [] hi = (lo \<le> hi)"
| "placed lo ((f, o', n) # fs) hi = (lo \<le> o' \<and> placed (o' + n) fs hi)"

lemma placed_layout_from: "placed off (layout_from p off sd) (end_from p off sd)"
  by (induction p off sd rule: layout_from.induct) (simp_all add: Let_def align_up_ge)

lemma placed_mono: "placed lo fs hi \<Longrightarrow> hi \<le> hi' \<Longrightarrow> placed lo fs hi'"
  by (induction lo fs hi rule: placed.induct) auto

lemma layout_from_aligned:
  "list_all2 (\<lambda>(f, t) (g, o', n). f = g \<and> n = ft_size p t \<and> ft_align p t dvd o')
     sd (layout_from p off sd)"
  by (induction p off sd rule: layout_from.induct) (auto simp: Let_def)

lemma struct_align_ge:
  "(f, t) \<in> set sd \<Longrightarrow> ft_align p t \<le> fold (\<lambda>(f, t) a. max (ft_align p t) a) sd a"
proof (induction sd arbitrary: a)
  case (Cons x sd)
  have mono: "b \<le> fold (\<lambda>(f, t) a. max (ft_align p t) a) sd b" for b
    by (induction sd arbitrary: b) (fastforce simp: max_def intro: order_trans)+
  show ?case
  proof (cases "x = (f, t)")
    case True
    then show ?thesis using order_trans [OF _ mono] by auto
  next
    case False
    with Cons show ?thesis by (auto split: prod.splits)
  qed
qed simp

lemma struct_align_pos [simp]: "0 < struct_align p sd"
proof -
  have "b \<le> fold (\<lambda>(f, t) a. max (ft_align p t) a) sd b" for b
    by (induction sd arbitrary: b) (fastforce simp: max_def intro: order_trans)+
  then show ?thesis unfolding struct_align_def by (metis less_le_trans zero_less_one)
qed

lemma placed_layout: "placed 0 (layout p sd) (size_of p sd)"
  unfolding layout_def size_of_def
  by (rule placed_mono [OF placed_layout_from]) (simp_all add: align_up_ge)


definition offsets :: "target \<Rightarrow> struct_def \<Rightarrow> nat list" where
  "offsets p sd = map (\<lambda>(f, o', n). o') (layout p sd)"

text \<open>
  The computed layouts are the documented ones: the sizes and offsets the comments and the
  ABI tests of \<open>types.rs\<close> record for \<open>webauthn.dll\<close> on x64 and x86. In particular every
  pointer after a \<open>DWORD\<close> lies 4 bytes further on x64 (48, 64, 40, 8) than the sum of the
  sizes before it.
\<close>

theorem documented_abi:
  "size_of X64 Guid_struct = 16 \<and> size_of X86 Guid_struct = 16 \<and>
   offsets X64 WebauthNPluginOperationRequest_struct = [0, 8, 24, 32, 40, 44, 48] \<and>
   offsets X64 WebauthNPluginOperationResponse_struct = [0, 8] \<and>
   size_of X64 WebauthNPluginOperationResponse_struct = 16 \<and>
   offsets X86 WebauthNPluginOperationResponse_struct = [0, 4] \<and>
   size_of X86 WebauthNPluginOperationResponse_struct = 8 \<and>
   offsets X64 WebauthnPluginAddAuthenticatorOptions_struct = [0, 8, 16, 24, 32, 40, 48, 56, 64] \<and>
   size_of X64 WebauthnPluginAddAuthenticatorOptions_struct = 72 \<and>
   size_of X64 WebauthnPluginAddAuthenticatorResponse_struct = 16 \<and>
   size_of X86 WebauthnPluginAddAuthenticatorResponse_struct = 8 \<and>
   offsets X64 WebauthnPluginUserVerificationRequest_struct = [0, 8, 16, 24] \<and>
   size_of X64 WebauthnPluginUserVerificationRequest_struct = 32 \<and>
   size_of X86 WebauthnPluginUserVerificationRequest_struct = 16 \<and>
   offsets X64 WebauthnPluginUserVerificationRequest2_struct = [0, 8, 16, 24, 32, 40] \<and>
   size_of X64 WebauthnPluginUserVerificationRequest2_struct = 48 \<and>
   offsets X86 WebauthnPluginUserVerificationRequest2_struct = [0, 4, 8, 12, 16, 20] \<and>
   size_of X86 WebauthnPluginUserVerificationRequest2_struct = 24 \<and>
   offsets X64 WebauthnPluginCredentialDetails_struct = [0, 8, 16, 24, 32, 40, 48, 56] \<and>
   size_of X64 WebauthnPluginCredentialDetails_struct = 64 \<and>
   size_of X86 WebauthnPluginCredentialDetails_struct = 32"
  by (intro conjI) code_simp+

subsection \<open>GUIDs\<close>

record Guid =
  data1 :: u32
  data2 :: u16
  data3 :: u16
  data4 :: "u8 list"

text \<open>\<open>data4\<close> is the array type \<open>[u8; 8]\<close>.\<close>

definition guid_wf :: "Guid \<Rightarrow> bool" where
  "guid_wf g = (length (data4 g) = 8)"

definition IID_IPLUGIN_AUTHENTICATOR :: Guid where
  "IID_IPLUGIN_AUTHENTICATOR =
     \<lparr>data1 = 0xd26bcf6f, data2 = 0xb54c, data3 = 0x43ff,
      data4 = [0x9f, 0x06, 0xd5, 0xbf, 0x14, 0x86, 0x25, 0xf7]\<rparr>"

definition CLSID_GUID :: Guid where
  "CLSID_GUID =
     \<lparr>data1 = 0x5c6840dc, data2 = 0x8bed, data3 = 0x4951,
      data4 = [0x95, 0x76, 0xb0, 0x45, 0x7f, 0xc3, 0x4e, 0x71]\<rparr>"

text \<open>\<open>impl From<Guid> for windows::core::GUID\<close>: the argument of \<open>GUID::from_u128\<close>.\<close>

definition guid_u128 :: "Guid \<Rightarrow> 128 word" where
  "guid_u128 g =
     push_bit 96 (ucast (data1 g)) OR push_bit 80 (ucast (data2 g)) OR
     push_bit 64 (ucast (data3 g)) OR
     push_bit 56 (ucast (data4 g ! 0)) OR push_bit 48 (ucast (data4 g ! 1)) OR
     push_bit 40 (ucast (data4 g ! 2)) OR push_bit 32 (ucast (data4 g ! 3)) OR
     push_bit 24 (ucast (data4 g ! 4)) OR push_bit 16 (ucast (data4 g ! 5)) OR
     push_bit 8 (ucast (data4 g ! 6)) OR ucast (data4 g ! 7)"

text \<open>The constants of \<open>server.rs\<close> and \<open>exe_server.rs\<close>, written as \<open>GUID::from_u128(..)\<close> there.\<close>

definition IID_IUNKNOWN :: "128 word" where
  "IID_IUNKNOWN = 0x0000000000000000C000000000000046"

definition IID_ICLASS_FACTORY :: "128 word" where
  "IID_ICLASS_FACTORY = 0x0000000100000000C000000000000046"

definition CLSID_KEEPASSKEYWIN :: "128 word" where
  "CLSID_KEEPASSKEYWIN = 0x5c6840dc8bed49519576b0457fc34e71"

definition iid_iplugin_authenticator :: "128 word" where
  "iid_iplugin_authenticator = guid_u128 IID_IPLUGIN_AUTHENTICATOR"

lemma bit_high: "LENGTH('a) \<le> n \<Longrightarrow> \<not> bit (w :: 'a::len word) n"
  using bit_imp_le_length by force

lemma guid_u128_data1: "ucast (drop_bit 96 (guid_u128 g)) = data1 g"
  by (rule bit_word_eqI) (auto simp: guid_u128_def bit_simps bit_high)

lemma guid_u128_data2: "ucast (drop_bit 80 (guid_u128 g)) = data2 g"
  by (rule bit_word_eqI) (auto simp: guid_u128_def bit_simps bit_high)

lemma guid_u128_data3: "ucast (drop_bit 64 (guid_u128 g)) = data3 g"
  by (rule bit_word_eqI) (auto simp: guid_u128_def bit_simps bit_high)

lemma guid_u128_data4:
  "i < 8 \<Longrightarrow> ucast (drop_bit (56 - 8 * i) (guid_u128 g)) = data4 g ! i"
proof -
  assume "i < 8"
  then consider "i = 0" | "i = 1" | "i = 2" | "i = 3" | "i = 4" | "i = 5" | "i = 6" | "i = 7"
    by linarith
  then show ?thesis
    by cases (simp_all only:, (rule bit_word_eqI, auto simp: guid_u128_def bit_simps bit_high)+)
qed


lemma clsid_ne_iid: "CLSID_GUID \<noteq> IID_IPLUGIN_AUTHENTICATOR"
  by (simp add: CLSID_GUID_def IID_IPLUGIN_AUTHENTICATOR_def)


lemma iid_iplugin_authenticator_val:
  "iid_iplugin_authenticator = 0xd26bcf6fb54c43ff9f06d5bf148625f7"
  by (simp add: iid_iplugin_authenticator_def guid_u128_def IID_IPLUGIN_AUTHENTICATOR_def)

lemma clsid_val: "guid_u128 CLSID_GUID = CLSID_KEEPASSKEYWIN"
  by (simp add: guid_u128_def CLSID_GUID_def CLSID_KEEPASSKEYWIN_def)

end
