(* ===== verification/World.thy ===== *)
theory World
  imports Json_Value Com_Types
begin

text \<open>
  The process and what surrounds it. Everything the provider calls outside its own source
  (the named pipe, the registry, \<open>webauthn.dll\<close>, COM, the crates) is the environment, a
  record of functions that the definitions take as an argument. An external call is answered
  by the environment from the whole history of calls so far, and is appended to that history
  with its answer: the history \<open>trace\<close> is part of the process state, so theorems hold for
  every environment behaviour and can speak of which calls were made, how often and in
  which order.
\<close>

subsection \<open>I/O errors, buffers and replies\<close>

datatype io_kind =
    BrokenPipe | ConnectionAborted | UnexpectedEof | NotConnected | PermissionDenied
  | TimedOut | WouldBlock | InvalidData | Interrupted | NotFoundKind | OtherKind

datatype io_error = IoError (io_error_kind: io_kind) (io_error_text: string)

text \<open>
  A pointer to memory owned by \<open>webauthn.dll\<close>: \<open>None\<close> is null, \<open>Some (p, bs)\<close> the address
  and the bytes behind it.
\<close>

type_synonym dll_buf = "(nat \<times> bytes) option"

text \<open>
  An out-parameter is written or left alone, so a reply carries what the callee writes to
  each of its out-parameters, if anything.
\<close>

type_synonym uv_reply = "hresult \<times> u32 option \<times> dll_buf option"

text \<open>How \<open>GetOperationSigningPublicKey\<close> takes the class id: by reference or as a wide string.\<close>

datatype key_arg = ByRef Guid | ByString utf16

type_synonym key_reply = "hresult \<times> u32 option \<times> dll_buf option"

record reg_reply =
  rr_status :: u32
  rr_type :: u32
  rr_data :: utf16
  rr_cb :: u32

record uv_request =
  uv_hwnd :: int
  uv_txid :: Guid
  uv_user :: utf16
  uv_hint :: utf16

record WebauthnPluginCredentialDetails =
  cb_credential_id :: u32
  pb_credential_id :: bytes
  pwsz_rp_id :: utf16
  pwsz_rp_name :: utf16
  cb_user_id :: u32
  pb_user_id :: bytes
  pwsz_user_name :: utf16
  pwsz_user_display_name :: utf16

text \<open>An entry of the array \<open>GetAllCredentials\<close> returns, as far as the code reads it.\<close>

record os_credential =
  oc_cb_id :: u32
  oc_pb_id :: "bytes option"

text \<open>\<open>ciborium::Value\<close>, the constructors the provider builds.\<close>

datatype cbor =
    CInteger int
  | CText string
  | CBytes bytes
  | CBool bool
  | CArray "cbor list"
  | CMap "(cbor \<times> cbor) list"

text \<open>The options of a registration, with the buffers its pointers refer to.\<close>

record WebauthnPluginAddAuthenticatorOptions =
  pwsz_authenticator_name :: utf16
  rclsid :: Guid
  pwsz_plugin_rp_id :: utf16
  pwsz_light_theme_logo_svg :: utf16
  pwsz_dark_theme_logo_svg :: utf16
  cb_authenticator_info :: u32
  pb_authenticator_info :: bytes
  c_supported_rp_ids :: u32
  ppwsz_supported_rp_ids :: "utf16 list option"

type_synonym getall_reply = "hresult \<times> u32 option \<times> (nat \<times> os_credential list) option option"

subsection \<open>Events\<close>

datatype pipe_event =
    PipeOpen string "io_error + nat"
  | PipeWrite nat string "io_error option"
  | PipeFlush nat "io_error option"
  | PipeRead nat "io_error + string"
  | PipeDrop nat

datatype dll_event =
    LoadLib "string option"
  | KeyGet string key_arg key_reply
  | KeyFree nat
  | UvCall1 string uv_request uv_reply
  | UvCall2 string uv_request u32 bytes uv_reply
  | UvFree nat
  | AddCredentials WebauthnPluginCredentialDetails hresult
  | GetAllCredentials getall_reply
  | RemoveCredentials os_credential hresult
  | FreeCredentialArray u32 nat
  | AddAuthenticator string WebauthnPluginAddAuthenticatorOptions "hresult \<times> nat option"
  | RemoveAuthenticator string Guid hresult
  | FreeAddResponse nat

datatype com_event =
    CoAddRefServerProcess
  | CoReleaseServerProcess
  | CoTaskMemAlloc nat nat
  | CoInitializeEx hresult
  | CoUninitialize
  | BuildRuntime
  | GetThreadId u32
  | RegisterClass "hresult + u32"
  | ResumeClassObjects hresult
  | GetMessage i32
  | DispatchMessage
  | RevokeClass u32
  | ExitProcess int
  | FreeObject nat
  | FreeFactory

text \<open>
  What the command line adds: the log file and the subscriber of \<open>init_tracing\<close> with the lines
  it writes itself, the runtime, and the registry key of the nonce.
\<close>

datatype log_sink = LogToStderr | LogToFile string

datatype cli_event =
    OpenLogFile string "io_error option"
  | InstallSubscriber log_sink string bool
  | LogLine string
  | NewRuntime "io_error option"
  | RegOpenKey i32
  | RegGetSz reg_reply
  | RegCloseKey

datatype event =
    Pipe pipe_event
  | Cli cli_event
  | Sleep nat
  | RegGet reg_reply
  | Dll dll_event
  | Com com_event
  | Stdout string
  | Stderr string

subsection \<open>The environment\<close>

record pipe_env =
  pe_open :: "event list \<Rightarrow> string \<Rightarrow> io_error + nat"
  pe_write :: "event list \<Rightarrow> nat \<Rightarrow> string \<Rightarrow> io_error option"
  pe_flush :: "event list \<Rightarrow> nat \<Rightarrow> io_error option"
  pe_read :: "event list \<Rightarrow> nat \<Rightarrow> io_error + string"

text \<open>The exports of \<open>webauthn.dll\<close> do not change while it is loaded.\<close>

record dll_env =
  de_load :: "event list \<Rightarrow> string option"
  de_exports :: "string \<Rightarrow> bool"
  de_key :: "event list \<Rightarrow> string \<Rightarrow> key_arg \<Rightarrow> key_reply"
  de_uv1 :: "event list \<Rightarrow> string \<Rightarrow> uv_request \<Rightarrow> uv_reply"
  de_uv2 :: "event list \<Rightarrow> string \<Rightarrow> uv_request \<Rightarrow> bytes \<Rightarrow> uv_reply"
  de_add_credentials :: "event list \<Rightarrow> WebauthnPluginCredentialDetails \<Rightarrow> hresult"
  de_get_all :: "event list \<Rightarrow> getall_reply"
  de_remove_credentials :: "event list \<Rightarrow> os_credential \<Rightarrow> hresult"
  de_add_authenticator ::
    "event list \<Rightarrow> WebauthnPluginAddAuthenticatorOptions \<Rightarrow> hresult \<times> nat option"
  de_remove_authenticator :: "event list \<Rightarrow> Guid \<Rightarrow> hresult"

record os_env =
  oe_reg :: "event list \<Rightarrow> reg_reply"
  oe_var :: "string \<Rightarrow> string option"
  oe_alloc :: "event list \<Rightarrow> nat \<Rightarrow> nat"
  oe_co_init :: "event list \<Rightarrow> hresult"
  oe_session_id :: u32
  oe_thread_id :: u32
  oe_register_class :: "event list \<Rightarrow> hresult + u32"
  oe_resume :: "event list \<Rightarrow> hresult"
  oe_get_message :: "event list \<Rightarrow> i32"
  oe_open_log :: "event list \<Rightarrow> string \<Rightarrow> io_error option"
  oe_install :: "event list \<Rightarrow> bool"
  oe_runtime :: "event list \<Rightarrow> io_error option"
  oe_reg_open :: "event list \<Rightarrow> i32"
  oe_reg_sz :: "event list \<Rightarrow> reg_reply"

text \<open>
  The crates: \<open>base64\<close>, \<open>sha2\<close>, \<open>serde_json\<close> with the derived deserialisers of the result
  structs, \<open>ciborium\<close>, and the directive parser of \<open>tracing_subscriber\<close> (its error text, if
  it rejects). \<open>escaped_debug\<close> is the Unicode table of \<open>char::escape_debug\<close> beyond ASCII.
\<close>

record crates =
  b64_encode :: "bytes \<Rightarrow> string"
  b64_decode :: "string \<Rightarrow> bytes option"
  b64url_decode :: "string \<Rightarrow> bytes option"
  sha256 :: "bytes \<Rightarrow> bytes"
  ser_request :: "RpcRequest \<Rightarrow> string + string"
  de_response :: "string \<Rightarrow> string + RpcResponse"
  cbor_user_name :: "bytes \<Rightarrow> string option"
  cbor_encode :: "cbor \<Rightarrow> bytes"
  from_create_passkey :: "json \<Rightarrow> string + CreatePasskeyResult"
  from_credentials :: "json \<Rightarrow> string + CredentialInfo list"
  from_sign_assertion :: "json \<Rightarrow> string + SignAssertionResult"
  from_delete_credential :: "json \<Rightarrow> string + DeleteCredentialResult"
  directive_error :: "string \<Rightarrow> string option"
  escaped_debug :: "nat \<Rightarrow> bool"

record env =
  pipes :: pipe_env
  dll :: dll_env
  os :: os_env
  lib :: crates

subsection \<open>The process state\<close>

text \<open>\<open>PipeClient\<close>: the transport is the connection's handle.\<close>

record PipeClient =
  transport :: nat
  next_id :: u32

record KeePassKeyWinAuthenticatorState =
  session_id :: u32
  pipe :: "PipeClient option"

datatype UvTier = V2Stable | V2Experimental | V1

text \<open>A resolved function pointer is the name of the symbol it was resolved from.\<close>

record WebauthnBindings =
  wb_add :: string
  wb_remove :: string
  wb_free_response :: string
  perform_uv :: string
  perform_uv_v2 :: "string option"
  perform_uv_tier :: UvTier
  free_uv_response :: string
  v2_unimplemented :: bool
  add_symbol_name :: string
  perform_uv_symbol_name :: string

record CredBindings =
  cb_add :: string
  cb_get_all :: "string option"
  cb_remove :: "string option"
  cb_free_array :: "string option"

text \<open>A COM object of \<open>com/server.rs\<close>; its \<open>state\<close> is an \<open>Arc\<close>, here an index of the heap.\<close>

record IPluginAuthenticatorImpl =
  ref_count :: u32
  obj_state :: nat

record ClassFactory =
  cf_ref_count :: u32
  cf_session_id :: u32

text \<open>
  The statics of the process, its heap of shared states, its COM objects, its class factory
  and the background tasks it has spawned (each by the state it was given).
\<close>

record proc =
  trace :: "event list"
  key_cache :: "(hresult + bytes) option"
  uv_cache :: "(string + WebauthnBindings) option"
  cred_cache :: "(string + CredBindings) option"
  shared_state :: "nat option"
  heap :: "nat \<Rightarrow> KeePassKeyWinAuthenticatorState option"
  next_ref :: nat
  objects :: "nat \<Rightarrow> IPluginAuthenticatorImpl option"
  next_obj :: nat
  factory :: "ClassFactory option"
  tasks :: "nat list"

type_synonym 'a m = "(proc, 'a) state"

definition init_proc :: proc where
  "init_proc = \<lparr>trace = [], key_cache = None, uv_cache = None, cred_cache = None,
     shared_state = None, heap = (\<lambda>_. None), next_ref = 0, objects = (\<lambda>_. None), next_obj = 0,
     factory = None, tasks = []\<rparr>"

subsection \<open>External calls\<close>

definition ask :: "(event list \<Rightarrow> 'r) \<Rightarrow> ('r \<Rightarrow> event) \<Rightarrow> 'r m" where
  "ask f e = State (\<lambda>s. (f (trace s), s\<lparr>trace := trace s @ [e (f (trace s))]\<rparr>))"

definition emit :: "event \<Rightarrow> unit m" where
  "emit e = modify (\<lambda>s. s\<lparr>trace := trace s @ [e]\<rparr>)"

lemma run_state_ask [simp]:
  "run_state (ask f e) s = (f (trace s), s\<lparr>trace := trace s @ [e (f (trace s))]\<rparr>)"
  by (simp add: ask_def)

lemma run_state_emit [simp]: "run_state (emit e) s = ((), s\<lparr>trace := trace s @ [e]\<rparr>)"
  by (simp add: emit_def)

text \<open>The events of a kind: a frame, a count, and the bound on what a program adds.\<close>

definition evs :: "(event \<Rightarrow> bool) \<Rightarrow> proc \<Rightarrow> event list" where
  "evs P s = filter P (trace s)"

definition emits_le :: "(event \<Rightarrow> bool) \<Rightarrow> nat \<Rightarrow> 'a m \<Rightarrow> bool" where
  "emits_le P n m = (\<forall>s. length (evs P (snd (run_state m s))) \<le> length (evs P s) + n)"

definition emits_only :: "(event \<Rightarrow> bool) \<Rightarrow> 'a m \<Rightarrow> bool" where
  "emits_only P m =
     (\<forall>s. \<exists>es. trace (snd (run_state m s)) = trace s @ es \<and> list_all P es)"

lemma keeps_ask [frame]:
  "(\<And>s r. f (s\<lparr>trace := trace s @ [e r]\<rparr>) = f s) \<Longrightarrow> keeps f (ask g e)"
  by (simp add: keeps_def)

lemma keeps_emit [frame]: "(\<And>s. f (s\<lparr>trace := trace s @ [e]\<rparr>) = f s) \<Longrightarrow> keeps f (emit e)"
  by (simp add: keeps_def)

lemma keeps_evs_ask: "(\<And>r. \<not> P (e r)) \<Longrightarrow> keeps (evs P) (ask g e)"
  by (simp add: keeps_def evs_def)

lemma keeps_evs_emit: "\<not> P e \<Longrightarrow> keeps (evs P) (emit e)"
  by (simp add: keeps_def evs_def)

lemma keeps_evs_modify: "(\<And>s. trace (g s) = trace s) \<Longrightarrow> keeps (evs P) (modify g)"
  by (simp add: keeps_def evs_def)

lemma ensures_ask [wp]:
  "(\<And>s. P s \<Longrightarrow> Q (f (trace s)) (s\<lparr>trace := trace s @ [e (f (trace s))]\<rparr>)) \<Longrightarrow>
   ensures P (ask f e) Q"
  by (simp add: ensures_def)

lemma ensures_emit [wp]:
  "(\<And>s. P s \<Longrightarrow> Q () (s\<lparr>trace := trace s @ [e]\<rparr>)) \<Longrightarrow> ensures P (emit e) Q"
  by (simp add: ensures_def)

lemma emits_le_keeps: "keeps (evs P) m \<Longrightarrow> emits_le P n m"
  by (simp add: emits_le_def keeps_def)

lemma emits_le_ask: "emits_le P 1 (ask f e)"
  by (simp add: emits_le_def evs_def)

lemma emits_le_emit: "emits_le P 1 (emit e)"
  by (simp add: emits_le_def evs_def)

lemma emits_le_mono: "emits_le P k m \<Longrightarrow> k \<le> n \<Longrightarrow> emits_le P n m"
  unfolding emits_le_def by (meson add_le_mono le_refl le_trans)

lemma emits_le_bind:
  assumes "emits_le P a m" and "\<And>x. emits_le P b (k x)" and "a + b \<le> n"
  shows "emits_le P n (State_Monad.bind m k)"
  unfolding emits_le_def
proof
  fix s
  obtain x t where m: "run_state m s = (x, t)" by fastforce
  have "length (evs P (snd (run_state (k x) t))) \<le> length (evs P t) + b"
    using assms(2) by (simp add: emits_le_def)
  moreover have "length (evs P t) \<le> length (evs P s) + a"
    using assms(1) m unfolding emits_le_def by (metis snd_conv)
  ultimately show "length (evs P (snd (run_state (State_Monad.bind m k) s))) \<le> length (evs P s) + n"
    using assms(3) by (simp add: m)
qed

lemma emits_le_case_sum:
  "(\<And>e. emits_le P n (g e)) \<Longrightarrow> (\<And>x. emits_le P n (k x)) \<Longrightarrow>
   emits_le P n (case r of Err e \<Rightarrow> g e | Ok x \<Rightarrow> k x)"
  by (simp split: sum.splits)

lemma emits_le_case_option:
  "emits_le P n g \<Longrightarrow> (\<And>x. emits_le P n (k x)) \<Longrightarrow>
   emits_le P n (case r of None \<Rightarrow> g | Some x \<Rightarrow> k x)"
  by (simp split: option.splits)

lemma emits_le_if:
  "emits_le P n g \<Longrightarrow> emits_le P n h \<Longrightarrow> emits_le P n (if b then g else h)"
  by simp

named_theorems only \<open>rules for the events a program may emit\<close>

lemma emits_only_return [only]: "emits_only P (ret x)"
  by (simp add: emits_only_def)

lemma emits_only_gets [only]: "emits_only P (gets f)"
  by (simp add: emits_only_def)

lemma emits_only_modify: "(\<And>s. trace (g s) = trace s) \<Longrightarrow> emits_only P (modify g)"
  by (simp add: emits_only_def)

lemma emits_only_ask [only]: "(\<And>r. P (e r)) \<Longrightarrow> emits_only P (ask f e)"
  by (simp add: emits_only_def)

lemma emits_only_emit [only]: "P e \<Longrightarrow> emits_only P (emit e)"
  by (simp add: emits_only_def)

lemma emits_only_bind [only]:
  assumes "emits_only P m" and "\<And>x. emits_only P (k x)"
  shows "emits_only P (State_Monad.bind m k)"
  unfolding emits_only_def
proof
  fix s
  obtain x t where m: "run_state m s = (x, t)" by fastforce
  obtain es where es: "trace t = trace s @ es" "list_all P es"
    using assms(1) m unfolding emits_only_def by (metis snd_conv)
  obtain es' where es': "trace (snd (run_state (k x) t)) = trace t @ es'" "list_all P es'"
    using assms(2) unfolding emits_only_def by blast
  show "\<exists>es. trace (snd (run_state (State_Monad.bind m k) s)) = trace s @ es \<and> list_all P es"
    by (rule exI [of _ "es @ es'"]) (simp add: m es es')
qed

lemma emits_only_if [only]:
  "emits_only P g \<Longrightarrow> emits_only P h \<Longrightarrow> emits_only P (if b then g else h)"
  by simp

lemma emits_only_case_sum [only]:
  "(\<And>e. emits_only P (g e)) \<Longrightarrow> (\<And>x. emits_only P (k x)) \<Longrightarrow>
   emits_only P (case r of Err e \<Rightarrow> g e | Ok x \<Rightarrow> k x)"
  by (simp split: sum.splits)

lemma emits_only_case_option [only]:
  "emits_only P g \<Longrightarrow> (\<And>x. emits_only P (k x)) \<Longrightarrow>
   emits_only P (case r of None \<Rightarrow> g | Some x \<Rightarrow> k x)"
  by (simp split: option.splits)

lemma emits_only_case_prod [only]:
  "(\<And>a b. emits_only P (k a b)) \<Longrightarrow> emits_only P (case p of (a, b) \<Rightarrow> k a b)"
  by (simp split: prod.splits)

lemma emits_only_mono: "emits_only P m \<Longrightarrow> (\<And>e. P e \<Longrightarrow> Q e) \<Longrightarrow> emits_only Q m"
  unfolding emits_only_def by (metis (no_types, lifting) list.pred_mono_strong)

lemma emits_onlyD:
  "emits_only P m \<Longrightarrow> run_state m s = (r, t) \<Longrightarrow> \<exists>es. trace t = trace s @ es \<and> list_all P es"
  unfolding emits_only_def by (metis snd_conv)

lemma emits_only_evs:
  assumes "emits_only P m" and "\<And>e. P e \<Longrightarrow> \<not> Q e"
  shows "keeps (evs Q) m"
  unfolding keeps_def evs_def
proof
  fix s
  obtain es where "trace (snd (run_state m s)) = trace s @ es" "list_all P es"
    using assms(1) unfolding emits_only_def by blast
  then show "filter Q (trace (snd (run_state m s))) = filter Q (trace s)"
    using assms(2) by (auto simp: list_all_iff)
qed

lemma trace_update_eq [simp]:
  "s\<lparr>trace := xs\<rparr> = s\<lparr>trace := ys\<rparr> \<longleftrightarrow> xs = ys"
  by (metis proc.select_convs(1) proc.surjective proc.update_convs(1))

subsection \<open>Panics\<close>

text \<open>
  A panic inside a COM method or inside a future driven by one cannot unwind through the
  \<open>extern "system"\<close> frame above it: the process aborts. A function that can panic returns an
  option, \<open>None\<close> for the abort, and \<open>or_abort\<close> runs nothing after one.
\<close>

definition or_abort :: "'a option m \<Rightarrow> ('a \<Rightarrow> 'b option m) \<Rightarrow> 'b option m" where
  "or_abort m k = do { x \<leftarrow> m; (case x of None \<Rightarrow> ret None | Some y \<Rightarrow> k y) }"

definition lift_m :: "'a m \<Rightarrow> 'a option m" where
  "lift_m m = do { x \<leftarrow> m; ret (Some x) }"

lemma run_or_abort [simp]:
  "run_state (or_abort m k) s =
     (case run_state m s of (None, t) \<Rightarrow> (None, t) | (Some x, t) \<Rightarrow> run_state (k x) t)"
  by (simp add: or_abort_def split: prod.splits option.splits)

lemma run_lift_m [simp]:
  "run_state (lift_m m) s = (case run_state m s of (x, t) \<Rightarrow> (Some x, t))"
  by (simp add: lift_m_def split: prod.splits)

lemma keeps_or_abort [frame]:
  "keeps f m \<Longrightarrow> (\<And>x. keeps f (k x)) \<Longrightarrow> keeps f (or_abort m k)"
  unfolding or_abort_def by (intro frame)

lemma keeps_lift_m [frame]: "keeps f m \<Longrightarrow> keeps f (lift_m m)"
  unfolding lift_m_def by (intro frame)

lemma emits_only_or_abort [only]:
  "emits_only P m \<Longrightarrow> (\<And>x. emits_only P (k x)) \<Longrightarrow> emits_only P (or_abort m k)"
  unfolding or_abort_def by (intro only)

lemma emits_only_lift_m [only]: "emits_only P m \<Longrightarrow> emits_only P (lift_m m)"
  unfolding lift_m_def by (intro only)

lemma ensures_or_abort:
  "ensures P m (\<lambda>x s. case x of None \<Rightarrow> Q None s | Some y \<Rightarrow> R y s) \<Longrightarrow>
   (\<And>y. ensures (R y) (k y) Q) \<Longrightarrow> ensures P (or_abort m k) Q"
  unfolding or_abort_def
  by (rule ensures_bind) (auto intro!: wp split: option.splits)

subsection \<open>A concrete environment\<close>

text \<open>
  An environment in which nothing works: no pipe, no DLL, no registry value. The examples
  that instantiate a theorem change the parts they need.
\<close>

definition sample_env :: env where
  "sample_env = \<lparr>
     pipes = \<lparr>pe_open = (\<lambda>_ _. Err (IoError NotFoundKind ''not found'')),
       pe_write = (\<lambda>_ _ _. None), pe_flush = (\<lambda>_ _. None), pe_read = (\<lambda>_ _. Ok [])\<rparr>,
     dll = \<lparr>de_load = (\<lambda>_. Some ''not found''), de_exports = (\<lambda>_. False),
       de_key = (\<lambda>_ _ _. (E_FAIL, None, None)), de_uv1 = (\<lambda>_ _ _. (E_FAIL, None, None)),
       de_uv2 = (\<lambda>_ _ _ _. (E_FAIL, None, None)), de_add_credentials = (\<lambda>_ _. E_FAIL),
       de_get_all = (\<lambda>_. (E_FAIL, None, None)), de_remove_credentials = (\<lambda>_ _. E_FAIL),
       de_add_authenticator = (\<lambda>_ _. (E_FAIL, None)), de_remove_authenticator = (\<lambda>_ _. E_FAIL)\<rparr>,
     os = \<lparr>oe_reg = (\<lambda>_. \<lparr>rr_status = 2, rr_type = 0, rr_data = [], rr_cb = 0\<rparr>),
       oe_var = (\<lambda>_. None), oe_alloc = (\<lambda>_ _. 0), oe_co_init = (\<lambda>_. 0), oe_session_id = 1,
       oe_thread_id = 1, oe_register_class = (\<lambda>_. Ok 1), oe_resume = (\<lambda>_. 0),
       oe_get_message = (\<lambda>_. 0), oe_open_log = (\<lambda>_ _. None), oe_install = (\<lambda>_. True),
       oe_runtime = (\<lambda>_. None), oe_reg_open = (\<lambda>_. 2),
       oe_reg_sz = (\<lambda>_. \<lparr>rr_status = 2, rr_type = 0, rr_data = [], rr_cb = 0\<rparr>)\<rparr>,
     lib = \<lparr>b64_encode = (\<lambda>_. []), b64_decode = (\<lambda>_. None), b64url_decode = (\<lambda>_. None),
       sha256 = (\<lambda>_. []), ser_request = (\<lambda>_. Ok []), de_response = (\<lambda>_. Err []),
       cbor_user_name = (\<lambda>_. None), cbor_encode = (\<lambda>_. []),
       from_create_passkey = (\<lambda>_. Err []), from_credentials = (\<lambda>_. Err []),
       from_sign_assertion = (\<lambda>_. Err []), from_delete_credential = (\<lambda>_. Err []),
       directive_error = (\<lambda>_. None), escaped_debug = (\<lambda>_. False)\<rparr>\<rparr>"

end
