(* ===== verification/Ipc_Client.thy ===== *)
theory Ipc_Client
  imports World
begin

text \<open>
  \<open>ipc/mod.rs\<close>: the JSON-RPC client over the plugin's named pipe. \<open>connect\<close> opens the pipe
  with a fixed back-off, \<open>call\<close> sends one request line and reads one response line, and
  \<open>handshake\<close> is the first call of a connection. Futures are sequential here: an \<open>await\<close> is
  the external call it waits for.
\<close>

subsection \<open>Errors\<close>

datatype ClientError =
    Timeout
  | Io io_error
  | Json string
  | VaultLocked
  | NoCredentials
  | ClientUnauthorized
  | UnsupportedAlgorithm
  | CredentialExcluded
  | InvalidOption
  | InvalidRequest string
  | Internal string
  | RpcError i32 string

fun client_error_display :: "ClientError \<Rightarrow> string" where
  "client_error_display Timeout = ''connection timed out after 5s''"
| "client_error_display (Io e) = ''I/O error: '' @ io_error_text e"
| "client_error_display (Json m) = ''JSON error: '' @ m"
| "client_error_display VaultLocked = ''vault is locked or closed''"
| "client_error_display NoCredentials = ''credential not found''"
| "client_error_display ClientUnauthorized = ''handshake required or invalid''"
| "client_error_display UnsupportedAlgorithm = ''unsupported algorithm''"
| "client_error_display CredentialExcluded = ''credential already registered''"
| "client_error_display InvalidOption = ''unsupported option (e.g. options.up=false)''"
| "client_error_display (InvalidRequest m) = ''invalid request: '' @ m"
| "client_error_display (Internal m) = ''internal server error: '' @ m"
| "client_error_display (RpcError c m) = ''unknown RPC error '' @ show_int (sint c) @ '': '' @ m"

definition from_rpc :: "i32 \<Rightarrow> string \<Rightarrow> ClientError" where
  "from_rpc code message =
     (if code = -32010 then VaultLocked
      else if code = -32020 then NoCredentials
      else if code = -32030 then UnsupportedAlgorithm
      else if code = -32031 then CredentialExcluded
      else if code = -32041 then InvalidOption
      else if code = -32000 \<or> code = -32001 then ClientUnauthorized
      else if code = -32600 \<or> code = -32602 then InvalidRequest message
      else if code = -32603 then Internal message
      else RpcError code message)"

subsection \<open>Connecting\<close>

definition pipe_name :: "u32 \<Rightarrow> string" where
  "pipe_name sid =
     [backslash, backslash, CHR ''.'', backslash] @ ''pipe'' @ [backslash] @
     ''KeePassKeyWin.'' @ show_nat (unat sid)"

definition try_connect :: "env \<Rightarrow> u32 \<Rightarrow> (ClientError + PipeClient) m" where
  "try_connect env sid = do {
     r \<leftarrow> ask (\<lambda>h. pe_open (pipes env) h (pipe_name sid)) (\<lambda>r. Pipe (PipeOpen (pipe_name sid) r));
     ret (case r of Err e \<Rightarrow> Err (Io e) | Ok c \<Rightarrow> Ok \<lparr>transport = c, next_id = 1\<rparr>)
   }"

definition delays_ms :: "nat list" where
  "delays_ms = [50, 100, 200, 400, 800, 1600, 1850]"

fun connect_loop ::
  "env \<Rightarrow> u32 \<Rightarrow> nat list \<Rightarrow> ClientError option \<Rightarrow> (ClientError + PipeClient) m" where
  "connect_loop env sid [] last_err = do {
     r \<leftarrow> try_connect env sid;
     ret (case r of
            Ok client \<Rightarrow> Ok client
          | Err _ \<Rightarrow> Err (case last_err of Some e \<Rightarrow> e | None \<Rightarrow> Timeout))
   }"
| "connect_loop env sid (delay # ds) last_err = do {
     r \<leftarrow> try_connect env sid;
     (case r of
        Ok client \<Rightarrow> ret (Ok client)
      | Err e \<Rightarrow> do { emit (Sleep delay); connect_loop env sid ds (Some e) })
   }"

definition connect :: "env \<Rightarrow> u32 \<Rightarrow> (ClientError + PipeClient) m" where
  "connect env sid = connect_loop env sid delays_ms None"

subsection \<open>Lines\<close>

definition pipe_write :: "env \<Rightarrow> nat \<Rightarrow> string \<Rightarrow> io_error option m" where
  "pipe_write env c data = ask (\<lambda>h. pe_write (pipes env) h c data) (\<lambda>r. Pipe (PipeWrite c data r))"

definition pipe_flush :: "env \<Rightarrow> nat \<Rightarrow> io_error option m" where
  "pipe_flush env c = ask (\<lambda>h. pe_flush (pipes env) h c) (\<lambda>r. Pipe (PipeFlush c r))"

definition pipe_read :: "env \<Rightarrow> nat \<Rightarrow> (io_error + string) m" where
  "pipe_read env c = ask (\<lambda>h. pe_read (pipes env) h c) (\<lambda>r. Pipe (PipeRead c r))"

definition send_line :: "env \<Rightarrow> nat \<Rightarrow> string \<Rightarrow> io_error option m" where
  "send_line env c line = do {
     r \<leftarrow> pipe_write env c line;
     (case r of
        Some e \<Rightarrow> ret (Some e)
      | None \<Rightarrow> do {
          r \<leftarrow> pipe_write env c [newline];
          (case r of Some e \<Rightarrow> ret (Some e) | None \<Rightarrow> pipe_flush env c)
        })
   }"

definition recv_line :: "env \<Rightarrow> nat \<Rightarrow> (io_error + string) m" where
  "recv_line env c = do {
     r \<leftarrow> pipe_read env c;
     ret (case r of
            Err e \<Rightarrow> Err e
          | Ok buf \<Rightarrow> Ok (if buf \<noteq> [] \<and> last buf = newline then butlast buf else buf))
   }"

subsection \<open>Calls\<close>

text \<open>
  \<open>R\<close> of \<open>call<R, P>\<close> enters as \<open>from_value\<close>, the deserialiser of the result type. \<open>next_id\<close>
  wraps at \<open>u32::MAX\<close>, as the release profile compiles it.
\<close>

definition rpc_result ::
  "(json \<Rightarrow> string + 'r) \<Rightarrow> RpcResponse \<Rightarrow> ClientError + 'r" where
  "rpc_result from_value response =
     (case resp_error response of
        Some err \<Rightarrow> Err (from_rpc (err_code err) (err_message err))
      | None \<Rightarrow>
          (case from_value (case resp_result response of Some v \<Rightarrow> v | None \<Rightarrow> JNull) of
             Err e \<Rightarrow> Err (Json e)
           | Ok x \<Rightarrow> Ok x))"

definition call ::
  "env \<Rightarrow> (json \<Rightarrow> string + 'r) \<Rightarrow> PipeClient \<Rightarrow> string \<Rightarrow> json \<Rightarrow>
   ((ClientError + 'r) \<times> PipeClient) m" where
  "call env from_value client rpc params =
     (let id = next_id client;
          client' = client\<lparr>next_id := id + 1\<rparr>;
          request = \<lparr>jsonrpc = ''2.0'', req_id = id, req_method = rpc, req_params = params\<rparr>
      in (case ser_request (lib env) request of
            Err e \<Rightarrow> ret (Err (Json e), client')
          | Ok line \<Rightarrow> do {
              sent \<leftarrow> send_line env (transport client) line;
              (case sent of
                 Some e \<Rightarrow> ret (Err (Io e), client')
               | None \<Rightarrow> do {
                   resp_line \<leftarrow> recv_line env (transport client);
                   ret (case resp_line of
                          Err e \<Rightarrow> (Err (Io e), client')
                        | Ok l \<Rightarrow>
                            (case de_response (lib env) l of
                               Err e \<Rightarrow> (Err (Json e), client')
                             | Ok response \<Rightarrow> (rpc_result from_value response, client')))
                 })
            }))"

text \<open>\<open>serde_json::Value\<close> as result type: every value is one.\<close>

abbreviation call_value ::
  "env \<Rightarrow> PipeClient \<Rightarrow> string \<Rightarrow> json \<Rightarrow> ((ClientError + json) \<times> PipeClient) m" where
  "call_value env \<equiv> call env (\<lambda>v. Ok v)"

definition hello_params :: "string \<Rightarrow> string \<Rightarrow> string \<Rightarrow> json" where
  "hello_params pkg nonce key_b64 = JObject
     [(''clientPkgFamilyName'', JString pkg), (''handshakeNonce'', JString nonce),
      (''opSignPublicKeyB64'', JString key_b64)]"

definition no_key_message :: string where
  "no_key_message =
     ''op-sign public key unavailable '' @ em_dash @ '' cannot complete handshake without it''"

definition handshake ::
  "env \<Rightarrow> PipeClient \<Rightarrow> string \<Rightarrow> string \<Rightarrow> bytes option \<Rightarrow> ((ClientError + unit) \<times> PipeClient) m"
where
  "handshake env client pkg nonce pub_key_bytes =
     (case pub_key_bytes of
        None \<Rightarrow> ret (Err (InvalidRequest no_key_message), client)
      | Some key_bytes \<Rightarrow> do {
          (r, client') \<leftarrow> call_value env client ''keepasskeywin.hello''
             (hello_params pkg nonce (b64_encode (lib env) key_bytes));
          ret (case r of Err e \<Rightarrow> (Err e, client') | Ok _ \<Rightarrow> (Ok (), client'))
        })"

subsection \<open>Connecting: the attempts, the waits, the error\<close>

text \<open>The history of failed attempts: one open per error, each followed by its wait.\<close>

definition failed_attempts :: "u32 \<Rightarrow> nat list \<Rightarrow> io_error list \<Rightarrow> event list" where
  "failed_attempts sid ds es =
     concat (map (\<lambda>(d, e). [Pipe (PipeOpen (pipe_name sid) (Err e)), Sleep d]) (zip ds es))"

fun slept :: "event list \<Rightarrow> nat" where
  "slept [] = 0"
| "slept (Sleep n # es) = n + slept es"
| "slept (_ # es) = slept es"

lemma slept_append [simp]: "slept (xs @ ys) = slept xs + slept ys"
  by (induction xs rule: slept.induct) simp_all

lemma failed_attempts_Cons:
  "failed_attempts sid (d # ds) (e # es) =
     Pipe (PipeOpen (pipe_name sid) (Err e)) # Sleep d # failed_attempts sid ds es"
  by (simp add: failed_attempts_def)

lemma slept_failed_attempts:
  "length es = length ds \<Longrightarrow> slept (failed_attempts sid ds es) = sum_list ds"
  by (induction es ds rule: list_induct2) (simp_all add: failed_attempts_Cons, simp add: failed_attempts_def)

lemma connect_loop_run:
  "case run_state (connect_loop env sid ds last_err) s of
     (r, t) \<Rightarrow>
       \<exists>es io. length es \<le> length ds \<and>
         (case r of
            Ok c \<Rightarrow> next_id c = 1 \<and>
              t = s\<lparr>trace := trace s @ failed_attempts sid ds es @
                    [Pipe (PipeOpen (pipe_name sid) (Ok (transport c)))]\<rparr>
          | Err e \<Rightarrow> length es = length ds \<and>
              t = s\<lparr>trace := trace s @ failed_attempts sid ds es @
                    [Pipe (PipeOpen (pipe_name sid) (Err io))]\<rparr> \<and>
              e = (if ds = [] then (case last_err of Some e \<Rightarrow> e | None \<Rightarrow> Timeout)
                   else Io (last es)))"
proof (induction ds arbitrary: last_err s)
  case Nil
  then show ?case
    by (auto simp: try_connect_def failed_attempts_def split: sum.splits prod.splits)
next
  case (Cons d ds)
  show ?case
  proof (cases "pe_open (pipes env) (trace s) (pipe_name sid)")
    case (Inr c)
    then show ?thesis
      by (auto simp: try_connect_def failed_attempts_def intro!: exI [of _ "[]"])
  next
    case (Inl io)
    define s' where "s' = s\<lparr>trace := trace s @ [Pipe (PipeOpen (pipe_name sid) (Err io)), Sleep d]\<rparr>"
    obtain r t where rt: "run_state (connect_loop env sid ds (Some (Io io))) s' = (r, t)"
      by fastforce
    have run: "run_state (connect_loop env sid (d # ds) last_err) s = (r, t)"
      using rt by (simp add: try_connect_def Inl s'_def)
    note IH = Cons.IH [where last_err = "Some (Io io)" and s = s', unfolded rt prod.case option.case]
    then obtain es io' where es: "length es \<le> length ds"
        "case r of
            Err e \<Rightarrow> length es = length ds \<and>
              t = s'\<lparr>trace := trace s' @ failed_attempts sid ds es @
                    [Pipe (PipeOpen (pipe_name sid) (Err io'))]\<rparr> \<and>
              e = (if ds = [] then Io io else Io (last es))
          | Ok c \<Rightarrow> next_id c = 1 \<and>
              t = s'\<lparr>trace := trace s' @ failed_attempts sid ds es @
                    [Pipe (PipeOpen (pipe_name sid) (Ok (transport c)))]\<rparr>"
      by blast
    show ?thesis
      unfolding run
      using es by (intro case_prodI exI [of _ "io # es"] exI [of _ io'])
        (auto simp: s'_def failed_attempts_Cons split: sum.splits)
  qed
qed

text \<open>
  C23. \<open>PipeClient::connect\<close> makes at most eight attempts. On success the client's request
  counter starts at 1 and its handle is the one just opened, after only failed attempts. On
  failure all eight attempts failed, exactly 5000 ms were slept between them, and the error
  is the I/O error of the seventh attempt: the error of the final attempt is dropped, and
  \<open>ClientError::Timeout\<close> is never returned.
\<close>

theorem connect_backoff:
  "case run_state (connect env sid) s of
     (r, t) \<Rightarrow>
       \<exists>es io. length es \<le> 7 \<and>
         (case r of
            Ok c \<Rightarrow> next_id c = 1 \<and>
              t = s\<lparr>trace := trace s @ failed_attempts sid delays_ms es @
                    [Pipe (PipeOpen (pipe_name sid) (Ok (transport c)))]\<rparr>
          | Err e \<Rightarrow> length es = 7 \<and> slept (failed_attempts sid delays_ms es) = 5000 \<and>
              t = s\<lparr>trace := trace s @ failed_attempts sid delays_ms es @
                    [Pipe (PipeOpen (pipe_name sid) (Err io))]\<rparr> \<and>
              e = Io (es ! 6))"
proof -
  have len: "length delays_ms = 7" and ne: "delays_ms \<noteq> []" and total: "sum_list delays_ms = 5000"
    by (simp_all add: delays_ms_def)
  have last: "length es = 7 \<Longrightarrow> last es = es ! 6" for es :: "io_error list"
    by (subst last_conv_nth) auto
  obtain r t where rt: "run_state (connect_loop env sid delays_ms None) s = (r, t)"
    by (cases "run_state (connect_loop env sid delays_ms None) s")
  note run = connect_loop_run [where env = env and sid = sid and ds = delays_ms and last_err = None
      and s = s, unfolded rt prod.case len]
  from run obtain es io where "length es \<le> 7" and
      "case r of
         Err e \<Rightarrow> length es = 7 \<and>
           t = s\<lparr>trace := trace s @ failed_attempts sid delays_ms es @
                 [Pipe (PipeOpen (pipe_name sid) (Err io))]\<rparr> \<and>
           e = Io (last es)
       | Ok c \<Rightarrow> next_id c = 1 \<and>
           t = s\<lparr>trace := trace s @ failed_attempts sid delays_ms es @
                 [Pipe (PipeOpen (pipe_name sid) (Ok (transport c)))]\<rparr>"
    using ne by (auto simp only: if_False)
  then show ?thesis
    unfolding connect_def rt prod.case
    by (intro exI [of _ es] exI [of _ io])
      (cases r; simp add: slept_failed_attempts len total last)
qed

subsection \<open>Calling: the exchange on the wire\<close>

text \<open>
  The ways an exchange of one request can go: the pipe events it leaves and what was
  received. A later step happens only when every earlier one succeeded.
\<close>

datatype outcome = Failed io_error | Received string

inductive exchange :: "nat \<Rightarrow> string \<Rightarrow> pipe_event list \<Rightarrow> outcome \<Rightarrow> bool" for c line where
  write_failed: "exchange c line [PipeWrite c line (Some e)] (Failed e)"
| newline_failed:
    "exchange c line [PipeWrite c line None, PipeWrite c [newline] (Some e)] (Failed e)"
| flush_failed:
    "exchange c line [PipeWrite c line None, PipeWrite c [newline] None, PipeFlush c (Some e)]
       (Failed e)"
| read_failed:
    "exchange c line [PipeWrite c line None, PipeWrite c [newline] None, PipeFlush c None,
       PipeRead c (Err e)] (Failed e)"
| received:
    "exchange c line [PipeWrite c line None, PipeWrite c [newline] None, PipeFlush c None,
       PipeRead c (Ok buf)]
       (Received (if buf \<noteq> [] \<and> last buf = newline then butlast buf else buf))"

inductive_cases exchange_FailedE: "exchange c line es (Failed e)"
inductive_cases exchange_ReceivedE: "exchange c line es (Received l)"

lemma exchange_det: "exchange c line es out \<Longrightarrow> exchange c line es out' \<Longrightarrow> out' = out"
  by (cases rule: exchange.cases, assumption) (auto elim: exchange.cases)

text \<open>The request a call puts on the wire, and what a call returns from what it received.\<close>

definition request_of :: "PipeClient \<Rightarrow> string \<Rightarrow> json \<Rightarrow> RpcRequest" where
  "request_of client rpc params =
     \<lparr>jsonrpc = ''2.0'', req_id = next_id client, req_method = rpc, req_params = params\<rparr>"

fun result_of ::
  "env \<Rightarrow> (json \<Rightarrow> string + 'r) \<Rightarrow> outcome \<Rightarrow> ClientError + 'r" where
  "result_of env from_value (Failed e) = Err (Io e)"
| "result_of env from_value (Received l) =
     (case de_response (lib env) l of
        Err e \<Rightarrow> Err (Json e)
      | Ok response \<Rightarrow> rpc_result from_value response)"

lemma send_line_run:
  "\<exists>es sent. run_state (send_line env c line) s = (sent, s\<lparr>trace := trace s @ map Pipe es\<rparr>) \<and>
     (case sent of
        Some e \<Rightarrow> exchange c line es (Failed e)
      | None \<Rightarrow> es = [PipeWrite c line None, PipeWrite c [newline] None, PipeFlush c None])"
proof (cases "pe_write (pipes env) (trace s) c line")
  case (Some e)
  then show ?thesis
    by (intro exI [of _ "[PipeWrite c line (Some e)]"] exI [of _ "Some e"])
      (simp add: send_line_def pipe_write_def exchange.intros)
next
  case None
  note first = this
  let ?h = "trace s @ [Pipe (PipeWrite c line None)]"
  show ?thesis
  proof (cases "pe_write (pipes env) ?h c [newline]")
    case (Some e)
    then show ?thesis
      by (intro exI [of _ "[PipeWrite c line None, PipeWrite c [newline] (Some e)]"]
          exI [of _ "Some e"])
        (simp add: send_line_def pipe_write_def first exchange.intros)
  next
    case None
    let ?f = "pe_flush (pipes env) (?h @ [Pipe (PipeWrite c [newline] None)]) c"
    from None show ?thesis
      by (intro exI [of _ "[PipeWrite c line None, PipeWrite c [newline] None, PipeFlush c ?f]"]
          exI [of _ ?f])
        (simp add: send_line_def pipe_write_def pipe_flush_def first exchange.intros
          split: option.split)
  qed
qed

lemma exchange_received:
  "l = (if buf \<noteq> [] \<and> last buf = newline then butlast buf else buf) \<Longrightarrow>
   exchange c line [PipeWrite c line None, PipeWrite c [newline] None, PipeFlush c None,
     PipeRead c (Ok buf)] (Received l)"
  by (simp only: exchange.received)

lemma call_run:
  obtains (unserialised) e where "ser_request (lib env) (request_of client rpc params) = Err e"
      and "run_state (call env from_value client rpc params) s =
             ((Err (Json e), client\<lparr>next_id := next_id client + 1\<rparr>), s)"
  | (sent) line es out where "ser_request (lib env) (request_of client rpc params) = Ok line"
      and "exchange (transport client) line es out"
      and "run_state (call env from_value client rpc params) s =
             ((result_of env from_value out, client\<lparr>next_id := next_id client + 1\<rparr>),
              s\<lparr>trace := trace s @ map Pipe es\<rparr>)"
proof (cases "ser_request (lib env) (request_of client rpc params)")
  case (Inl e)
  then show thesis by (intro unserialised) (auto simp: call_def request_of_def Let_def)
next
  case (Inr line)
  obtain es r where r:
      "run_state (send_line env (transport client) line) s = (r, s\<lparr>trace := trace s @ map Pipe es\<rparr>)"
      "case r of
        Some e \<Rightarrow> exchange (transport client) line es (Failed e)
      | None \<Rightarrow> es = [PipeWrite (transport client) line None,
                     PipeWrite (transport client) [newline] None, PipeFlush (transport client) None]"
    using send_line_run [of env "transport client" line s] by blast
  show thesis
  proof (cases r)
    case (Some e)
    with r Inr show thesis
      by (intro sent [of line es "Failed e"]) (simp_all add: call_def request_of_def Let_def)
  next
    case None
    define reply where "reply = pe_read (pipes env) (trace s @ map Pipe es) (transport client)"
    define out where "out = (case reply of Err e \<Rightarrow> Failed e | Ok buf \<Rightarrow>
        Received (if buf \<noteq> [] \<and> last buf = newline then butlast buf else buf))"
    show thesis
    proof (rule sent [OF Inr])
      show "exchange (transport client) line (es @ [PipeRead (transport client) reply]) out"
        using r None
        by (cases reply) (simp_all add: out_def exchange.read_failed exchange_received)
      show "run_state (call env from_value client rpc params) s =
          ((result_of env from_value out, client\<lparr>next_id := next_id client + 1\<rparr>),
           s\<lparr>trace := trace s @ map Pipe (es @ [PipeRead (transport client) reply])\<rparr>)"
        using r None Inr
        by (simp add: call_def request_of_def Let_def recv_line_def pipe_read_def reply_def out_def
            split: sum.split)
    qed
  qed
qed


lemma call_client:
  "run_state (call env from_value client rpc params) s = ((r, client'), t) \<Longrightarrow>
   client' = client\<lparr>next_id := next_id client + 1\<rparr>"
  by (rule call_run [of env client rpc params from_value s]) auto

text \<open>What a pipe operation can touch: the pipe, by pipe events on its own handle.\<close>

fun on_handle :: "nat \<Rightarrow> pipe_event \<Rightarrow> bool" where
  "on_handle c (PipeWrite c' _ _) = (c' = c)"
| "on_handle c (PipeFlush c' _) = (c' = c)"
| "on_handle c (PipeRead c' _) = (c' = c)"
| "on_handle c (PipeDrop c') = (c' = c)"
| "on_handle c (PipeOpen _ _) = False"

fun on_pipe :: "nat \<Rightarrow> event \<Rightarrow> bool" where
  "on_pipe c (Pipe e) = on_handle c e"
| "on_pipe _ _ = False"

fun is_io :: "event \<Rightarrow> bool" where
  "is_io (Pipe _) = True"
| "is_io (Sleep _) = True"
| "is_io _ = False"

lemma on_pipe_is_io: "on_pipe c e \<Longrightarrow> is_io e"
  by (cases e) auto

lemma exchange_on_handle: "exchange c line es out \<Longrightarrow> list_all (on_handle c) es"
  by (induction rule: exchange.induct) simp_all

lemma call_only: "emits_only (on_pipe (transport client)) (call env fv client rpc params)"
  unfolding emits_only_def
proof
  fix s
  show "\<exists>es. trace (snd (run_state (call env fv client rpc params) s)) = trace s @ es \<and>
      list_all (on_pipe (transport client)) es"
    by (rule call_run [of env client rpc params fv s])
      (auto dest: exchange_on_handle simp: list.pred_map comp_def intro!: exI [of _ "map Pipe _"])
qed

lemma call_frame:
  assumes "\<And>s tr. f (s\<lparr>trace := tr\<rparr>) = f s"
  shows "keeps f (call env fv client rpc params)"
  unfolding keeps_def
proof
  fix s
  show "f (snd (run_state (call env fv client rpc params) s)) = f s"
    by (rule call_run [of env client rpc params fv s]) (auto simp: assms)
qed

lemma connect_loop_frame:
  assumes "\<And>s tr. f (s\<lparr>trace := tr\<rparr>) = f s"
  shows "keeps f (connect_loop env sid ds e)"
  by (induction ds arbitrary: e)
    (auto simp: try_connect_def assms intro!: frame split: sum.splits)

lemmas connect_frame = connect_loop_frame [where ds = delays_ms and e = None, folded connect_def]

subsection \<open>The handshake\<close>

lemma result_of_value_ok:
  "result_of env (\<lambda>v. Ok v) out = Ok x \<longleftrightarrow>
     (\<exists>l resp. out = Received l \<and> de_response (lib env) l = Ok resp \<and> resp_error resp = None \<and>
        x = (case resp_result resp of Some v \<Rightarrow> v | None \<Rightarrow> JNull))"
  by (cases out) (auto simp: rpc_result_def split: sum.splits option.splits)


lemma handshake_frame:
  "(\<And>s tr. f (s\<lparr>trace := tr\<rparr>) = f s) \<Longrightarrow> keeps f (handshake env client pkg nonce key)"
  unfolding handshake_def by (intro frame call_frame)

end
