(* ===== verification/Reg_Nonce.thy ===== *)
theory Reg_Nonce
  imports World
begin

text \<open>
  \<open>com/reg_read_error.rs\<close> and \<open>read_handshake_nonce\<close> of \<open>com/exe_server.rs\<close>: reading the
  plugin's handshake nonce from the registry into a buffer of 256 code units, and the
  classification of every way this can fail.
\<close>

datatype RegReadError =
    NotFound
  | WrongType (actual_type: u32)
  | AccessDenied
  | BufferTooSmall
  | MalformedString
  | OtherStatus i32

definition lstatus_to_reg_read_error :: "i32 \<Rightarrow> RegReadError" where
  "lstatus_to_reg_read_error status =
     (if status = 2 \<or> status = 3 then NotFound
      else if status = 5 then AccessDenied
      else if status = 234 then BufferTooSmall
      else OtherStatus status)"

abbreviation "REG_SZ \<equiv> (1 :: u32)"

text \<open>
  The buffer is zero-initialised and \<open>RegGetValueW\<close> writes its data at the start. A status is
  an error unless it is 0. \<open>&buf[..wchars]\<close> panics when the reported size exceeds the buffer.
\<close>

definition nonce_buf_len :: nat where
  "nonce_buf_len = 256"

definition reg_get_value :: "env \<Rightarrow> reg_reply m" where
  "reg_get_value env = ask (oe_reg (os env)) RegGet"

definition read_handshake_nonce :: "env \<Rightarrow> (RegReadError + string) option m" where
  "read_handshake_nonce env = do {
     r \<leftarrow> reg_get_value env;
     (if rr_status r \<noteq> 0 then ret (Some (Err (lstatus_to_reg_read_error (rr_status r))))
      else if rr_type r \<noteq> REG_SZ then ret (Some (Err (WrongType (rr_type r))))
      else
        let buf = take nonce_buf_len (rr_data r @ replicate nonce_buf_len 0);
            wchars = unat (rr_cb r) div 2
        in (if length buf < wchars then ret None
            else
              let chunk = takeWhile (\<lambda>c. c \<noteq> 0) (take wchars buf)
              in ret (Some (case from_utf16 chunk of Some n \<Rightarrow> Ok n | None \<Rightarrow> Err MalformedString))))
   }"

text \<open>The reason \<open>connect_and_handshake\<close> logs and returns for each failure.\<close>

definition nonce_path :: string where
  "nonce_path = ''HKCU'' @ [backslash] @ ''Software'' @ [backslash] @ ''KeePassKeyWin'' @
     [backslash] @ ''HandshakeNonce''"

fun reg_read_reason :: "RegReadError \<Rightarrow> string" where
  "reg_read_reason NotFound = nonce_path @ '' not found''"
| "reg_read_reason (WrongType t) =
     nonce_path @ '' wrong value type 0x'' @ hex_nat (unat t) @ '' (expected REG_SZ 0x1)''"
| "reg_read_reason AccessDenied = nonce_path @ '' access denied''"
| "reg_read_reason BufferTooSmall = nonce_path @ '' buffer too small''"
| "reg_read_reason MalformedString = nonce_path @ '' contains invalid UTF-16 data''"
| "reg_read_reason (OtherStatus code) = nonce_path @ '' LSTATUS 0x'' @ hex08 code"

subsection \<open>What the read returns\<close>

lemma reg_frame [frame]:
  "(\<And>s tr. f (s\<lparr>trace := tr\<rparr>) = f s) \<Longrightarrow> keeps f (read_handshake_nonce env)"
  unfolding read_handshake_nonce_def reg_get_value_def Let_def by (intro frame)

fun is_reg :: "event \<Rightarrow> bool" where
  "is_reg (RegGet _) = True"
| "is_reg _ = False"

lemma reg_only: "emits_only is_reg (read_handshake_nonce env)"
  unfolding read_handshake_nonce_def reg_get_value_def Let_def by (intro only) simp

text \<open>
  The documented behaviour of \<open>RegGetValueW\<close>: a successful call reports no more bytes than
  the buffer it was given.
\<close>

definition reg_fits :: "env \<Rightarrow> bool" where
  "reg_fits env = (\<forall>h. rr_status (oe_reg (os env) h) = 0 \<longrightarrow>
     unat (rr_cb (oe_reg (os env) h)) \<le> 2 * nonce_buf_len)"

lemma nonce_no_panic:
  "reg_fits env \<Longrightarrow> fst (run_state (read_handshake_nonce env) s) \<noteq> None"
  by (auto simp: read_handshake_nonce_def reg_get_value_def reg_fits_def Let_def min_def)

lemma nonce_data:
  assumes "oe_reg (os env) (trace s) = r" and "rr_status r = 0" and "rr_type r = REG_SZ"
    and "rr_data r = encode_utf16 n @ [0]" and "unat (rr_cb r) = 2 * length (encode_utf16 n @ [0])"
    and "is_str n" and "0 \<notin> set (chars n)" and "length (encode_utf16 n) < nonce_buf_len"
  shows "run_state (read_handshake_nonce env) s =
     (Some (Ok n), s\<lparr>trace := trace s @ [RegGet r]\<rparr>)"
proof -
  let ?u = "encode_utf16 n"
  have nz: "c \<noteq> 0" if "c \<in> set ?u" for c
    using encode_utf16_nonzero [OF assms(6,7)] that by auto
  have fits: "length ?u + 1 \<le> nonce_buf_len"
    using assms(8) by simp
  then have cut: "take (Suc (length ?u)) (take nonce_buf_len ((?u @ [0]) @ replicate nonce_buf_len 0)) = ?u @ [0]"
    by (simp add: min_absorb1)
  have cut0: "takeWhile (\<lambda>c. c \<noteq> 0) (?u @ [0]) = ?u"
    using nz by (simp add: takeWhile_append2)
  have "length (take nonce_buf_len ((?u @ [0]) @ replicate nonce_buf_len 0)) = nonce_buf_len"
    by simp
  with assms cut cut0 fits show ?thesis
    by (simp add: read_handshake_nonce_def reg_get_value_def Let_def del: take_append)
qed

text \<open>
  C37. Reading back what the plugin wrote: when the registry value is a \<open>REG_SZ\<close> that holds a
  string of at most 255 UTF-16 code units without a null character, with its terminating null
  and its size in bytes, the nonce read is that string.
\<close>

theorem nonce_round_trip:
  assumes "oe_reg (os env) (trace s) =
             \<lparr>rr_status = 0, rr_type = REG_SZ, rr_data = encode_utf16 n @ [0],
              rr_cb = of_nat (2 * Suc (length (encode_utf16 n)))\<rparr>"
    and "is_str n" and "0 \<notin> set (chars n)" and "length (encode_utf16 n) < nonce_buf_len"
  shows "fst (run_state (read_handshake_nonce env) s) = Some (Ok n)"
proof -
  have "unat (of_nat (2 * Suc (length (encode_utf16 n))) :: u32) = 2 * Suc (length (encode_utf16 n))"
    by (rule unat_of_nat_u32) (use assms(4) in \<open>simp add: nonce_buf_len_def\<close>)
  then show ?thesis
    using assms by (subst nonce_data [OF refl]) auto
qed

theorem nonce_round_trip_witness:
  "fst (run_state (read_handshake_nonce
     (sample_env\<lparr>os := (os sample_env)\<lparr>oe_reg := (\<lambda>_. \<lparr>rr_status = 0, rr_type = REG_SZ,
        rr_data = [0x37, 0x66, 0], rr_cb = 6\<rparr>)\<rparr>\<rparr>)) init_proc) = Some (Ok ''7f'')"
proof (rule nonce_round_trip)
  have c: "chars ''7f'' = [0x37, 0x66]"
    by (subst chars_ascii) (simp_all add: is_ascii_def)
  then have u: "encode_utf16 ''7f'' = [0x37, 0x66]"
    by (simp add: encode_utf16_def utf16_char_def)
  show "oe_reg (os (sample_env\<lparr>os := (os sample_env)\<lparr>oe_reg := (\<lambda>_. \<lparr>rr_status = 0,
      rr_type = REG_SZ, rr_data = [0x37, 0x66, 0], rr_cb = 6\<rparr>)\<rparr>\<rparr>)) (trace init_proc) =
      \<lparr>rr_status = 0, rr_type = REG_SZ, rr_data = encode_utf16 ''7f'' @ [0],
       rr_cb = of_nat (2 * Suc (length (encode_utf16 ''7f'')))\<rparr>"
    by (simp add: u)
  show "is_str ''7f''" by (rule ascii_is_str) (simp add: is_ascii_def)
  show "0 \<notin> set (chars ''7f'')" by (simp add: c)
  show "length (encode_utf16 ''7f'') < nonce_buf_len" by (simp add: u nonce_buf_len_def)
qed

subsection \<open>The messages tell the failures apart\<close>

definition unhex :: "char \<Rightarrow> nat" where
  "unhex c = (let n = of_char c in if n < 58 then n - 48 else n - 87)"

definition hex_value :: "string \<Rightarrow> nat" where
  "hex_value s = foldl (\<lambda>a c. 16 * a + unhex c) 0 s"

lemma unhex_digit: "d < 16 \<Longrightarrow> unhex (digit False d) = d"
  by (simp add: unhex_def digit_def Let_def)

lemma hex_value_snoc: "hex_value (s @ [c]) = 16 * hex_value s + unhex c"
  by (simp add: hex_value_def)

lemma hex_value_hex_nat: "hex_value (hex_nat n) = n"
proof (induction n rule: hex_nat.induct)
  case (1 n)
  show ?case
  proof (cases "n < 16")
    case True
    then show ?thesis
      by (subst hex_nat.simps) (simp add: unhex_digit hex_value_def)
  next
    case False
    with 1 show ?thesis
      by (subst hex_nat.simps) (simp add: hex_value_snoc unhex_digit)
  qed
qed

lemma hex_value_hex_digits: "hex_value (hex_digits False w n) = n mod 16 ^ w"
proof (induction w arbitrary: n)
  case 0
  then show ?case by (simp add: hex_value_def)
next
  case (Suc w)
  have "16 * (n div 16 mod 16 ^ w) + n mod 16 = n mod 16 ^ Suc w"
    by (simp add: mod_mult2_eq)
  with Suc show ?case by (simp add: hex_value_snoc unhex_digit)
qed

lemma hex_nat_inject: "hex_nat m = hex_nat n \<longleftrightarrow> m = n"
  using hex_value_hex_nat by metis

lemma hex08_inject: "hex08 v = hex08 w \<longleftrightarrow> v = w"
proof
  assume "hex08 v = hex08 w"
  then have "unat v mod 16 ^ 8 = unat w mod 16 ^ 8"
    unfolding hex08_def using hex_value_hex_digits by metis
  moreover have "unat v < 16 ^ 8" "unat w < 16 ^ 8"
    using unsigned_less [of v] unsigned_less [of w] by simp_all
  ultimately show "v = w" by (simp add: word_unat_eq_iff)
qed simp

text \<open>
  Every failure to read the nonce can be told from its message: two failures give the same
  reason only when they are the same failure, with the same value type or the same status.
  The fallback message never hides a status that has a message of its own.
\<close>

theorem nonce_reasons_distinct:
  "(reg_read_reason e = reg_read_reason e' \<longleftrightarrow> e = e') \<and>
   (lstatus_to_reg_read_error st = OtherStatus c \<longleftrightarrow> st = c \<and> c \<notin> {2, 3, 5, 234})"
proof
  show "reg_read_reason e = reg_read_reason e' \<longleftrightarrow> e = e'"
    by (cases e; cases e') (auto simp: hex_nat_inject hex08_inject word_unat_eq_iff)
  show "lstatus_to_reg_read_error st = OtherStatus c \<longleftrightarrow> st = c \<and> c \<notin> {2, 3, 5, 234}"
    by (auto simp: lstatus_to_reg_read_error_def)
qed

end
