(* ===== verification/Once_Cell.thy ===== *)
theory Once_Cell
  imports World
begin

text \<open>
  \<open>std::sync::OnceLock\<close>: a cell of the process that is filled at most once, by the first
  \<open>get_or_init\<close>. The provider keeps three of them (the signing key, the bindings of
  \<open>webauthn.dll\<close> and the bindings of its credential calls); the locale states what any such
  cell promises and each of the three components interprets it on its own cell.
\<close>

definition get_or_init :: "(proc \<Rightarrow> 'a option) \<Rightarrow> ('a \<Rightarrow> proc \<Rightarrow> proc) \<Rightarrow> 'a m \<Rightarrow> 'a m" where
  "get_or_init get put init = do {
     c \<leftarrow> gets get;
     (case c of
        Some x \<Rightarrow> ret x
      | None \<Rightarrow> do { x \<leftarrow> init; modify (put x); ret x })
   }"

locale once_cell =
  fixes get :: "proc \<Rightarrow> 'a option"
    and put :: "'a \<Rightarrow> proc \<Rightarrow> proc"
    and init :: "'a m"
  assumes get_put: "get (put x s) = Some x"
    and put_trace: "trace (put x s) = trace s"
    and init_keeps: "keeps get init"
begin

lemma full: "get s = Some x \<Longrightarrow> run_state (get_or_init get put init) s = (x, s)"
  by (simp add: get_or_init_def)

lemma empty:
  "get s = None \<Longrightarrow>
   run_state (get_or_init get put init) s = (case run_state init s of (x, t) \<Rightarrow> (x, put x t))"
  by (simp add: get_or_init_def split: prod.splits)

lemma filled:
  "run_state (get_or_init get put init) s = (x, t) \<Longrightarrow> get t = Some x"
  by (cases "get s") (auto simp: full empty get_put split: prod.splits)

lemma stays: "get s = Some x \<Longrightarrow> get (snd (run_state (get_or_init get put init) s)) = Some x"
  by (simp add: full)

text \<open>Asking again gives the same answer and does nothing, whatever the first asking did.\<close>

lemma again:
  "run_state (get_or_init get put init) s = (x, t) \<Longrightarrow>
   run_state (get_or_init get put init) t = (x, t)"
  using filled full by blast

lemma frame_cell:
  assumes "keeps f init" and "\<And>x s. f (put x s) = f s"
  shows "keeps f (get_or_init get put init)"
  unfolding get_or_init_def by (intro frame keeps_modify assms)

lemma only_init: "emits_only P init \<Longrightarrow> emits_only P (get_or_init get put init)"
  unfolding get_or_init_def by (intro only emits_only_modify put_trace)

end

end
