(* ===== verification/Op_Sign_Key.thy ===== *)
theory Op_Sign_Key
  imports Once_Cell
begin

text \<open>
  \<open>com/request_sig.rs\<close>: the operation-signing public key, fetched from \<open>webauthn.dll\<close> at most
  once per process and cached, failure included.
\<close>

subsection \<open>Loading the DLL and resolving symbols\<close>

text \<open>
  \<open>LoadLibraryW\<close> and \<open>GetProcAddress\<close>. A resolved pointer is represented by the name it was
  resolved from. An absent export leaves nothing behind, so probing is not an event.
\<close>

definition load_webauthn :: "env \<Rightarrow> (string + unit) m" where
  "load_webauthn env = do {
     r \<leftarrow> ask (de_load (dll env)) (\<lambda>r. Dll (LoadLib r));
     ret (case r of None \<Rightarrow> Ok () | Some e \<Rightarrow> Err (''LoadLibraryW(webauthn.dll) failed: '' @ e))
   }"

definition try_get_proc :: "env \<Rightarrow> string \<Rightarrow> string option" where
  "try_get_proc env name = (if de_exports (dll env) name then Some name else None)"

datatype GetKeyVariant = RefClsid string | Pwstr string

record KeyBindings =
  get_key :: GetKeyVariant
  free_key :: "string option"

abbreviation "GET_KEY \<equiv> ''WebAuthNPluginGetOperationSigningPublicKey''"
abbreviation "GET_KEY_EXP2 \<equiv> ''EXPERIMENTAL2_WebAuthNPluginGetOperationSigningPublicKey''"
abbreviation "GET_KEY_EXP \<equiv> ''EXPERIMENTAL_WebAuthNPluginGetOperationSigningPublicKey''"

definition ellipsis :: string where
  "ellipsis = [CHR 0xE2, CHR 0x80, CHR 0xA6]"

definition get_key_absent :: string where
  "get_key_absent = ''GetProcAddress failed for WebAuthNPluginGetOperationSigningPublicKey, '' @
     ''EXPERIMENTAL2_'' @ ellipsis @ '' and EXPERIMENTAL_'' @ ellipsis @ '' '' @ em_dash @
     '' webauthn.dll on this build does not export any of them. '' @
     ''Requires Win11 24H2 26100.6725+ (KB5068861, Nov 2025).''"

definition resolve_get_key :: "env \<Rightarrow> string + GetKeyVariant" where
  "resolve_get_key env =
     (case try_get_proc env GET_KEY of
        Some f \<Rightarrow> Ok (RefClsid f)
      | None \<Rightarrow>
          (case try_get_proc env GET_KEY_EXP2 of
             Some f \<Rightarrow> Ok (RefClsid f)
           | None \<Rightarrow>
               (case try_get_proc env GET_KEY_EXP of
                  Some f \<Rightarrow> Ok (Pwstr f)
                | None \<Rightarrow> Err get_key_absent)))"

definition probe_free_key :: "env \<Rightarrow> string option" where
  "probe_free_key env = try_get_proc env ''WebAuthNPluginFreePublicKeyResponse''"

definition load_key_bindings :: "env \<Rightarrow> (string + KeyBindings) m" where
  "load_key_bindings env = do {
     hmod \<leftarrow> load_webauthn env;
     ret (case hmod of
            Err e \<Rightarrow> Err e
          | Ok _ \<Rightarrow>
              (case resolve_get_key env of
                 Err e \<Rightarrow> Err e
               | Ok v \<Rightarrow> Ok \<lparr>get_key = v, free_key = probe_free_key env\<rparr>))
   }"

subsection \<open>Fetching the key\<close>

definition hex4 :: "u16 \<Rightarrow> string" where "hex4 w = hex_digits True 4 (unat w)"
definition hex2 :: "u8 \<Rightarrow> string" where "hex2 w = hex_digits True 2 (unat w)"

definition clsid_braced :: "Guid \<Rightarrow> string" where
  "clsid_braced g =
     ''{'' @ hex_digits True 8 (unat (data1 g)) @ ''-'' @ hex4 (data2 g) @ ''-'' @ hex4 (data3 g) @ ''-'' @
     hex2 (data4 g ! 0) @ hex2 (data4 g ! 1) @ ''-'' @
     hex2 (data4 g ! 2) @ hex2 (data4 g ! 3) @ hex2 (data4 g ! 4) @
     hex2 (data4 g ! 5) @ hex2 (data4 g ! 6) @ hex2 (data4 g ! 7) @ ''}''"

fun key_call :: "GetKeyVariant \<Rightarrow> string \<times> key_arg" where
  "key_call (RefClsid f) = (f, ByRef CLSID_GUID)"
| "key_call (Pwstr f) = (f, ByString (encode_utf16 (clsid_braced CLSID_GUID) @ [0]))"

definition free_key_buffer :: "KeyBindings \<Rightarrow> nat \<Rightarrow> unit m" where
  "free_key_buffer b p = (case free_key b of Some _ \<Rightarrow> emit (Dll (KeyFree p)) | None \<Rightarrow> ret ())"

definition fetch_key_from_dll :: "env \<Rightarrow> (hresult + bytes) m" where
  "fetch_key_from_dll env = do {
     bindings \<leftarrow> load_key_bindings env;
     (case bindings of
        Err _ \<Rightarrow> ret (Err NTE_BAD_SIGNATURE)
      | Ok b \<Rightarrow>
          let (f, arg) = key_call (get_key b) in do {
          (hr, cb_out, pb_out) \<leftarrow> ask (\<lambda>h. de_key (dll env) h f arg) (\<lambda>r. Dll (KeyGet f arg r));
          let cb_key = (case cb_out of Some n \<Rightarrow> n | None \<Rightarrow> 0);
          let pb_key = (case pb_out of Some p \<Rightarrow> p | None \<Rightarrow> None);
          (if hr_is_err hr then do {
             (case pb_key of Some (p, _) \<Rightarrow> free_key_buffer b p | None \<Rightarrow> ret ());
             ret (Err NTE_BAD_SIGNATURE)
           } else (case pb_key of
             None \<Rightarrow> ret (Err NTE_BAD_SIGNATURE)
           | Some (p, data) \<Rightarrow>
               if cb_key = 0 then ret (Err NTE_BAD_SIGNATURE)
               else do {
                 let key_bytes = take (unat cb_key) data;
                 free_key_buffer b p;
                 ret (Ok key_bytes)
               }))
        })
   }"

definition get_signing_key_bytes :: "env \<Rightarrow> (hresult + bytes) m" where
  "get_signing_key_bytes env =
     get_or_init key_cache (\<lambda>x. key_cache_update (\<lambda>_. Some x)) (fetch_key_from_dll env)"

definition get_op_sign_pub_key_bytes_for_hello :: "env \<Rightarrow> bytes option m" where
  "get_op_sign_pub_key_bytes_for_hello env = do {
     r \<leftarrow> get_signing_key_bytes env;
     ret (case r of Ok bs \<Rightarrow> Some bs | Err _ \<Rightarrow> None)
   }"

subsection \<open>What a fetch does\<close>

fun is_key_event :: "event \<Rightarrow> bool" where
  "is_key_event (Dll (LoadLib _)) = True"
| "is_key_event (Dll (KeyGet _ _ _)) = True"
| "is_key_event (Dll (KeyFree _)) = True"
| "is_key_event _ = False"

lemma free_key_buffer_frame:
  "(\<And>s tr. f (s\<lparr>trace := tr\<rparr>) = f s) \<Longrightarrow> keeps f (free_key_buffer b p)"
  unfolding free_key_buffer_def by (intro frame)

lemma fetch_key_frame:
  "(\<And>s tr. f (s\<lparr>trace := tr\<rparr>) = f s) \<Longrightarrow> keeps f (fetch_key_from_dll env)"
  unfolding fetch_key_from_dll_def load_key_bindings_def load_webauthn_def Let_def
  by (intro frame free_key_buffer_frame)

lemma free_key_buffer_only: "emits_only is_key_event (free_key_buffer b p)"
  by (cases "free_key b") (simp_all add: free_key_buffer_def emits_only_emit emits_only_return)

lemma fetch_key_only: "emits_only is_key_event (fetch_key_from_dll env)"
  unfolding fetch_key_from_dll_def load_key_bindings_def load_webauthn_def Let_def
  by (intro only free_key_buffer_only) simp_all

interpretation key_cell: once_cell key_cache "\<lambda>x. key_cache_update (\<lambda>_. Some x)"
    "fetch_key_from_dll env" for env
  by unfold_locales (simp_all add: fetch_key_frame)

lemma signing_key_frame:
  "(\<And>s tr. f (s\<lparr>trace := tr\<rparr>) = f s) \<Longrightarrow> (\<And>s x. f (s\<lparr>key_cache := x\<rparr>) = f s) \<Longrightarrow>
   keeps f (get_signing_key_bytes env)"
  unfolding get_signing_key_bytes_def by (rule key_cell.frame_cell) (simp_all add: fetch_key_frame)

lemma hello_key_frame:
  "(\<And>s tr. f (s\<lparr>trace := tr\<rparr>) = f s) \<Longrightarrow> (\<And>s x. f (s\<lparr>key_cache := x\<rparr>) = f s) \<Longrightarrow>
   keeps f (get_op_sign_pub_key_bytes_for_hello env)"
  unfolding get_op_sign_pub_key_bytes_for_hello_def by (intro frame signing_key_frame)

lemma hello_key_only: "emits_only is_key_event (get_op_sign_pub_key_bytes_for_hello env)"
  unfolding get_op_sign_pub_key_bytes_for_hello_def get_signing_key_bytes_def
  by (intro only key_cell.only_init fetch_key_only)

text \<open>
  C18. The signing key is fetched at most once. Whatever a request for it answered, success or
  failure, the next request gives the same answer from the cache, makes no call and changes
  nothing; and the answer is the key exactly when the cached fetch succeeded.
\<close>

theorem hello_key_fetched_once:
  "case run_state (get_op_sign_pub_key_bytes_for_hello env) s of
     (r, t) \<Rightarrow>
       run_state (get_op_sign_pub_key_bytes_for_hello env) t = (r, t) \<and>
       (\<exists>c. key_cache t = Some c \<and> r = (case c of Ok bs \<Rightarrow> Some bs | Err _ \<Rightarrow> None))"
proof -
  obtain c t where run: "run_state (get_signing_key_bytes env) s = (c, t)"
    by (cases "run_state (get_signing_key_bytes env) s")
  with key_cell.again [of env s c t] key_cell.filled [of env s c t] show ?thesis
    by (simp add: get_op_sign_pub_key_bytes_for_hello_def get_signing_key_bytes_def)
qed

lemma hex_digits_step:
  "hex_digits u (numeral k) n = hex_digits u (pred_numeral k) (n div 16) @ [digit u (n mod 16)]"
  by (simp only: numeral_eq_Suc hex_digits.simps)

lemma upper_digits:
  "digit True 0 = CHR ''0''" "digit True 1 = CHR ''1''" "digit True 2 = CHR ''2''" "digit True 3 = CHR ''3''"
  "digit True 4 = CHR ''4''" "digit True 5 = CHR ''5''" "digit True 6 = CHR ''6''" "digit True 7 = CHR ''7''"
  "digit True 8 = CHR ''8''" "digit True 9 = CHR ''9''" "digit True 10 = CHR ''A''" "digit True 11 = CHR ''B''"
  "digit True 12 = CHR ''C''" "digit True 13 = CHR ''D''" "digit True 14 = CHR ''E''" "digit True 15 = CHR ''F''"
  by (simp_all add: digit_def char_of_def bit_0)

lemma upper_digit_1: "digit True (Suc 0) = CHR ''1''"
  using upper_digits(2) by simp

lemma clsid_braced_val: "clsid_braced CLSID_GUID = ''{5C6840DC-8BED-4951-9576-B0457FC34E71}''"
  by (simp add: clsid_braced_def CLSID_GUID_def hex4_def hex2_def hex_digits_step upper_digits
      upper_digit_1)

fun is_key_free :: "event \<Rightarrow> bool" where
  "is_key_free (Dll (KeyFree _)) = True"
| "is_key_free _ = False"

lemma get_key_choice:
  "resolve_get_key env = Ok v \<Longrightarrow> key_call v = (f, arg) \<Longrightarrow>
   find (de_exports (dll env)) [GET_KEY, GET_KEY_EXP2, GET_KEY_EXP] = Some f \<and>
   arg = (if f = GET_KEY_EXP then ByString (encode_utf16 (clsid_braced CLSID_GUID) @ [0])
          else ByRef CLSID_GUID)"
  by (auto simp: resolve_get_key_def try_get_proc_def split: if_splits)

text \<open>
  C19. Fetching the key is fail-closed and frees what it was given. The only error is
  \<open>NTE_BAD_SIGNATURE\<close>. A key comes from one successful call of the first exported of the three
  entry points, to which the class id of this provider was passed (the oldest one takes it as
  text); it is the reported number of bytes, not zero, behind the pointer the call wrote, and
  that pointer was then freed, once, when the DLL exports the function for it. No path frees
  twice.
\<close>

theorem fetch_key_outcome:
  "case run_state (fetch_key_from_dll env) s of
     (r, t) \<Rightarrow>
       length (evs is_key_free t) \<le> length (evs is_key_free s) + 1 \<and>
       (case r of
          Err e \<Rightarrow> e = NTE_BAD_SIGNATURE
        | Ok key \<Rightarrow> \<exists>f arg hr cb p data.
            find (de_exports (dll env)) [GET_KEY, GET_KEY_EXP2, GET_KEY_EXP] = Some f \<and>
            arg = (if f = GET_KEY_EXP
                   then ByString (encode_utf16 ''{5C6840DC-8BED-4951-9576-B0457FC34E71}'' @ [0])
                   else ByRef CLSID_GUID) \<and>
            \<not> hr_is_err hr \<and> cb \<noteq> 0 \<and> key = take (unat cb) data \<and>
            trace t = trace s @ [Dll (LoadLib None), Dll (KeyGet f arg (hr, Some cb, Some (Some (p, data))))] @
              (if de_exports (dll env) ''WebAuthNPluginFreePublicKeyResponse'' then [Dll (KeyFree p)] else []))"
proof (cases "de_load (dll env) (trace s)")
  case (Some e)
  then show ?thesis
    by (simp add: fetch_key_from_dll_def load_key_bindings_def load_webauthn_def evs_def)
next
  case None
  show ?thesis
  proof (cases "resolve_get_key env")
    case (Inl e)
    with None show ?thesis
      by (simp add: fetch_key_from_dll_def load_key_bindings_def load_webauthn_def evs_def)
  next
    case (Inr v)
    obtain f arg where call: "key_call v = (f, arg)" by fastforce
    obtain hr cb pb where reply: "de_key (dll env) (trace s @ [Dll (LoadLib None)]) f arg = (hr, cb, pb)"
      by (metis prod_cases3)
    from get_key_choice [OF Inr call] None Inr call reply show ?thesis
      by (auto simp: fetch_key_from_dll_def load_key_bindings_def load_webauthn_def evs_def
          free_key_buffer_def probe_free_key_def try_get_proc_def clsid_braced_val
          split: option.split)
  qed
qed

end
