(* ===== verification/Pipe_Session.thy ===== *)
theory Pipe_Session
  imports Ipc_Client Reg_Nonce Op_Sign_Key
begin

text \<open>
  The connection of the process to the plugin: \<open>connect_and_handshake\<close> and
  \<open>clear_shared_state\<close> of \<open>com/exe_server.rs\<close>, \<open>com/classify_rpc_error.rs\<close>, and the retrying
  call \<open>take_call_with_retry\<close> of \<open>com/server.rs\<close> through which every COM method reaches the
  pipe.
\<close>

subsection \<open>Classification of errors\<close>

datatype RpcErrorClass = Stale | Other

definition classify_rpc_error :: "ClientError \<Rightarrow> RpcErrorClass" where
  "classify_rpc_error err =
     (case err of
        Io e \<Rightarrow> (if io_error_kind e = BrokenPipe \<or> io_error_kind e = ConnectionAborted
                 then Stale else Other)
      | _ \<Rightarrow> Other)"

text \<open>
  No answer of the plugin makes the provider reconnect: whatever error code and message a
  response carries, the error it maps to is not stale, while every broken pipe and aborted
  connection is. In the table of codes, only an unknown code loses its number: each of the
  named errors comes from its own codes.
\<close>

theorem rpc_errors_never_stale:
  "classify_rpc_error (from_rpc code message) = Other \<and>
   (classify_rpc_error e = Stale \<longleftrightarrow>
      (\<exists>m. e = Io (IoError BrokenPipe m) \<or> e = Io (IoError ConnectionAborted m))) \<and>
   (from_rpc code message = RpcError c m \<longleftrightarrow>
      c = code \<and> m = message \<and>
      code \<notin> {-32010, -32020, -32030, -32031, -32041, -32000, -32001, -32600, -32602, -32603})"
proof (intro conjI)
  show "classify_rpc_error (from_rpc code message) = Other"
    by (simp add: from_rpc_def classify_rpc_error_def)
  show "classify_rpc_error e = Stale \<longleftrightarrow>
      (\<exists>m. e = Io (IoError BrokenPipe m) \<or> e = Io (IoError ConnectionAborted m))"
    by (cases e; auto simp: classify_rpc_error_def; metis io_error.collapse)
  show "from_rpc code message = RpcError c m \<longleftrightarrow>
      c = code \<and> m = message \<and>
      code \<notin> {-32010, -32020, -32030, -32031, -32041, -32000, -32001, -32600, -32602, -32603}"
    by (auto simp: from_rpc_def)
qed

definition clear_slot :: "'a option \<Rightarrow> 'a option" where
  "clear_slot slot = None"

definition clear_shared_state :: "unit m" where
  "clear_shared_state = modify (shared_state_update clear_slot)"

subsection \<open>Connecting and shaking hands\<close>

definition KEEPASSKEYWIN_PKG_FAMILY :: string where
  "KEEPASSKEYWIN_PKG_FAMILY = ''KeePassKeyWin.Provider_4fv17arhjxxvg''"

text \<open>Dropping a \<open>PipeClient\<close> closes its handle.\<close>

definition drop_client :: "PipeClient \<Rightarrow> unit m" where
  "drop_client c = emit (Pipe (PipeDrop (transport c)))"

definition connect_and_handshake :: "env \<Rightarrow> u32 \<Rightarrow> (ClientError + PipeClient) option m" where
  "connect_and_handshake env sid = do {
     r \<leftarrow> connect env sid;
     (case r of
        Err e \<Rightarrow> ret (Some (Err e))
      | Ok p \<Rightarrow> or_abort (read_handshake_nonce env) (\<lambda>n.
          (case n of
             Err e \<Rightarrow> do {
               drop_client p;
               ret (Some (Err (InvalidRequest (reg_read_reason e))))
             }
           | Ok nonce \<Rightarrow> do {
               pub_key \<leftarrow> get_op_sign_pub_key_bytes_for_hello env;
               (r, p) \<leftarrow> handshake env p KEEPASSKEYWIN_PKG_FAMILY nonce pub_key;
               (case r of
                  Ok _ \<Rightarrow> ret (Some (Ok p))
                | Err e \<Rightarrow> do { drop_client p; ret (Some (Err e)) })
             })))
   }"

subsection \<open>The state behind an \<open>Arc\<close>\<close>

definition pipe_of :: "nat \<Rightarrow> proc \<Rightarrow> PipeClient option" where
  "pipe_of a s = (case heap s a of Some st \<Rightarrow> pipe st | None \<Rightarrow> None)"

definition session_of :: "nat \<Rightarrow> proc \<Rightarrow> u32" where
  "session_of a s = (case heap s a of Some st \<Rightarrow> session_id st | None \<Rightarrow> 0)"

definition set_pipe :: "nat \<Rightarrow> PipeClient option \<Rightarrow> unit m" where
  "set_pipe a p = modify (\<lambda>s. s\<lparr>heap := (heap s)(a := map_option (pipe_update (\<lambda>_. p)) (heap s a))\<rparr>)"

definition take_pipe :: "nat \<Rightarrow> PipeClient option m" where
  "take_pipe a = do { p \<leftarrow> gets (pipe_of a); set_pipe a None; ret p }"

subsection \<open>The retrying call\<close>

text \<open>The future: it owns the pipe, and returns the live one, if any, with the result.\<close>

definition call_or_reconnect ::
  "env \<Rightarrow> u32 \<Rightarrow> PipeClient \<Rightarrow> string \<Rightarrow> json \<Rightarrow>
   ((ClientError + json) \<times> PipeClient option) option m" where
  "call_or_reconnect env sid p rpc params = do {
     (r1, p) \<leftarrow> call_value env p rpc params;
     (case r1 of
        Ok _ \<Rightarrow> ret (Some (r1, Some p))
      | Err e \<Rightarrow>
          if classify_rpc_error e \<noteq> Stale then ret (Some (r1, Some p))
          else do {
            drop_client p;
            or_abort (connect_and_handshake env sid) (\<lambda>r.
              (case r of
                 Ok fresh \<Rightarrow> do {
                   (r2, fresh) \<leftarrow> call_value env fresh rpc params;
                   ret (Some (r2, Some fresh))
                 }
               | Err connect_err \<Rightarrow> ret (Some (Err connect_err, None))))
          })
   }"

definition reconcile_pipe :: "nat \<Rightarrow> PipeClient option \<Rightarrow> unit m" where
  "reconcile_pipe a fresh =
     (case fresh of Some p \<Rightarrow> set_pipe a (Some p) | None \<Rightarrow> clear_shared_state)"

definition take_call_with_retry ::
  "env \<Rightarrow> nat \<Rightarrow> string \<Rightarrow> json \<Rightarrow> (ClientError + json) option option m" where
  "take_call_with_retry env a rpc params = do {
     p \<leftarrow> take_pipe a;
     (case p of
        None \<Rightarrow> ret (Some None)
      | Some p \<Rightarrow> do {
          sid \<leftarrow> gets (session_of a);
          or_abort (call_or_reconnect env sid p rpc params) (\<lambda>(r, fresh). do {
            reconcile_pipe a fresh;
            ret (Some (Some r))
          })
        })
   }"

subsection \<open>One connection at a time\<close>

text \<open>
  The monitor of the connection: opening is allowed only when nothing is open, and writing,
  flushing, reading and closing only on the handle that is. \<open>None\<close> is a violation.
\<close>

fun pipe_step :: "nat option \<Rightarrow> event \<Rightarrow> nat option option" where
  "pipe_step h (Pipe (PipeOpen _ (Ok c))) = (if h = None then Some (Some c) else None)"
| "pipe_step h (Pipe (PipeOpen _ (Err _))) = (if h = None then Some None else None)"
| "pipe_step h (Pipe (PipeWrite c _ _)) = (if h = Some c then Some h else None)"
| "pipe_step h (Pipe (PipeFlush c _)) = (if h = Some c then Some h else None)"
| "pipe_step h (Pipe (PipeRead c _)) = (if h = Some c then Some h else None)"
| "pipe_step h (Pipe (PipeDrop c)) = (if h = Some c then Some None else None)"
| "pipe_step h _ = Some h"

fun monitor :: "nat option \<Rightarrow> event list \<Rightarrow> nat option option" where
  "monitor h [] = Some h"
| "monitor h (e # es) = (case pipe_step h e of None \<Rightarrow> None | Some h' \<Rightarrow> monitor h' es)"

lemma monitor_append [simp]:
  "monitor h (xs @ ys) = (case monitor h xs of None \<Rightarrow> None | Some h' \<Rightarrow> monitor h' ys)"
  by (induction h xs rule: monitor.induct) (simp_all split: option.splits)

definition linked :: "nat option \<Rightarrow> proc \<Rightarrow> bool" where
  "linked h s = (monitor None (trace s) = Some h)"

fun not_pipe :: "event \<Rightarrow> bool" where
  "not_pipe (Pipe _) = False"
| "not_pipe _ = True"

lemma pipe_step_not_pipe: "not_pipe e \<Longrightarrow> pipe_step h e = Some h"
  by (cases e) auto

lemma monitor_not_pipe: "list_all not_pipe es \<Longrightarrow> monitor h es = Some h"
  by (induction es) (simp_all add: pipe_step_not_pipe)

lemma monitor_on_handle: "list_all (on_handle c) es \<Longrightarrow> (\<forall>d. PipeDrop d \<notin> set es) \<Longrightarrow>
    monitor (Some c) (map Pipe es) = Some (Some c)"
proof (induction es)
  case (Cons e es)
  then show ?case by (cases e) auto
qed simp

lemma linked_not_pipe: "emits_only not_pipe m \<Longrightarrow> ensures (linked h) m (\<lambda>_. linked h)"
  by (rule ensuresI) (auto simp: linked_def monitor_not_pipe dest!: emits_onlyD)

lemma exchange_no_drop: "exchange c line es out \<Longrightarrow> PipeDrop d \<notin> set es"
  by (induction rule: exchange.induct) simp_all

lemma linked_call:
  "ensures (linked (Some (transport p))) (call env fv p rpc params)
     (\<lambda>(r, p') s. linked (Some (transport p')) s \<and> transport p' = transport p)"
proof (rule ensuresI)
  fix s res t
  assume "linked (Some (transport p)) s" and "run_state (call env fv p rpc params) s = (res, t)"
  then show "(case res of (r, p') \<Rightarrow>
      \<lambda>s. linked (Some (transport p')) s \<and> transport p' = transport p) t"
    by - (rule call_run [of env p rpc params fv s];
        auto simp: linked_def monitor_on_handle exchange_on_handle exchange_no_drop)
qed

lemma linked_connect:
  "ensures (linked None) (connect env sid)
     (\<lambda>r. linked (case r of Ok c \<Rightarrow> Some (transport c) | Err _ \<Rightarrow> None))"
proof -
  have failed: "monitor None (failed_attempts sid ds es) = Some None" for ds es
    by (induction ds es rule: list_induct2')
      (simp_all add: failed_attempts_Cons, simp_all add: failed_attempts_def)
  show ?thesis
  proof (rule ensuresI)
    fix s r t assume "linked None s" and run: "run_state (connect env sid) s = (r, t)"
    with connect_loop_run [where env = env and sid = sid and ds = delays_ms and last_err = None and s = s]
    show "linked (case r of Ok c \<Rightarrow> Some (transport c) | Err _ \<Rightarrow> None) t"
      by (cases r) (auto simp: connect_def linked_def failed)
  qed
qed

lemma key_event_not_pipe: "is_key_event e \<Longrightarrow> not_pipe e"
  by (cases e) auto

lemma reg_not_pipe: "is_reg e \<Longrightarrow> not_pipe e"
  by (cases e) auto

lemma linked_nonce: "ensures (linked h) (read_handshake_nonce env) (\<lambda>_. linked h)"
  by (rule linked_not_pipe, rule emits_only_mono [OF reg_only reg_not_pipe])

lemma linked_hello_key: "ensures (linked h) (get_op_sign_pub_key_bytes_for_hello env) (\<lambda>_. linked h)"
  by (rule linked_not_pipe, rule emits_only_mono [OF hello_key_only key_event_not_pipe])

lemma linked_drop: "ensures (linked (Some (transport p))) (drop_client p) (\<lambda>_. linked None)"
  unfolding drop_client_def by (intro wp) (simp add: linked_def)

lemma linked_drop_return:
  assumes "\<And>s. P s \<Longrightarrow> linked (Some (transport p)) s" and "\<And>s. linked None s \<Longrightarrow> Q x s"
  shows "ensures P (do { drop_client p; ret x }) Q"
  using assms linked_drop [of p] by (auto simp: ensures_def drop_client_def)

lemma linked_handshake:
  "ensures (linked (Some (transport p))) (handshake env p pkg nonce key)
     (\<lambda>(r, p') s. linked (Some (transport p')) s \<and> transport p' = transport p)"
proof (cases key)
  case None
  then show ?thesis by (simp add: handshake_def ensures_return)
next
  case (Some k)
  show ?thesis
    unfolding handshake_def Some option.case
    by (rule ensures_bind [OF linked_call])
      (auto intro!: ensures_return split: prod.splits sum.splits)
qed

text \<open>After \<open>connect_and_handshake\<close>: the returned client's handle is open, or nothing is.\<close>

definition session_linked :: "(ClientError + PipeClient) option \<Rightarrow> proc \<Rightarrow> bool" where
  "session_linked r s =
     (case r of
        None \<Rightarrow> True
      | Some (Ok c) \<Rightarrow> linked (Some (transport c)) s
      | Some (Err _) \<Rightarrow> linked None s)"

lemma session_linked_simps [simp]:
  "session_linked None = (\<lambda>_. True)"
  "session_linked (Some (Ok c)) = linked (Some (transport c))"
  "session_linked (Some (Err e)) = linked None"
  by (simp_all add: session_linked_def fun_eq_iff)

lemma linked_session: "ensures (linked None) (connect_and_handshake env sid) session_linked"
  unfolding connect_and_handshake_def
proof (rule ensures_bind [OF linked_connect])
  fix r :: "ClientError + PipeClient"
  let ?h = "case r of Ok c \<Rightarrow> Some (transport c) | Err _ \<Rightarrow> None"
  show "ensures (linked ?h)
      (case r of Err e \<Rightarrow> ret (Some (Err e))
       | Ok p \<Rightarrow> or_abort (read_handshake_nonce env) (\<lambda>n.
          (case n of
             Err e \<Rightarrow> do { drop_client p; ret (Some (Err (InvalidRequest (reg_read_reason e)))) }
           | Ok nonce \<Rightarrow> do {
               pub_key \<leftarrow> get_op_sign_pub_key_bytes_for_hello env;
               (r, p) \<leftarrow> handshake env p KEEPASSKEYWIN_PKG_FAMILY nonce pub_key;
               (case r of
                  Ok _ \<Rightarrow> ret (Some (Ok p))
                | Err e \<Rightarrow> do { drop_client p; ret (Some (Err e)) })
             }))) session_linked"
  proof (cases r)
    case (Inl e)
    then show ?thesis by (simp add: ensures_return session_linked_def)
  next
    case (Inr p)
    show ?thesis
      unfolding Inr sum.case
    proof (rule ensures_or_abort [where R = "\<lambda>_. linked (Some (transport p))"])
      show "ensures (linked (Some (transport p))) (read_handshake_nonce env)
          (\<lambda>x s. case x of None \<Rightarrow> session_linked None s | Some y \<Rightarrow> linked (Some (transport p)) s)"
        by (rule ensures_weaken [OF linked_nonce])
          (auto simp: session_linked_def split: option.split)
    qed (auto intro!: linked_drop_return ensures_bind [OF linked_hello_key]
        ensures_bind [OF linked_handshake] ensures_return
        simp: session_linked_def split: sum.split prod.split)
  qed
qed

lemma linked_call_or_reconnect:
  "ensures (linked (Some (transport p))) (call_or_reconnect env sid p rpc params)
     (\<lambda>x s. case x of None \<Rightarrow> True | Some (r, fresh) \<Rightarrow>
        linked (map_option transport fresh) s \<and> (fresh = None \<longrightarrow> (\<exists>e. r = Err e)))"
  (is "ensures _ _ ?Q")
proof -
  have second: "ensures (linked (Some (transport c)))
      (do { (r2, c) \<leftarrow> call_value env c rpc params; ret (Some (r2, Some c)) }) ?Q" for c
    by (rule ensures_bind [OF linked_call]) (auto intro!: ensures_return split: prod.split)
  have retry: "ensures (linked None)
      (or_abort (connect_and_handshake env sid) (\<lambda>r.
        (case r of
           Ok fresh \<Rightarrow> do { (r2, fresh) \<leftarrow> call_value env fresh rpc params; ret (Some (r2, Some fresh)) }
         | Err connect_err \<Rightarrow> ret (Some (Err connect_err, None))))) ?Q"
  proof (rule ensures_or_abort [where R = "\<lambda>r. session_linked (Some r)"])
    show "ensures (linked None) (connect_and_handshake env sid)
        (\<lambda>x s. case x of None \<Rightarrow> ?Q None s | Some y \<Rightarrow> session_linked (Some y) s)"
      by (rule ensures_weaken [OF linked_session]) (auto split: option.split)
    fix r :: "ClientError + PipeClient"
    show "ensures (session_linked (Some r))
        (case r of
           Ok fresh \<Rightarrow> do { (r2, fresh) \<leftarrow> call_value env fresh rpc params; ret (Some (r2, Some fresh)) }
         | Err connect_err \<Rightarrow> ret (Some (Err connect_err, None))) ?Q"
      using second by (cases r) (auto intro!: ensures_return)
  qed
  show ?thesis
    unfolding call_or_reconnect_def
  proof (rule ensures_bind [OF linked_call])
    fix x :: "(ClientError + json) \<times> PipeClient"
    obtain r1 p1 where x: "x = (r1, p1)" by fastforce
    have drop: "ensures (\<lambda>s. linked (Some (transport p1)) s \<and> transport p1 = transport p)
        (drop_client p1) (\<lambda>_. linked None)"
      by (rule ensures_weaken [OF linked_drop]) auto
    show "ensures (case x of (r, p') \<Rightarrow> \<lambda>s. linked (Some (transport p')) s \<and> transport p' = transport p)
        (case x of (r1, p) \<Rightarrow> (case r1 of
          Err e \<Rightarrow> if classify_rpc_error e \<noteq> Stale then ret (Some (r1, Some p))
            else do { drop_client p;
              or_abort (connect_and_handshake env sid) (\<lambda>r.
               (case r of
                  Ok fresh \<Rightarrow> do { (r2, fresh) \<leftarrow> call_value env fresh rpc params; ret (Some (r2, Some fresh)) }
                | Err connect_err \<Rightarrow> ret (Some (Err connect_err, None)))) }
        | Ok _ \<Rightarrow> ret (Some (r1, Some p)))) ?Q"
      unfolding x prod.case
      by (cases r1) (auto intro!: ensures_return ensures_bind [OF drop] retry)
  qed
qed

lemma call_or_reconnect_none:
  assumes "run_state (call_or_reconnect env sid p rpc params) s = (Some (r, None), t)"
  obtains e where "r = Err e"
proof -
  obtain r1 p1 s1 where one: "run_state (call_value env p rpc params) s = ((r1, p1), s1)"
    by (metis prod.collapse)
  from assms one that show thesis
    by (auto simp: call_or_reconnect_def split: sum.splits if_splits prod.splits option.splits)
qed

text \<open>
  The invariant between COM calls: the shared slot refers to a state exactly when that state
  is the one that holds a pipe, and that pipe's handle is the one open connection.
\<close>

definition conn_inv :: "proc \<Rightarrow> bool" where
  "conn_inv s = ((\<forall>a. pipe_of a s \<noteq> None \<longleftrightarrow> shared_state s = Some a) \<and>
     linked (case shared_state s of None \<Rightarrow> None | Some a \<Rightarrow> map_option transport (pipe_of a s)) s)"

lemma conn_inv_init: "conn_inv init_proc"
  by (simp add: conn_inv_def init_proc_def pipe_of_def linked_def)

lemma pipe_of_heap: "heap t = heap s \<Longrightarrow> pipe_of a t = pipe_of a s"
  by (simp add: pipe_of_def)

lemma call_or_reconnect_frame:
  assumes "\<And>s tr. f (s\<lparr>trace := tr\<rparr>) = f s" and "\<And>s x. f (s\<lparr>key_cache := x\<rparr>) = f s"
  shows "keeps f (call_or_reconnect env sid p rpc params)"
  unfolding call_or_reconnect_def connect_and_handshake_def drop_client_def
  by (intro frame call_frame connect_frame handshake_frame hello_key_frame assms)

lemma take_none:
  assumes "pipe_of a s = None"
  shows "run_state (take_call_with_retry env a rpc params) s = (Some None, s)"
proof -
  have "map_option (pipe_update (\<lambda>_. None)) (heap s a) = heap s a"
    using assms by (cases "heap s a") (simp_all add: pipe_of_def)
  then show ?thesis
    using assms by (simp add: take_call_with_retry_def take_pipe_def set_pipe_def)
qed

text \<open>The run of a retrying call that finds a pipe, by what its future returned.\<close>

lemma take_some:
  assumes p: "pipe_of a s = Some p"
  defines "s0 \<equiv> snd (run_state (set_pipe a None) s)"
  obtains (aborted) s1 where
      "run_state (call_or_reconnect env (session_of a s) p rpc params) s0 = (None, s1)"
      "run_state (take_call_with_retry env a rpc params) s = (None, s1)"
  | (returned) r fresh s1 where
      "run_state (call_or_reconnect env (session_of a s) p rpc params) s0 = (Some (r, fresh), s1)"
      "heap s1 = (heap s)(a := map_option (pipe_update (\<lambda>_. None)) (heap s a))"
      "shared_state s1 = shared_state s"
      "run_state (take_call_with_retry env a rpc params) s =
         (Some (Some r), snd (run_state (reconcile_pipe a fresh) s1))"
proof -
  have s0: "heap s0 = (heap s)(a := map_option (pipe_update (\<lambda>_. None)) (heap s a))"
    "shared_state s0 = shared_state s" "session_of a s0 = session_of a s"
    by (simp_all add: s0_def set_pipe_def session_of_def split: option.split)
  obtain x s1 where run: "run_state (call_or_reconnect env (session_of a s) p rpc params) s0 = (x, s1)"
    by fastforce
  have frames: "heap s1 = heap s0" "shared_state s1 = shared_state s0"
    by (rule keepsD [OF call_or_reconnect_frame run]; simp)+
  have take: "run_state (take_pipe a) s = (Some p, s0)"
    using p by (simp add: take_pipe_def s0_def set_pipe_def)
  show thesis
  proof (cases x)
    case None
    with run take s0 show thesis
      by (intro aborted) (auto simp: take_call_with_retry_def)
  next
    case (Some y)
    with run take s0 frames show thesis
      by (intro returned [of "fst y" "snd y" s1])
        (auto simp: take_call_with_retry_def split: prod.splits)
  qed
qed


text \<open>What holds after an operation unless it aborted the process.\<close>

definition unless_aborted :: "(proc \<Rightarrow> bool) \<Rightarrow> 'a option \<Rightarrow> proc \<Rightarrow> bool" where
  "unless_aborted P r s = (r \<noteq> None \<longrightarrow> P s)"

lemma unless_aborted_simps [simp]:
  "unless_aborted P None s" "unless_aborted P (Some x) s \<longleftrightarrow> P s"
  by (simp_all add: unless_aborted_def)

lemma take_call_conn:
  "ensures conn_inv (take_call_with_retry env a rpc params) (unless_aborted conn_inv)"
  unfolding unless_aborted_def
proof (rule ensuresI, rule impI)
  fix s r t
  assume inv: "conn_inv s" and run: "run_state (take_call_with_retry env a rpc params) s = (r, t)"
    and some: "r \<noteq> None"
  show "conn_inv t"
  proof (cases "pipe_of a s")
    case None
    with inv run show ?thesis by (simp add: take_none)
  next
    case (Some p)
    with inv have shared: "shared_state s = Some a" by (auto simp: conn_inv_def)
    let ?s0 = "snd (run_state (set_pipe a None) s)"
    have "linked (Some (transport p)) ?s0"
      using inv shared Some by (simp add: conn_inv_def set_pipe_def linked_def)
    note fut = ensuresD [OF linked_call_or_reconnect this]
    from Some obtain st where st: "heap s a = Some st" by (auto simp: pipe_of_def split: option.splits)
    have others: "pipe_of b s = None" if "b \<noteq> a" for b
      using inv shared that by (auto simp: conn_inv_def)
    from Some show ?thesis
    proof (rule take_some [of a s p env rpc params])
      fix s1 assume "run_state (take_call_with_retry env a rpc params) s = (None, s1)"
      with run some show ?thesis by simp
    next
      fix x fresh s1
      assume f: "run_state (call_or_reconnect env (session_of a s) p rpc params) ?s0 = (Some (x, fresh), s1)"
        and heap: "heap s1 = (heap s)(a := map_option (pipe_update (\<lambda>_. None)) (heap s a))"
        and sh: "shared_state s1 = shared_state s"
        and r: "run_state (take_call_with_retry env a rpc params) s =
           (Some (Some x), snd (run_state (reconcile_pipe a fresh) s1))"
      have link: "linked (map_option transport fresh) s1" using fut [OF f] by simp
      have t: "t = snd (run_state (reconcile_pipe a fresh) s1)" using r run by simp
      have pipes: "pipe_of b t = (if b = a then fresh else None)" for b
        using others [of b] heap st unfolding t
        by (cases fresh) (auto simp: reconcile_pipe_def set_pipe_def clear_shared_state_def pipe_of_def)
      have slot: "shared_state t = (if fresh = None then None else Some a)"
        using sh shared unfolding t
        by (cases fresh) (simp_all add: reconcile_pipe_def set_pipe_def clear_shared_state_def clear_slot_def)
      have "linked (map_option transport fresh) t"
        using link unfolding t
        by (cases fresh) (simp_all add: reconcile_pipe_def set_pipe_def clear_shared_state_def linked_def)
      with pipes slot show ?thesis
        by (cases fresh) (simp_all add: conn_inv_def)
    qed
  qed
qed

subsection \<open>How much one COM call can do\<close>

fun is_flush :: "event \<Rightarrow> bool" where
  "is_flush (Pipe (PipeFlush _ _)) = True"
| "is_flush _ = False"

fun is_open :: "event \<Rightarrow> bool" where
  "is_open (Pipe (PipeOpen _ _)) = True"
| "is_open _ = False"

lemma not_pipe_counts: "not_pipe e \<Longrightarrow> \<not> is_flush e" "not_pipe e \<Longrightarrow> \<not> is_open e"
  by (cases e; simp)+

lemma call_flushes: "emits_le is_flush 1 (call env fv p rpc params)"
  unfolding emits_le_def
proof
  fix s
  have "exchange (transport p) line es out \<Longrightarrow> length (filter is_flush (map Pipe es)) \<le> 1" for line es out
    by (induction rule: exchange.induct) simp_all
  then show "length (evs is_flush (snd (run_state (call env fv p rpc params) s))) \<le> length (evs is_flush s) + 1"
    by - (rule call_run [of env p rpc params fv s]; auto simp: evs_def)
qed

lemma on_pipe_not_open: "on_pipe c e \<Longrightarrow> \<not> is_open e"
  by (cases e rule: is_open.cases) auto

lemma call_opens: "emits_le is_open 0 (call env fv p rpc params)"
  by (rule emits_le_keeps, rule emits_only_evs [OF call_only on_pipe_not_open])

lemma connect_counts: "emits_le is_flush 0 (connect env sid)" "emits_le is_open 8 (connect env sid)"
proof -
  have flush: "filter is_flush (failed_attempts sid ds es) = []"
    and opens: "length (filter is_open (failed_attempts sid ds es)) \<le> length ds" for ds es
    by (induction ds es rule: list_induct2')
      (simp_all add: failed_attempts_Cons, simp_all add: failed_attempts_def)
  have seven: "length (filter is_open (failed_attempts sid delays_ms es)) \<le> 7" for es
    using opens [of delays_ms es] by (simp add: delays_ms_def)
  have "length (evs is_flush t) = length (evs is_flush s) \<and> length (evs is_open t) \<le> length (evs is_open s) + 8"
    if "run_state (connect env sid) s = (r, t)" for r s t
    using connect_loop_run [where env = env and sid = sid and ds = delays_ms and last_err = None and s = s]
      that flush [of delays_ms] seven
    by (cases r) (auto simp: connect_def evs_def)
  then show "emits_le is_flush 0 (connect env sid)" "emits_le is_open 8 (connect env sid)"
    unfolding emits_le_def by (metis add_0_right le_refl prod.collapse)+
qed

lemma nonce_key_counts:
  "emits_le is_flush 0 (read_handshake_nonce env)" "emits_le is_open 0 (read_handshake_nonce env)"
  "emits_le is_flush 0 (get_op_sign_pub_key_bytes_for_hello env)"
  "emits_le is_open 0 (get_op_sign_pub_key_bytes_for_hello env)"
  by (rule emits_le_keeps, rule emits_only_evs [OF reg_only], metis reg_not_pipe not_pipe_counts,
      rule emits_le_keeps, rule emits_only_evs [OF reg_only], metis reg_not_pipe not_pipe_counts,
      rule emits_le_keeps, rule emits_only_evs [OF hello_key_only], metis key_event_not_pipe not_pipe_counts,
      rule emits_le_keeps, rule emits_only_evs [OF hello_key_only], metis key_event_not_pipe not_pipe_counts)

lemma emits_le_return: "emits_le P 0 (ret x)"
  by (simp add: emits_le_def)

lemma emits_le_case_prod:
  "(\<And>a b. emits_le P n (k a b)) \<Longrightarrow> emits_le P n (case p of (a, b) \<Rightarrow> k a b)"
  by (simp split: prod.split)

lemma emits_le_or_abort:
  "emits_le P a m \<Longrightarrow> (\<And>x. emits_le P b (k x)) \<Longrightarrow> a + b \<le> n \<Longrightarrow> emits_le P n (or_abort m k)"
  unfolding or_abort_def
  by (rule emits_le_bind) (auto intro: emits_le_mono emits_le_return split: option.split)

lemma handshake_counts:
  "emits_le is_flush 1 (handshake env p pkg nonce key)" "emits_le is_open 0 (handshake env p pkg nonce key)"
  unfolding handshake_def
  by (intro emits_le_case_option emits_le_bind [OF call_flushes, where b = 0]
      emits_le_bind [OF call_opens, where b = 0] emits_le_case_prod emits_le_return
      emits_le_mono [OF emits_le_return]; simp)+

lemma drop_counts: "emits_le is_flush 0 (drop_client p)" "emits_le is_open 0 (drop_client p)"
  by (simp_all add: drop_client_def emits_le_def evs_def)

lemma session_le:
  assumes connect: "emits_le P a (connect env sid)"
    and nonce: "emits_le P 0 (read_handshake_nonce env)"
    and key: "emits_le P 0 (get_op_sign_pub_key_bytes_for_hello env)"
    and hello: "\<And>p pkg n k. emits_le P b (handshake env p pkg n k)"
    and drop: "\<And>p. emits_le P 0 (drop_client p)"
  shows "emits_le P (a + b) (connect_and_handshake env sid)"
proof -
  have return: "emits_le P n (ret x)" for n x
    by (rule emits_le_mono [OF emits_le_return]) simp
  have dropped: "emits_le P n (do { drop_client p; ret x })" for n p x
    by (rule emits_le_bind [OF drop emits_le_return]) simp
  show ?thesis
    unfolding connect_and_handshake_def
    by (intro emits_le_bind [OF connect, where b = b] emits_le_case_sum return dropped
        emits_le_or_abort [OF nonce, where b = b] emits_le_bind [OF key, where b = b]
        emits_le_bind [OF hello, where b = 0] emits_le_case_prod) simp_all
qed

lemma retry_le:
  assumes call: "\<And>p. emits_le P c (call_value env p rpc params)"
    and session: "\<And>sid. emits_le P n (connect_and_handshake env sid)"
    and drop: "\<And>p. emits_le P 0 (drop_client p)"
  shows "emits_le P (c + n + c) (take_call_with_retry env a rpc params)"
proof -
  have return: "emits_le P n (ret x)" for n x
    by (rule emits_le_mono [OF emits_le_return]) simp
  have set: "emits_le P n (set_pipe a p)" for n p
    by (rule emits_le_keeps) (simp add: set_pipe_def keeps_evs_modify)
  have take: "emits_le P 0 (take_pipe a)"
    unfolding take_pipe_def
    by (rule emits_le_keeps)
      (intro keeps_bind keeps_gets keeps_return, simp add: set_pipe_def keeps_evs_modify)
  have clear: "emits_le P n clear_shared_state" for n
    by (rule emits_le_keeps) (simp add: clear_shared_state_def keeps_evs_modify)
  have future: "emits_le P (c + n + c) (call_or_reconnect env sid p rpc params)" for sid p
    unfolding call_or_reconnect_def
    by (intro emits_le_bind [OF call, where b = "n + c"] emits_le_case_prod emits_le_case_sum
        emits_le_if return emits_le_bind [OF drop, where b = "n + c"]
        emits_le_or_abort [OF session, where b = c] emits_le_bind [OF call, where b = 0]) simp_all
  have sid: "emits_le P 0 (gets (session_of a))"
    by (rule emits_le_keeps) (rule keeps_gets)
  show ?thesis
    unfolding take_call_with_retry_def reconcile_pipe_def
    by (intro emits_le_bind [OF take, where b = "c + n + c"] emits_le_case_option return
        emits_le_bind [OF sid, where b = "c + n + c"] emits_le_or_abort [OF future, where b = 0]
        emits_le_case_prod emits_le_bind [where a = 0 and b = 0] set clear) simp_all
qed

text \<open>
  C24. One COM call cannot keep the pipe busy without bound: a retrying call sends at most
  three requests (the call, the handshake of a reconnection and the one repetition) and makes
  at most eight attempts to open the pipe.
\<close>

theorem retry_bounds:
  "emits_le is_flush 3 (take_call_with_retry env a rpc params) \<and>
   emits_le is_open 8 (take_call_with_retry env a rpc params)"
proof
  have "emits_le is_flush (0 + 1) (connect_and_handshake env sid)" for sid
    by (rule session_le) (rule connect_counts nonce_key_counts handshake_counts drop_counts)+
  from retry_le [OF call_flushes this drop_counts(1)]
  show "emits_le is_flush 3 (take_call_with_retry env a rpc params)" by (simp add: numeral_3_eq_3)
  have "emits_le is_open (8 + 0) (connect_and_handshake env sid)" for sid
    by (rule session_le) (rule connect_counts nonce_key_counts handshake_counts drop_counts)+
  from retry_le [OF call_opens this drop_counts(2)]
  show "emits_le is_open 8 (take_call_with_retry env a rpc params)" by simp
qed

end
