(* ===== verification/Uv_Bindings.thy ===== *)
theory Uv_Bindings
  imports Op_Sign_Key
begin

text \<open>
  \<open>com/webauthn_ext.rs\<close>, \<open>com/uv_fallback.rs\<close> and \<open>com/uv_override.rs\<close>: the bindings of
  \<open>webauthn.dll\<close> resolved once per process, and user verification with its fall back from the
  second to the first entry point.
\<close>

subsection \<open>The override and the fall-back decision\<close>

definition force_v1_enabled :: "env \<Rightarrow> bool" where
  "force_v1_enabled env =
     (case oe_var (os env) ''KEEPASSKEYWIN_FORCE_UV_V1'' of
        Some v \<Rightarrow> to_ascii_lowercase (trim v) \<in> {''1'', ''true'', ''yes''}
      | None \<Rightarrow> False)"

definition should_fallback_to_v1 :: "hresult \<Rightarrow> bool" where
  "should_fallback_to_v1 v2_hr = (v2_hr = 0x80004001)"

definition observe_v2_result :: "hresult \<Rightarrow> unit m" where
  "observe_v2_result hr =
     (if should_fallback_to_v1 hr
      then modify (uv_cache_update (map_option (map_sum id (v2_unimplemented_update (\<lambda>_. True)))))
      else ret ())"

fun ipc_str :: "UvTier \<Rightarrow> string" where
  "ipc_str V2Stable = ''v2_stable''"
| "ipc_str V2Experimental = ''v2_experimental''"
| "ipc_str V1 = ''v1''"

subsection \<open>Resolving the entry points\<close>

fun quoted_list :: "string list \<Rightarrow> string" where
  "quoted_list names = ''['' @ join '', '' (map (\<lambda>n. CHR 0x22 # n @ [CHR 0x22]) names) @ '']''"

definition get_proc :: "env \<Rightarrow> string list \<Rightarrow> string + string" where
  "get_proc env names =
     (case find (de_exports (dll env)) names of
        Some display \<Rightarrow> Ok display
      | None \<Rightarrow> Err (''GetProcAddress failed for all of '' @ quoted_list names @ '' '' @ em_dash @
          '' webauthn.dll on this build does not export any of them. Requires Win11 24H2 '' @
          ''26100.6725+ (KB5068861, Nov 2025) with the plugin-passkey provider API.''))"

text \<open>The stable name first, then the experimental one.\<close>

definition plugin_names :: "string \<Rightarrow> string list" where
  "plugin_names n = [''WebAuthNPlugin'' @ n, ''EXPERIMENTAL_WebAuthNPlugin'' @ n]"

abbreviation "UV1 \<equiv> ''WebAuthNPluginPerformUserVerification''"
abbreviation "UV2 \<equiv> ''WebAuthNPluginPerformUserVerification2''"
abbreviation "UV2_EXP \<equiv> ''EXPERIMENTAL_WebAuthNPluginPerformUserVerification2''"

definition resolve_v2 :: "env \<Rightarrow> string option \<times> UvTier \<times> string" where
  "resolve_v2 env =
     (if force_v1_enabled env then (None, V1, UV1)
      else (case try_get_proc env UV2 of
              Some p \<Rightarrow> (Some p, V2Stable, UV2)
            | None \<Rightarrow>
                (case try_get_proc env UV2_EXP of
                   Some p \<Rightarrow> (Some p, V2Experimental, UV2_EXP)
                 | None \<Rightarrow> (None, V1, UV1))))"

definition load_bindings :: "env \<Rightarrow> (string + WebauthnBindings) m" where
  "load_bindings env = do {
     hmod \<leftarrow> load_webauthn env;
     ret (case hmod of Err e \<Rightarrow> Err e | Ok _ \<Rightarrow>
       (case get_proc env (plugin_names ''AddAuthenticator'') of Err e \<Rightarrow> Err e | Ok add \<Rightarrow>
       (case get_proc env (plugin_names ''RemoveAuthenticator'') of Err e \<Rightarrow> Err e | Ok rem \<Rightarrow>
       (case get_proc env (plugin_names ''FreeAddAuthenticatorResponse'') of Err e \<Rightarrow> Err e | Ok free \<Rightarrow>
       (case get_proc env (plugin_names ''PerformUserVerification'') of Err e \<Rightarrow> Err e | Ok uv \<Rightarrow>
        let (v2, tier, v2_name) = resolve_v2 env in
       (case get_proc env (plugin_names ''FreeUserVerificationResponse'') of Err e \<Rightarrow> Err e | Ok free_uv \<Rightarrow>
          Ok \<lparr>wb_add = add, wb_remove = rem, wb_free_response = free, perform_uv = uv,
              perform_uv_v2 = v2, perform_uv_tier = tier, free_uv_response = free_uv,
              v2_unimplemented = False, add_symbol_name = add,
              perform_uv_symbol_name = v2_name\<rparr>))))))
   }"

definition bindings :: "env \<Rightarrow> (string + WebauthnBindings) m" where
  "bindings env = get_or_init uv_cache (\<lambda>x. uv_cache_update (\<lambda>_. Some x)) (load_bindings env)"

definition resolved_add_symbol_name :: "env \<Rightarrow> string option m" where
  "resolved_add_symbol_name env = do {
     _ \<leftarrow> bindings env;
     gets (\<lambda>s. case uv_cache s of Some (Ok b) \<Rightarrow> Some (add_symbol_name b) | _ \<Rightarrow> None)
   }"

definition resolved_perform_uv_symbol_name :: "env \<Rightarrow> string option m" where
  "resolved_perform_uv_symbol_name env = do {
     _ \<leftarrow> bindings env;
     gets (\<lambda>s. case uv_cache s of Some (Ok b) \<Rightarrow> Some (perform_uv_symbol_name b) | _ \<Rightarrow> None)
   }"

subsection \<open>Calling through the bindings\<close>

definition add_authenticator ::
  "env \<Rightarrow> WebauthnPluginAddAuthenticatorOptions \<Rightarrow> (string + hresult \<times> nat option) m" where
  "add_authenticator env opts = do {
     b \<leftarrow> bindings env;
     (case b of
        Err e \<Rightarrow> ret (Err e)
      | Ok b \<Rightarrow> do {
          r \<leftarrow> ask (\<lambda>h. de_add_authenticator (dll env) h opts)
             (\<lambda>r. Dll (AddAuthenticator (wb_add b) opts r));
          ret (Ok r)
        })
   }"

definition remove_authenticator :: "env \<Rightarrow> Guid \<Rightarrow> (string + hresult) m" where
  "remove_authenticator env clsid = do {
     b \<leftarrow> bindings env;
     (case b of
        Err e \<Rightarrow> ret (Err e)
      | Ok b \<Rightarrow> do {
          r \<leftarrow> ask (\<lambda>h. de_remove_authenticator (dll env) h clsid)
             (\<lambda>r. Dll (RemoveAuthenticator (wb_remove b) clsid r));
          ret (Ok r)
        })
   }"

definition free_add_authenticator_response :: "env \<Rightarrow> nat option \<Rightarrow> unit m" where
  "free_add_authenticator_response env p_response =
     (case p_response of
        None \<Rightarrow> ret ()
      | Some p \<Rightarrow> do {
          b \<leftarrow> bindings env;
          (case b of Ok _ \<Rightarrow> emit (Dll (FreeAddResponse p)) | Err _ \<Rightarrow> ret ())
        })"

definition free_user_verification_response :: "env \<Rightarrow> dll_buf \<Rightarrow> unit m" where
  "free_user_verification_response env pb_response =
     (case pb_response of
        None \<Rightarrow> ret ()
      | Some (p, _) \<Rightarrow> do {
          b \<leftarrow> bindings env;
          (case b of Ok _ \<Rightarrow> emit (Dll (UvFree p)) | Err _ \<Rightarrow> ret ())
        })"

text \<open>
  The two out-parameters are passed by their current values and returned with the values they
  have after the call.
\<close>

definition written :: "'a \<Rightarrow> 'a option \<Rightarrow> 'a" where
  "written old out = (case out of Some x \<Rightarrow> x | None \<Rightarrow> old)"

definition invoke_v1 ::
  "env \<Rightarrow> WebauthnBindings \<Rightarrow> uv_request \<Rightarrow> u32 \<Rightarrow> dll_buf \<Rightarrow> (hresult \<times> u32 \<times> dll_buf) m" where
  "invoke_v1 env b req cb pp = do {
     (hr, cb_out, pp_out) \<leftarrow> ask (\<lambda>h. de_uv1 (dll env) h (perform_uv b) req)
        (\<lambda>r. Dll (UvCall1 (perform_uv b) req r));
     ret (hr, written cb cb_out, written pp pp_out)
   }"

definition perform_user_verification_2 ::
  "env \<Rightarrow> uv_request \<Rightarrow> bytes \<Rightarrow> u32 \<Rightarrow> dll_buf \<Rightarrow>
   ((string + hresult \<times> UvTier) \<times> u32 \<times> dll_buf) m" where
  "perform_user_verification_2 env req buffer_to_sign cb pp = do {
     b \<leftarrow> bindings env;
     (case b of
        Err e \<Rightarrow> ret (Err e, cb, pp)
      | Ok b \<Rightarrow>
          (case perform_uv_v2 b of
             None \<Rightarrow> do {
               (hr, cb, pp) \<leftarrow> invoke_v1 env b req cb pp;
               ret (Ok (hr, V1), cb, pp)
             }
           | Some pfn_v2 \<Rightarrow>
               if v2_unimplemented b then do {
                 (hr, cb, pp) \<leftarrow> invoke_v1 env b req cb pp;
                 ret (Ok (hr, V1), cb, pp)
               } else do {
                 (hr, cb_out, pp_out) \<leftarrow>
                   ask (\<lambda>h. de_uv2 (dll env) h pfn_v2 req buffer_to_sign)
                     (\<lambda>r. Dll (UvCall2 pfn_v2 req (of_nat (length buffer_to_sign)) buffer_to_sign r));
                 let cb = written cb cb_out;
                 let pp = written pp pp_out;
                 observe_v2_result hr;
                 (if should_fallback_to_v1 hr then do {
                    (cb, pp) \<leftarrow>
                      (if pp = None then ret (cb, pp) else do {
                         free_user_verification_response env pp;
                         ret (0, None)
                       });
                    (v1_hr, cb, pp) \<leftarrow> invoke_v1 env b req cb pp;
                    ret (Ok (v1_hr, V1), cb, pp)
                  } else ret (Ok (hr, perform_uv_tier b), cb, pp))
               }))
   }"

subsection \<open>Frames\<close>

lemma load_bindings_frame:
  "(\<And>s tr. f (s\<lparr>trace := tr\<rparr>) = f s) \<Longrightarrow> keeps f (load_bindings env)"
  unfolding load_bindings_def load_webauthn_def by (intro frame)

fun is_load :: "event \<Rightarrow> bool" where
  "is_load (Dll (LoadLib _)) = True"
| "is_load _ = False"

lemma load_bindings_only: "emits_only is_load (load_bindings env)"
  unfolding load_bindings_def load_webauthn_def by (intro only) simp

interpretation uv_cell: once_cell uv_cache "\<lambda>x. uv_cache_update (\<lambda>_. Some x)" "load_bindings env"
  for env
  by unfold_locales (simp_all add: load_bindings_frame)

lemma bindings_only: "emits_only is_load (bindings env)"
  unfolding bindings_def by (rule uv_cell.only_init) (rule load_bindings_only)

lemma bindings_cached: "uv_cache s = Some r \<Longrightarrow> run_state (bindings env) s = (r, s)"
  by (simp add: bindings_def uv_cell.full)

lemma bindings_filled: "run_state (bindings env) s = (r, t) \<Longrightarrow> uv_cache t = Some r"
  unfolding bindings_def by (rule uv_cell.filled)

lemma bindings_frame:
  "(\<And>s tr. f (s\<lparr>trace := tr\<rparr>) = f s) \<Longrightarrow> (\<And>s x. f (s\<lparr>uv_cache := x\<rparr>) = f s) \<Longrightarrow>
   keeps f (bindings env)"
  unfolding bindings_def by (rule uv_cell.frame_cell) (simp_all add: load_bindings_frame)

subsection \<open>User verification\<close>

fun is_uv :: "event \<Rightarrow> bool" where
  "is_uv (Dll (UvCall1 _ _ _)) = True"
| "is_uv (Dll (UvCall2 _ _ _ _ _)) = True"
| "is_uv (Dll (UvFree _)) = True"
| "is_uv _ = False"

fun is_v2 :: "event \<Rightarrow> bool" where
  "is_v2 (Dll (UvCall2 _ _ _ _ _)) = True"
| "is_v2 _ = False"

fun v2_not_impl :: "event \<Rightarrow> bool" where
  "v2_not_impl (Dll (UvCall2 _ _ _ _ (hr, _, _))) = (hr = E_NOTIMPL)"
| "v2_not_impl _ = False"

lemma load_not_uv: "is_load e \<Longrightarrow> \<not> is_uv e"
  by (cases e rule: is_load.cases) auto

lemma bindings_uv: "keeps (evs is_uv) (bindings env)"
  by (rule emits_only_evs [OF bindings_only load_not_uv])

text \<open>The ways one verification can go, by the calls it makes and what the caller receives.\<close>

inductive uv_attempt ::
  "u32 \<Rightarrow> dll_buf \<Rightarrow> event list \<Rightarrow> hresult \<Rightarrow> UvTier \<Rightarrow> u32 \<Rightarrow> dll_buf \<Rightarrow> bool" for cb0 pp0 where
  v1_only:
    "uv_attempt cb0 pp0 [Dll (UvCall1 f req (hr, c, p))] hr V1 (written cb0 c) (written pp0 p)"
| v2_answers:
    "hr \<noteq> E_NOTIMPL \<Longrightarrow> tier \<noteq> V1 \<Longrightarrow>
     uv_attempt cb0 pp0 [Dll (UvCall2 f req n buf (hr, c, p))] hr tier (written cb0 c) (written pp0 p)"
| v2_absent:
    "written pp0 p2 = None \<Longrightarrow>
     uv_attempt cb0 pp0
       [Dll (UvCall2 f2 req n buf (E_NOTIMPL, c2, p2)), Dll (UvCall1 f req (hr, c, p))]
       hr V1 (written (written cb0 c2) c) (written None p)"
| v2_absent_freed:
    "written pp0 p2 = Some (q, d) \<Longrightarrow>
     uv_attempt cb0 pp0
       [Dll (UvCall2 f2 req n buf (E_NOTIMPL, c2, p2)), Dll (UvFree q), Dll (UvCall1 f req (hr, c, p))]
       hr V1 (written 0 c) (written None p)"

inductive_cases uv_attemptE: "uv_attempt cb0 pp0 es hr tier cb pp"

text \<open>
  The bindings in the cache are consistent: a second entry point is bound exactly when the
  tier says so. The latch: after a second entry point that is not implemented, the cache says
  so and no second entry point was called again.
\<close>

definition uv_wf :: "(string + WebauthnBindings) option \<Rightarrow> bool" where
  "uv_wf c = (case c of Some (Ok b) \<Rightarrow> (perform_uv_v2 b = None \<longleftrightarrow> perform_uv_tier b = V1) | _ \<Rightarrow> True)"

fun v2_quiet :: "event list \<Rightarrow> bool" where
  "v2_quiet [] = True"
| "v2_quiet (e # es) = ((v2_not_impl e \<longrightarrow> filter is_v2 es = []) \<and> v2_quiet es)"

definition latched :: "(string + WebauthnBindings) option \<Rightarrow> bool" where
  "latched c = (case c of Some (Ok b) \<Rightarrow> v2_unimplemented b | _ \<Rightarrow> False)"

definition uv_inv :: "proc \<Rightarrow> bool" where
  "uv_inv s = (uv_wf (uv_cache s) \<and> v2_quiet (evs is_uv s) \<and>
     (filter v2_not_impl (evs is_uv s) \<noteq> [] \<longrightarrow> latched (uv_cache s)))"

lemma uv_inv_wf: "uv_inv s \<Longrightarrow> uv_wf (uv_cache s)"
  by (simp add: uv_inv_def)

lemma v2_quiet_append:
  "v2_quiet (xs @ ys) \<longleftrightarrow>
     v2_quiet xs \<and> v2_quiet ys \<and> (filter v2_not_impl xs \<noteq> [] \<longrightarrow> filter is_v2 ys = [])"
  by (induction xs) auto

lemma load_bindings_wf: "uv_wf (Some (fst (run_state (load_bindings env) s)))"
  by (auto simp: load_bindings_def load_webauthn_def resolve_v2_def try_get_proc_def uv_wf_def
      split: sum.splits option.splits if_splits)

lemma bindings_inv: "ensures uv_inv (bindings env) (\<lambda>r t. uv_inv t \<and> uv_cache t = Some r)"
proof (rule ensuresI)
  fix s r t assume inv: "uv_inv s" and run: "run_state (bindings env) s = (r, t)"
  have evs: "evs is_uv t = evs is_uv s"
    using keepsD [OF bindings_uv run] .
  have cached: "uv_cache t = Some r" by (rule bindings_filled [OF run])
  show "uv_inv t \<and> uv_cache t = Some r"
  proof (cases "uv_cache s")
    case (Some r')
    with run inv cached show ?thesis by (simp add: bindings_cached)
  next
    case None
    then have "r = fst (run_state (load_bindings env) s)"
      using run by (simp add: bindings_def uv_cell.empty split: prod.splits)
    then have "uv_wf (Some r)" by (simp add: load_bindings_wf)
    with inv None evs cached show ?thesis by (simp add: uv_inv_def latched_def)
  qed
qed

lemma perform_attempt:
  assumes cache: "uv_cache s = Some (Ok b)" and wf: "uv_wf (uv_cache s)"
  shows "\<exists>hr tier es cb pp t.
    run_state (perform_user_verification_2 env req buf cb0 pp0) s = ((Ok (hr, tier), cb, pp), t) \<and>
    uv_attempt cb0 pp0 es hr tier cb pp \<and> trace t = trace s @ es \<and>
    (if filter is_v2 es = [] then t = s\<lparr>trace := trace s @ es\<rparr> else
     \<not> v2_unimplemented b \<and>
     uv_cache t = Some (Ok (if filter v2_not_impl es = [] then b else b\<lparr>v2_unimplemented := True\<rparr>)))"
proof (cases "perform_uv_v2 b = None \<or> v2_unimplemented b")
  case True
  let ?req = "\<lambda>h. de_uv1 (dll env) h (perform_uv b) req"
  obtain hr c p where r: "?req (trace s) = (hr, c, p)" by (metis prod_cases3)
  have run: "run_state (perform_user_verification_2 env req buf cb0 pp0) s =
      ((Ok (hr, V1), written cb0 c, written pp0 p),
       s\<lparr>trace := trace s @ [Dll (UvCall1 (perform_uv b) req (hr, c, p))]\<rparr>)"
    using True r cache
    by (auto simp: perform_user_verification_2_def bindings_cached invoke_v1_def split: option.split)
  show ?thesis
    by (intro exI conjI, rule run) (auto intro: uv_attempt.intros)
next
  case False
  then obtain f2 where f2: "perform_uv_v2 b = Some f2" and un: "\<not> v2_unimplemented b" by auto
  have tier: "perform_uv_tier b \<noteq> V1" using f2 wf cache by (simp add: uv_wf_def)
  let ?call2 = "\<lambda>r. Dll (UvCall2 f2 req (of_nat (length buf)) buf r)"
  obtain hr2 c2 p2 where r2: "de_uv2 (dll env) (trace s) f2 req buf = (hr2, c2, p2)"
    by (metis prod_cases3)
  show ?thesis
  proof (cases "hr2 = E_NOTIMPL")
    case False
    then have run: "run_state (perform_user_verification_2 env req buf cb0 pp0) s =
        ((Ok (hr2, perform_uv_tier b), written cb0 c2, written pp0 p2),
         s\<lparr>trace := trace s @ [?call2 (hr2, c2, p2)]\<rparr>)"
      using cache f2 un r2
      by (simp add: perform_user_verification_2_def bindings_cached observe_v2_result_def
          should_fallback_to_v1_def)
    show ?thesis
      by (intro exI conjI, rule run)
        (use False tier un cache in \<open>auto intro: uv_attempt.intros\<close>)
  next
    case True
    let ?b = "b\<lparr>v2_unimplemented := True\<rparr>"
    define frees where "frees = (case written pp0 p2 of None \<Rightarrow> [] | Some (q, d) \<Rightarrow> [Dll (UvFree q)])"
    let ?h = "trace s @ ?call2 (E_NOTIMPL, c2, p2) # frees"
    obtain hr c p where r: "de_uv1 (dll env) ?h (perform_uv b) req = (hr, c, p)"
      by (metis prod_cases3)
    let ?es = "?call2 (E_NOTIMPL, c2, p2) # frees @ [Dll (UvCall1 (perform_uv b) req (hr, c, p))]"
    let ?cb = "if written pp0 p2 = None then written cb0 c2 else 0"
    have run: "run_state (perform_user_verification_2 env req buf cb0 pp0) s =
        ((Ok (hr, V1), written ?cb c, written None p),
         s\<lparr>uv_cache := Some (Ok ?b), trace := trace s @ ?es\<rparr>)"
      using cache f2 un r2 True r
      by (auto simp: perform_user_verification_2_def bindings_cached observe_v2_result_def
          should_fallback_to_v1_def free_user_verification_response_def invoke_v1_def frees_def
          split: option.splits)
    have "uv_attempt cb0 pp0 ?es hr V1 (written ?cb c) (written None p)"
      by (cases "written pp0 p2") (auto simp: frees_def intro: uv_attempt.intros)
    then show ?thesis
      using un by - (intro exI conjI, rule run, auto)
  qed
qed

lemma perform_loaded:
  assumes "run_state (bindings env) s = (r, t)"
  shows "run_state (perform_user_verification_2 env req buf cb pp) s =
    (case r of Err e \<Rightarrow> ((Err e, cb, pp), t)
     | Ok _ \<Rightarrow> run_state (perform_user_verification_2 env req buf cb pp) t)"
  using assms bindings_cached [OF bindings_filled [OF assms]]
  by (simp add: perform_user_verification_2_def split: sum.splits)

lemma perform_run:
  assumes "uv_inv s"
  obtains (unbound) e t where
      "run_state (perform_user_verification_2 env req buf cb0 pp0) s = ((Err e, cb0, pp0), t)"
      "evs is_uv t = evs is_uv s"
  | (bound) hr tier es cb pp t b where
      "run_state (perform_user_verification_2 env req buf cb0 pp0) s = ((Ok (hr, tier), cb, pp), t)"
      "uv_attempt cb0 pp0 es hr tier cb pp" "evs is_uv t = evs is_uv s @ es"
      "uv_cache t = Some (Ok b)"
proof -
  obtain r s1 where run: "run_state (bindings env) s = (r, s1)" by fastforce
  note loaded = perform_loaded [OF run]
  have s1: "uv_inv s1" "uv_cache s1 = Some r"
    using ensuresD [OF bindings_inv assms run] by simp_all
  have evs: "evs is_uv s1 = evs is_uv s" by (rule keepsD [OF bindings_uv run])
  show thesis
  proof (cases r)
    case (Inl e)
    with loaded evs show thesis by (intro unbound [of e s1]) simp_all
  next
    case (Inr b)
    obtain hr tier es cb pp t where
        attempt: "run_state (perform_user_verification_2 env req buf cb0 pp0) s1 = ((Ok (hr, tier), cb, pp), t)"
        "uv_attempt cb0 pp0 es hr tier cb pp" "trace t = trace s1 @ es"
        "if filter is_v2 es = [] then t = s1\<lparr>trace := trace s1 @ es\<rparr> else
         \<not> v2_unimplemented b \<and>
         uv_cache t = Some (Ok (if filter v2_not_impl es = [] then b else b\<lparr>v2_unimplemented := True\<rparr>))"
      using perform_attempt [of s1 b env req buf cb0 pp0] s1(2) Inr uv_inv_wf [OF s1(1)] by blast
    have "list_all is_uv es"
      using attempt(2) by (cases rule: uv_attempt.cases) simp_all
    then have "evs is_uv t = evs is_uv s @ es"
      using attempt(3) evs by (simp add: evs_def list_all_iff filter_id_conv)
    moreover have "\<exists>b. uv_cache t = Some (Ok b)"
      using attempt(4) s1(2) Inr by (auto split: if_splits)
    ultimately show thesis
      using attempt loaded Inr bound by auto
  qed
qed

text \<open>
  C4. What the dispatcher is told about user verification is what happened. When the DLL
  could not be bound, nothing was called. Otherwise one of four things happened: the first
  entry point alone answered; the second alone answered, not with \<open>E_NOTIMPL\<close>, and its answer,
  a cancellation included, is the result, with no second prompt; or the second answered
  \<open>E_NOTIMPL\<close> and the first was called after the buffer of the second, if it wrote one, was
  freed. The HRESULT, the tier and the buffer returned are those of the last call.
\<close>

theorem uv_outcome:
  assumes "uv_inv s"
  shows "case run_state (perform_user_verification_2 env req buf cb0 pp0) s of
    ((r, cb, pp), t) \<Rightarrow>
      (case r of
         Err e \<Rightarrow> evs is_uv t = evs is_uv s \<and> cb = cb0 \<and> pp = pp0
       | Ok (hr, tier) \<Rightarrow>
           \<exists>es. uv_attempt cb0 pp0 es hr tier cb pp \<and> evs is_uv t = evs is_uv s @ es)"
  by (rule perform_run [OF assms, of env req buf cb0 pp0]) auto

theorem uv_outcome_witness:
  "case run_state (perform_user_verification_2 sample_env
      \<lparr>uv_hwnd = 0, uv_txid = CLSID_GUID, uv_user = [0], uv_hint = [0]\<rparr> [] 0 None) init_proc of
    ((r, cb, pp), t) \<Rightarrow>
      (case r of
         Err e \<Rightarrow> evs is_uv t = evs is_uv init_proc \<and> cb = 0 \<and> pp = None
       | Ok (hr, tier) \<Rightarrow>
           \<exists>es. uv_attempt 0 None es hr tier cb pp \<and> evs is_uv t = evs is_uv init_proc @ es)"
  by (rule uv_outcome) (simp add: uv_inv_def uv_wf_def evs_def init_proc_def)

lemma attempt_filters:
  "uv_attempt cb0 pp0 es hr tier cb pp \<Longrightarrow>
     list_all is_uv es \<and> v2_quiet es \<and> (filter is_v2 es = [] \<longrightarrow> filter v2_not_impl es = [])"
  by (cases rule: uv_attempt.cases, assumption) simp_all

lemma perform_inv: "ensures uv_inv (perform_user_verification_2 env req buf cb0 pp0) (\<lambda>_. uv_inv)"
proof (rule ensuresI)
  fix s res t
  assume inv: "uv_inv s" and run: "run_state (perform_user_verification_2 env req buf cb0 pp0) s = (res, t)"
  obtain r s1 where b: "run_state (bindings env) s = (r, s1)" by fastforce
  have s1: "uv_inv s1" "uv_cache s1 = Some r"
    using ensuresD [OF bindings_inv inv b] by simp_all
  show "uv_inv t"
  proof (cases r)
    case (Inl e)
    with run perform_loaded [OF b] s1 show ?thesis by simp
  next
    case (Inr bs)
    obtain hr tier es cb pp where attempt: "uv_attempt cb0 pp0 es hr tier cb pp"
      and tr: "trace t = trace s1 @ es"
      and upd: "if filter is_v2 es = [] then t = s1\<lparr>trace := trace s1 @ es\<rparr> else
        \<not> v2_unimplemented bs \<and>
        uv_cache t = Some (Ok (if filter v2_not_impl es = [] then bs else bs\<lparr>v2_unimplemented := True\<rparr>))"
      using perform_attempt [of s1 bs env req buf cb0 pp0] s1(2) uv_inv_wf [OF s1(1)] Inr
        perform_loaded [OF b, of req buf cb0 pp0] run by auto
    note fs = attempt_filters [OF attempt]
    have evs: "evs is_uv t = evs is_uv s1 @ es"
      using fs tr by (simp add: evs_def list_all_iff filter_id_conv)
    show ?thesis
    proof (cases "filter is_v2 es = []")
      case True
      with upd fs evs s1 show ?thesis by (auto simp: uv_inv_def v2_quiet_append)
    next
      case False
      with upd fs evs s1 Inr show ?thesis
        by (auto simp: uv_inv_def v2_quiet_append latched_def uv_wf_def)
    qed
  qed
qed

text \<open>What user verification leaves alone.\<close>

fun is_uv_event :: "event \<Rightarrow> bool" where
  "is_uv_event (Dll (LoadLib _)) = True"
| "is_uv_event (Dll (UvCall1 _ _ _)) = True"
| "is_uv_event (Dll (UvCall2 _ _ _ _ _)) = True"
| "is_uv_event (Dll (UvFree _)) = True"
| "is_uv_event _ = False"

lemma bindings_only_uv: "emits_only is_uv_event (bindings env)"
  by (rule emits_only_mono [OF bindings_only]) (auto elim: is_load.elims)

lemma free_uv_only: "emits_only is_uv_event (free_user_verification_response env pb)"
  unfolding free_user_verification_response_def
  by (auto intro!: only bindings_only_uv split: option.split sum.split)

lemma free_uv_frame:
  "(\<And>s tr. f (s\<lparr>trace := tr\<rparr>) = f s) \<Longrightarrow> (\<And>s x. f (s\<lparr>uv_cache := x\<rparr>) = f s) \<Longrightarrow>
   keeps f (free_user_verification_response env pb)"
  unfolding free_user_verification_response_def
  by (auto intro!: frame bindings_frame split: option.split sum.split)

lemma perform_only: "emits_only is_uv_event (perform_user_verification_2 env req buf cb pp)"
  unfolding perform_user_verification_2_def Let_def invoke_v1_def observe_v2_result_def
  by (intro only bindings_only_uv free_uv_only emits_only_modify) simp_all

lemma perform_frame:
  assumes "\<And>s tr. f (s\<lparr>trace := tr\<rparr>) = f s" and "\<And>s x. f (s\<lparr>uv_cache := x\<rparr>) = f s"
  shows "keeps f (perform_user_verification_2 env req buf cb pp)"
proof -
  have "f (uv_cache_update g s) = f s" for g s
  proof -
    have eq: "uv_cache_update g s = s\<lparr>uv_cache := g (uv_cache s)\<rparr>" by (cases s) simp
    show ?thesis by (simp only: eq assms(2))
  qed
  then show ?thesis
    unfolding perform_user_verification_2_def Let_def invoke_v1_def observe_v2_result_def
    by (intro frame bindings_frame free_uv_frame keeps_modify assms)
qed

lemma free_uv_inv: "ensures uv_inv (free_user_verification_response env pb) (\<lambda>_. uv_inv)"
proof -
  have "uv_inv (s\<lparr>trace := trace s @ [Dll (UvFree p)]\<rparr>)" if "uv_inv s" for s p
    using that by (simp add: uv_inv_def v2_quiet_append evs_def)
  then show ?thesis
    unfolding free_user_verification_response_def
    by (intro ensures_case_option ensures_return)
      (auto intro!: ensures_bind [OF bindings_inv] wp split: prod.split sum.split)
qed

end
