(* ===== verification/Cred_Bindings.thy ===== *)
theory Cred_Bindings
  imports Op_Sign_Key
begin

text \<open>
  \<open>com/webauthnplugin_ext.rs\<close>: the credential-management calls of \<open>webauthn.dll\<close>, bound once
  per process. Only \<open>AddCredentials\<close> is required; the other three are optional, each on its
  own.
\<close>

abbreviation "ADD_CREDENTIALS \<equiv> ''WebAuthNPluginAuthenticatorAddCredentials''"
abbreviation "GET_ALL_CREDENTIALS \<equiv> ''WebAuthNPluginAuthenticatorGetAllCredentials''"
abbreviation "REMOVE_CREDENTIALS \<equiv> ''WebAuthNPluginAuthenticatorRemoveCredentials''"
abbreviation "FREE_CREDENTIAL_ARRAY \<equiv> ''WebAuthNPluginAuthenticatorFreeCredentialDetailsArray''"

definition load_cred_bindings :: "env \<Rightarrow> (string + CredBindings) m" where
  "load_cred_bindings env = do {
     hmod \<leftarrow> load_webauthn env;
     ret (case hmod of Err e \<Rightarrow> Err e | Ok _ \<Rightarrow>
       (case try_get_proc env ADD_CREDENTIALS of
          None \<Rightarrow> Err (''GetProcAddress('' @ ADD_CREDENTIALS @ '') failed '' @ em_dash @
            '' webauthn.dll on this build lacks the credential-management API. '' @
            ''Requires Win11 24H2 26100.6725+ (KB5068861, Nov 2025).'')
        | Some add \<Rightarrow> Ok
            \<lparr>cb_add = add,
             cb_get_all = try_get_proc env GET_ALL_CREDENTIALS,
             cb_remove = try_get_proc env REMOVE_CREDENTIALS,
             cb_free_array = try_get_proc env FREE_CREDENTIAL_ARRAY\<rparr>))
   }"

definition cred_bindings :: "env \<Rightarrow> (string + CredBindings) m" where
  "cred_bindings env =
     get_or_init cred_cache (\<lambda>x. cred_cache_update (\<lambda>_. Some x)) (load_cred_bindings env)"

definition add_credentials :: "env \<Rightarrow> WebauthnPluginCredentialDetails \<Rightarrow> (string + hresult) m" where
  "add_credentials env details = do {
     b \<leftarrow> cred_bindings env;
     (case b of
        Err e \<Rightarrow> ret (Err e)
      | Ok b \<Rightarrow> do {
          hr \<leftarrow> ask (\<lambda>h. de_add_credentials (dll env) h details) (\<lambda>r. Dll (AddCredentials details r));
          ret (Ok hr)
        })
   }"

type_synonym os_array = "(nat \<times> os_credential list) option"

definition get_all_credentials :: "env \<Rightarrow> (string + u32 \<times> os_array) m" where
  "get_all_credentials env = do {
     b \<leftarrow> cred_bindings env;
     (case b of
        Err e \<Rightarrow> ret (Err e)
      | Ok b \<Rightarrow>
          (case cb_get_all b of
             None \<Rightarrow> ret (Err (GET_ALL_CREDENTIALS @ '' not exported by webauthn.dll on this build''))
           | Some _ \<Rightarrow> do {
               (hr, count, arr) \<leftarrow> ask (de_get_all (dll env)) (\<lambda>r. Dll (GetAllCredentials r));
               ret (if hr_is_err hr then Err (''GetAllCredentials failed: 0x'' @ hex08 hr)
                    else Ok (case count of Some n \<Rightarrow> n | None \<Rightarrow> 0, case arr of Some a \<Rightarrow> a | None \<Rightarrow> None))
             }))
   }"

definition remove_credentials :: "env \<Rightarrow> os_credential \<Rightarrow> (string + hresult) m" where
  "remove_credentials env detail = do {
     b \<leftarrow> cred_bindings env;
     (case b of
        Err e \<Rightarrow> ret (Err e)
      | Ok b \<Rightarrow>
          (case cb_remove b of
             None \<Rightarrow> ret (Err (REMOVE_CREDENTIALS @ '' not exported by webauthn.dll on this build''))
           | Some _ \<Rightarrow> do {
               hr \<leftarrow> ask (\<lambda>h. de_remove_credentials (dll env) h detail) (\<lambda>r. Dll (RemoveCredentials detail r));
               ret (Ok hr)
             }))
   }"

definition free_credential_details_array :: "env \<Rightarrow> u32 \<Rightarrow> os_array \<Rightarrow> unit m" where
  "free_credential_details_array env count arr =
     (if count = 0 then ret ()
      else (case arr of
              None \<Rightarrow> ret ()
            | Some (p, _) \<Rightarrow> do {
                b \<leftarrow> cred_bindings env;
                (case b of
                   Err _ \<Rightarrow> ret ()
                 | Ok b \<Rightarrow>
                     (case cb_free_array b of
                        Some _ \<Rightarrow> emit (Dll (FreeCredentialArray count p))
                      | None \<Rightarrow> ret ()))
              }))"

subsection \<open>Frames\<close>

fun is_cred :: "event \<Rightarrow> bool" where
  "is_cred (Dll (LoadLib _)) = True"
| "is_cred (Dll (AddCredentials _ _)) = True"
| "is_cred (Dll (GetAllCredentials _)) = True"
| "is_cred (Dll (RemoveCredentials _ _)) = True"
| "is_cred (Dll (FreeCredentialArray _ _)) = True"
| "is_cred _ = False"

lemma load_cred_frame:
  "(\<And>s tr. f (s\<lparr>trace := tr\<rparr>) = f s) \<Longrightarrow> keeps f (load_cred_bindings env)"
  unfolding load_cred_bindings_def load_webauthn_def by (intro frame)

lemma load_cred_only: "emits_only is_cred (load_cred_bindings env)"
  unfolding load_cred_bindings_def load_webauthn_def by (intro only) simp

interpretation cred_cell: once_cell cred_cache "\<lambda>x. cred_cache_update (\<lambda>_. Some x)"
    "load_cred_bindings env" for env
  by unfold_locales (simp_all add: load_cred_frame)

lemma cred_bindings_frame:
  "(\<And>s tr. f (s\<lparr>trace := tr\<rparr>) = f s) \<Longrightarrow> (\<And>s x. f (s\<lparr>cred_cache := x\<rparr>) = f s) \<Longrightarrow>
   keeps f (cred_bindings env)"
  unfolding cred_bindings_def by (rule cred_cell.frame_cell) (simp_all add: load_cred_frame)

lemma cred_bindings_only: "emits_only is_cred (cred_bindings env)"
  unfolding cred_bindings_def by (rule cred_cell.only_init) (rule load_cred_only)

lemma cred_bindings_cached: "cred_cache s = Some r \<Longrightarrow> run_state (cred_bindings env) s = (r, s)"
  by (simp add: cred_bindings_def cred_cell.full)

lemma cred_bindings_filled: "run_state (cred_bindings env) s = (r, t) \<Longrightarrow> cred_cache t = Some r"
  unfolding cred_bindings_def by (rule cred_cell.filled)

lemma add_credentials_only: "emits_only is_cred (add_credentials env d)"
  unfolding add_credentials_def by (intro only cred_bindings_only) simp

lemma get_all_only: "emits_only is_cred (get_all_credentials env)"
  unfolding get_all_credentials_def by (intro only cred_bindings_only) simp

lemma remove_credentials_only: "emits_only is_cred (remove_credentials env d)"
  unfolding remove_credentials_def by (intro only cred_bindings_only) simp

lemma free_array_only: "emits_only is_cred (free_credential_details_array env n a)"
  unfolding free_credential_details_array_def by (intro only cred_bindings_only) simp

lemmas cred_only = add_credentials_only get_all_only remove_credentials_only free_array_only

lemma add_credentials_frame:
  "(\<And>s tr. f (s\<lparr>trace := tr\<rparr>) = f s) \<Longrightarrow> (\<And>s x. f (s\<lparr>cred_cache := x\<rparr>) = f s) \<Longrightarrow>
   keeps f (add_credentials env d)"
  unfolding add_credentials_def by (intro frame cred_bindings_frame)

lemma get_all_frame:
  "(\<And>s tr. f (s\<lparr>trace := tr\<rparr>) = f s) \<Longrightarrow> (\<And>s x. f (s\<lparr>cred_cache := x\<rparr>) = f s) \<Longrightarrow>
   keeps f (get_all_credentials env)"
  unfolding get_all_credentials_def by (intro frame cred_bindings_frame)

lemma remove_credentials_frame:
  "(\<And>s tr. f (s\<lparr>trace := tr\<rparr>) = f s) \<Longrightarrow> (\<And>s x. f (s\<lparr>cred_cache := x\<rparr>) = f s) \<Longrightarrow>
   keeps f (remove_credentials env d)"
  unfolding remove_credentials_def by (intro frame cred_bindings_frame)

lemma free_array_frame:
  "(\<And>s tr. f (s\<lparr>trace := tr\<rparr>) = f s) \<Longrightarrow> (\<And>s x. f (s\<lparr>cred_cache := x\<rparr>) = f s) \<Longrightarrow>
   keeps f (free_credential_details_array env n a)"
  unfolding free_credential_details_array_def by (intro frame cred_bindings_frame)

lemmas cred_frame = add_credentials_frame get_all_frame remove_credentials_frame free_array_frame

end
