(* ===== verification/Authenticator.thy ===== *)
theory Authenticator
  imports Pipe_Session Uv_Bindings Cred_Bindings
begin

text \<open>
  \<open>com/server.rs\<close>: the COM object \<open>IPluginAuthenticator\<close>. Its \<open>IUnknown\<close> methods, the
  dispatch of \<open>MakeCredential\<close> and \<open>GetAssertion\<close> (user verification, then one retrying call,
  then the answer), \<open>CancelOperation\<close>, \<open>GetLockStatus\<close> and the publication of a new credential
  to the credential database of Windows.
\<close>

subsection \<open>Requests and responses\<close>

text \<open>
  The request structures as the code reads them. The pointer to the encoded request is valid
  for its length, as the safety comment of \<open>encoded_request\<close> demands; the signature pointer
  may be null. A response is written completely (length, address, bytes) or not at all.
\<close>

record OperationRequest =
  op_hwnd :: int
  op_transaction_id :: Guid
  op_cb_request_signature :: u32
  op_pb_request_signature :: "bytes option"
  op_cb_encoded_request :: u32
  op_pb_encoded_request :: bytes

definition encoded_request :: "OperationRequest \<Rightarrow> bytes" where
  "encoded_request req = take (unat (op_cb_encoded_request req)) (op_pb_encoded_request req)"

type_synonym op_response = "(u32 \<times> nat \<times> bytes) option"

subsection \<open>Publishing a credential\<close>

record AddCredentialsFields =
  f_credential_id :: bytes
  f_user_handle :: bytes
  f_rp_id_w :: utf16
  f_rp_name_w :: utf16
  f_user_name_w :: utf16
  f_user_disp_w :: utf16

definition encode_utf16_nul :: "string \<Rightarrow> utf16" where
  "encode_utf16_nul s = encode_utf16 s @ [0]"

definition str_field :: "json \<Rightarrow> string \<Rightarrow> string + string" where
  "str_field v k = (case as_str (json_get v k) of Some s \<Rightarrow> Ok s | None \<Rightarrow> Err k)"

definition parse_add_credentials_fields :: "env \<Rightarrow> json \<Rightarrow> string + AddCredentialsFields" where
  "parse_add_credentials_fields env v =
     (case str_field v ''credentialIdB64Url'' of Err e \<Rightarrow> Err e | Ok credential_id_b64 \<Rightarrow>
     (case str_field v ''rpId'' of Err e \<Rightarrow> Err e | Ok rp_id_s \<Rightarrow>
     (case str_field v ''rpName'' of Err e \<Rightarrow> Err e | Ok rp_name_s \<Rightarrow>
     (case str_field v ''userHandleB64Url'' of Err e \<Rightarrow> Err e | Ok user_handle_b64 \<Rightarrow>
     (case str_field v ''userName'' of Err e \<Rightarrow> Err e | Ok user_name_s \<Rightarrow>
     (case str_field v ''userDisplayName'' of Err e \<Rightarrow> Err e | Ok user_disp_s \<Rightarrow>
     (case b64url_decode (lib env) credential_id_b64 of
        None \<Rightarrow> Err ''credentialIdB64Url decode''
      | Some cred_id \<Rightarrow>
     (case b64url_decode (lib env) user_handle_b64 of
        None \<Rightarrow> Err ''userHandleB64Url decode''
      | Some handle_bytes \<Rightarrow>
          Ok \<lparr>f_credential_id = cred_id, f_user_handle = handle_bytes,
              f_rp_id_w = encode_utf16_nul rp_id_s, f_rp_name_w = encode_utf16_nul rp_name_s,
              f_user_name_w = encode_utf16_nul user_name_s,
              f_user_disp_w = encode_utf16_nul user_disp_s\<rparr>))))))))"

definition details_of :: "AddCredentialsFields \<Rightarrow> WebauthnPluginCredentialDetails" where
  "details_of f =
     \<lparr>cb_credential_id = of_nat (length (f_credential_id f)), pb_credential_id = f_credential_id f,
      pwsz_rp_id = f_rp_id_w f, pwsz_rp_name = f_rp_name_w f,
      cb_user_id = of_nat (length (f_user_handle f)), pb_user_id = f_user_handle f,
      pwsz_user_name = f_user_name_w f, pwsz_user_display_name = f_user_disp_w f\<rparr>"

abbreviation "MAKE_CREDENTIAL \<equiv> ''keepasskeywin.makeCredentialRaw''"
abbreviation "GET_ASSERTION \<equiv> ''keepasskeywin.getAssertionRaw''"

definition strip_nul :: "utf16 \<Rightarrow> utf16" where
  "strip_nul w = (if w \<noteq> [] \<and> last w = 0 then butlast w else w)"

definition try_add_credentials :: "env \<Rightarrow> string \<Rightarrow> json \<Rightarrow> unit m" where
  "try_add_credentials env rpc v =
     (if rpc \<noteq> MAKE_CREDENTIAL then ret ()
      else (case parse_add_credentials_fields env v of
              Err _ \<Rightarrow> ret ()
            | Ok fs \<Rightarrow> do { _ \<leftarrow> add_credentials env (details_of fs); ret () }))"

definition extract_prompt_hint :: "env \<Rightarrow> bytes \<Rightarrow> string \<Rightarrow> string" where
  "extract_prompt_hint env cbor_bytes rpc =
     (case cbor_user_name (lib env) cbor_bytes of Some n \<Rightarrow> n | None \<Rightarrow> ''KeePassKeyWin'')"

subsection \<open>Dispatching an operation\<close>

text \<open>Step 2: user verification. The bytes of the response are copied out before it is freed.\<close>

definition verify_user ::
  "env \<Rightarrow> OperationRequest \<Rightarrow> string \<Rightarrow> (hresult + bytes \<times> UvTier) m" where
  "verify_user env req rpc = (
     let cbor_bytes = encoded_request req;
         username_w = encode_utf16_nul (extract_prompt_hint env cbor_bytes rpc);
         display_hint_w = encode_utf16_nul ''KeePassKeyWin'';
         uv_req = \<lparr>uv_hwnd = op_hwnd req, uv_txid = op_transaction_id req,
                   uv_user = username_w, uv_hint = display_hint_w\<rparr>;
         buffer_to_sign = sha256 (lib env) cbor_bytes
     in do {
       (r, cb_uv_response, pb_uv_response) \<leftarrow>
         perform_user_verification_2 env uv_req buffer_to_sign 0 None;
       (case r of
          Err _ \<Rightarrow> ret (Err E_FAIL)
        | Ok (uv_hr, uv_tier) \<Rightarrow> do {
            let uv_sig_bytes =
              (case pb_uv_response of
                 Some (_, bs) \<Rightarrow> if cb_uv_response > 0 then take (unat cb_uv_response) bs else []
               | None \<Rightarrow> []);
            free_user_verification_response env pb_uv_response;
            ret (if uv_hr = E_ABORT then Err uv_hr
                 else if hr_is_err uv_hr then Err uv_hr
                 else Ok (uv_sig_bytes, uv_tier))
          })
     })"

definition request_signature :: "OperationRequest \<Rightarrow> bytes" where
  "request_signature req =
     (case op_pb_request_signature req of
        Some bs \<Rightarrow> if op_cb_request_signature req > 0
                   then take (unat (op_cb_request_signature req)) bs else []
      | None \<Rightarrow> [])"

definition operation_params :: "env \<Rightarrow> OperationRequest \<Rightarrow> bytes \<Rightarrow> UvTier \<Rightarrow> json" where
  "operation_params env req uv_sig_bytes uv_tier = JObject
     [(''cbor'', JString (b64_encode (lib env) (encoded_request req))),
      (''uv'', JBool True),
      (''pbRequestSignatureB64'', JString (b64_encode (lib env) (request_signature req))),
      (''uvSignatureB64'', JString (b64_encode (lib env) uv_sig_bytes)),
      (''uvBindingTier'', JString (ipc_str uv_tier))]"

text \<open>The error a COM client sees for an error of the call.\<close>

fun dispatch_error :: "ClientError \<Rightarrow> hresult" where
  "dispatch_error VaultLocked = E_ACCESSDENIED"
| "dispatch_error UnsupportedAlgorithm = E_INVALIDARG"
| "dispatch_error CredentialExcluded = E_CREDENTIAL_EXCLUDED"
| "dispatch_error InvalidOption = E_INVALIDARG"
| "dispatch_error NoCredentials = NTE_NOT_FOUND"
| "dispatch_error _ = E_FAIL"

definition co_task_mem_alloc :: "env \<Rightarrow> nat \<Rightarrow> nat m" where
  "co_task_mem_alloc env n = ask (\<lambda>h. oe_alloc (os env) h n) (\<lambda>p. Com (CoTaskMemAlloc n p))"

definition answer_operation ::
  "env \<Rightarrow> string \<Rightarrow> (ClientError + json) \<Rightarrow> (hresult \<times> op_response) m" where
  "answer_operation env rpc result =
     (case result of
        Err e \<Rightarrow> ret (dispatch_error e, None)
      | Ok v \<Rightarrow>
          (case as_str (json_get v ''cbor'') of
             None \<Rightarrow> ret (E_FAIL, None)
           | Some resp_b64 \<Rightarrow>
               let resp_bytes = (case b64_decode (lib env) resp_b64 of Some bs \<Rightarrow> bs | None \<Rightarrow> [])
               in do {
                 try_add_credentials env rpc v;
                 buf \<leftarrow> co_task_mem_alloc env (length resp_bytes);
                 ret (if buf = 0 then (E_OUTOFMEMORY, None)
                      else (S_OK, Some (of_nat (length resp_bytes), buf, resp_bytes)))
               }))"

definition dispatch_operation ::
  "env \<Rightarrow> nat \<Rightarrow> OperationRequest \<Rightarrow> string \<Rightarrow> (hresult \<times> op_response) option m" where
  "dispatch_operation env a req rpc = do {
     uv \<leftarrow> verify_user env req rpc;
     (case uv of
        Err hr \<Rightarrow> ret (Some (hr, None))
      | Ok (uv_sig_bytes, uv_tier) \<Rightarrow>
          or_abort (take_call_with_retry env a rpc (operation_params env req uv_sig_bytes uv_tier)) (\<lambda>r.
            (case r of
               None \<Rightarrow> ret (Some (E_FAIL, None))
             | Some result \<Rightarrow> lift_m (answer_operation env rpc result))))
   }"

definition make_credential ::
  "env \<Rightarrow> nat \<Rightarrow> OperationRequest \<Rightarrow> (hresult \<times> op_response) option m" where
  "make_credential env a req = dispatch_operation env a req MAKE_CREDENTIAL"

definition get_assertion ::
  "env \<Rightarrow> nat \<Rightarrow> OperationRequest \<Rightarrow> (hresult \<times> op_response) option m" where
  "get_assertion env a req = dispatch_operation env a req GET_ASSERTION"

subsection \<open>Cancelling and the lock status\<close>

definition txn_text :: "Guid \<Rightarrow> string" where
  "txn_text g =
     hex_digits False 8 (unat (data1 g)) @ ''-'' @ hex_digits False 4 (unat (data2 g)) @ ''-'' @
     hex_digits False 4 (unat (data3 g)) @ ''-'' @
     concat (map (\<lambda>i. hex_digits False 2 (unat (data4 g ! i))) [0, 1]) @ ''-'' @
     concat (map (\<lambda>i. hex_digits False 2 (unat (data4 g ! i))) [2, 3, 4, 5, 6, 7])"

definition cancel_operation :: "env \<Rightarrow> nat \<Rightarrow> Guid \<Rightarrow> hresult option m" where
  "cancel_operation env a transaction_id =
     or_abort (take_call_with_retry env a ''keepasskeywin.cancelOperation''
         (JObject [(''transactionId'', JString (txn_text transaction_id))]))
       (\<lambda>_. ret (Some S_OK))"

definition get_lock_status :: "env \<Rightarrow> nat \<Rightarrow> (hresult \<times> PluginLockStatus option) option m" where
  "get_lock_status env a =
     or_abort (take_call_with_retry env a ''keepasskeywin.getLockStatus'' (JObject [])) (\<lambda>r.
       ret (Some (case r of
         None \<Rightarrow> (S_OK, Some Locked)
       | Some (Ok v) \<Rightarrow>
           (let locked = (case as_bool (json_get v ''locked'') of Some b \<Rightarrow> b | None \<Rightarrow> True)
            in (S_OK, Some (if locked then Locked else Unlocked)))
       | Some (Err e) \<Rightarrow> if e = VaultLocked then (S_OK, Some Locked) else (E_FAIL, None))))"

subsection \<open>\<open>IUnknown\<close>\<close>

definition new_authenticator :: "nat \<Rightarrow> nat m" where
  "new_authenticator a = do {
     obj \<leftarrow> gets next_obj;
     modify (\<lambda>s. s\<lparr>objects := (objects s)(obj \<mapsto> \<lparr>ref_count = 1, obj_state = a\<rparr>), next_obj := obj + 1\<rparr>);
     ret obj
   }"

definition count_of :: "nat \<Rightarrow> proc \<Rightarrow> u32" where
  "count_of this s = (case objects s this of Some ob \<Rightarrow> ref_count ob | None \<Rightarrow> 0)"

definition set_count :: "nat \<Rightarrow> u32 \<Rightarrow> unit m" where
  "set_count this n =
     modify (\<lambda>s. s\<lparr>objects := (objects s)(this := map_option (ref_count_update (\<lambda>_. n)) (objects s this))\<rparr>)"

definition add_ref :: "nat \<Rightarrow> u32 m" where
  "add_ref this = do {
     n \<leftarrow> gets (count_of this);
     set_count this (n + 1);
     ret (n + 1)
   }"

definition free_object :: "nat \<Rightarrow> unit m" where
  "free_object this = do {
     modify (\<lambda>s. s\<lparr>objects := (objects s)(this := None)\<rparr>);
     emit (Com (FreeObject this))
   }"

definition release :: "nat \<Rightarrow> u32 m" where
  "release this = do {
     prev \<leftarrow> gets (count_of this);
     set_count this (prev - 1);
     (if prev = 1 then do {
        free_object this;
        emit (Com CoReleaseServerProcess);
        ret 0
      } else ret (prev - 1))
   }"

definition query_interface :: "nat \<Rightarrow> 128 word \<Rightarrow> (hresult \<times> nat option) m" where
  "query_interface this iid =
     (if iid = IID_IUNKNOWN \<or> iid = iid_iplugin_authenticator
      then do { _ \<leftarrow> add_ref this; ret (S_OK, Some this) }
      else ret (E_NOINTERFACE, None))"

subsection \<open>What the parts of a dispatch touch\<close>

lemma verify_user_only: "emits_only is_uv_event (verify_user env req rpc)"
  unfolding verify_user_def Let_def by (intro only perform_only free_uv_only)

lemma verify_user_frame:
  "(\<And>s tr. f (s\<lparr>trace := tr\<rparr>) = f s) \<Longrightarrow> (\<And>s x. f (s\<lparr>uv_cache := x\<rparr>) = f s) \<Longrightarrow>
   keeps f (verify_user env req rpc)"
  unfolding verify_user_def Let_def by (intro frame perform_frame free_uv_frame)

fun is_answer :: "event \<Rightarrow> bool" where
  "is_answer (Com (CoTaskMemAlloc _ _)) = True"
| "is_answer e = is_cred e"

lemma is_cred_answer: "is_cred e \<Longrightarrow> is_answer e"
  by (cases e) auto

lemma try_add_only: "emits_only is_cred (try_add_credentials env rpc v)"
  unfolding try_add_credentials_def by (intro only add_credentials_only)

lemma try_add_frame:
  "(\<And>s tr. f (s\<lparr>trace := tr\<rparr>) = f s) \<Longrightarrow> (\<And>s x. f (s\<lparr>cred_cache := x\<rparr>) = f s) \<Longrightarrow>
   keeps f (try_add_credentials env rpc v)"
  unfolding try_add_credentials_def by (intro frame add_credentials_frame)

lemma answer_only: "emits_only is_answer (answer_operation env rpc result)"
  unfolding answer_operation_def Let_def co_task_mem_alloc_def
  by (intro only emits_only_mono [OF try_add_only is_cred_answer]) simp_all

lemma answer_frame:
  "(\<And>s tr. f (s\<lparr>trace := tr\<rparr>) = f s) \<Longrightarrow> (\<And>s x. f (s\<lparr>cred_cache := x\<rparr>) = f s) \<Longrightarrow>
   keeps f (answer_operation env rpc result)"
  unfolding answer_operation_def Let_def co_task_mem_alloc_def by (intro frame try_add_frame)

lemma is_answer_not_pipe: "is_answer e \<Longrightarrow> not_pipe e"
  by (cases e) auto

lemma is_uv_event_not_pipe: "is_uv_event e \<Longrightarrow> not_pipe e"
  by (cases e) auto

lemma is_answer_not_uv: "is_answer e \<Longrightarrow> \<not> is_uv e"
  by (cases e rule: is_uv.cases) auto

text \<open>The events of a retrying call: the pipe, the waits, the nonce and the key.\<close>

fun is_call :: "event \<Rightarrow> bool" where
  "is_call (Pipe _) = True"
| "is_call (Sleep _) = True"
| "is_call (RegGet _) = True"
| "is_call e = is_key_event e"

lemma is_call_intros:
  "is_io e \<Longrightarrow> is_call e" "is_reg e \<Longrightarrow> is_call e" "is_key_event e \<Longrightarrow> is_call e"
  by (cases e; simp)+

lemma connect_loop_only: "emits_only is_call (connect_loop env sid ds e)"
  by (induction ds arbitrary: e) (auto simp: try_connect_def intro!: only split: sum.splits)

lemma call_only_call: "emits_only is_call (call env fv p rpc params)"
  by (rule emits_only_mono [OF call_only]) (simp add: on_pipe_is_io is_call_intros)

lemma handshake_only: "emits_only is_call (handshake env p pkg n k)"
  unfolding handshake_def by (intro only call_only_call)

lemma call_or_reconnect_only: "emits_only is_call (call_or_reconnect env sid p rpc params)"
  unfolding call_or_reconnect_def connect_and_handshake_def drop_client_def connect_def
  by (intro only call_only_call connect_loop_only handshake_only
      emits_only_mono [OF reg_only is_call_intros(2)] emits_only_mono [OF hello_key_only is_call_intros(3)])
    simp_all

lemma take_call_only: "emits_only is_call (take_call_with_retry env a rpc params)"
  unfolding take_call_with_retry_def take_pipe_def reconcile_pipe_def set_pipe_def clear_shared_state_def
  by (intro only call_or_reconnect_only emits_only_modify) simp_all

lemma take_call_frame:
  assumes "\<And>s tr. f (s\<lparr>trace := tr\<rparr>) = f s" and "\<And>s x. f (s\<lparr>key_cache := x\<rparr>) = f s"
    and "\<And>s x. f (s\<lparr>heap := x\<rparr>) = f s" and "\<And>s x. f (shared_state_update x s) = f s"
  shows "keeps f (take_call_with_retry env a rpc params)"
  unfolding take_call_with_retry_def take_pipe_def reconcile_pipe_def set_pipe_def clear_shared_state_def
  by (intro frame call_or_reconnect_frame keeps_modify assms)

lemma is_call_not_uv: "is_call e \<Longrightarrow> \<not> is_uv e"
  by (cases e rule: is_uv.cases) auto

subsection \<open>The contract of an operation of the COM server\<close>

lemma conn_frame:
  assumes "keeps heap m" and "keeps shared_state m" and "emits_only not_pipe m"
  shows "ensures conn_inv m (\<lambda>_. conn_inv)"
proof (rule ensuresI)
  fix s r t assume inv: "conn_inv s" and run: "run_state m s = (r, t)"
  have heap: "heap t = heap s" and slot: "shared_state t = shared_state s"
    using keepsD [OF assms(1) run] keepsD [OF assms(2) run] .
  have "linked h s \<Longrightarrow> linked h t" for h
    using ensuresD [OF linked_not_pipe [OF assms(3)]] run by blast
  with inv show "conn_inv t"
    unfolding conn_inv_def slot pipe_of_heap [OF heap] by blast
qed

lemma uv_frame:
  assumes "keeps uv_cache m" and "keeps (evs is_uv) m"
  shows "ensures uv_inv m (\<lambda>_. uv_inv)"
proof (rule ensuresI)
  fix s r t assume "uv_inv s" and run: "run_state m s = (r, t)"
  then show "uv_inv t"
    using keepsD [OF assms(1) run] keepsD [OF assms(2) run] by (simp add: uv_inv_def)
qed

text \<open>
  Every operation of the server, unless it aborts the process, keeps the invariant of the
  connection and that of user verification. The lemmas proved from the contract hold for each
  operation and for any sequence of them.
\<close>

locale com_operation =
  fixes op :: "'a option m"
  assumes conn: "ensures conn_inv op (unless_aborted conn_inv)"
    and uv: "ensures uv_inv op (\<lambda>_. uv_inv)"
begin

lemma preserves:
  "conn_inv s \<and> uv_inv s \<Longrightarrow> run_state op s = (Some r, t) \<Longrightarrow> conn_inv t \<and> uv_inv t"
  using ensuresD [OF conn, of s "Some r" t] ensuresD [OF uv, of s "Some r" t] by simp

lemma one_connected:
  "conn_inv s \<and> uv_inv s \<Longrightarrow> run_state op s = (Some r, t) \<Longrightarrow>
   pipe_of a t \<noteq> None \<Longrightarrow> pipe_of b t \<noteq> None \<Longrightarrow> a = b"
  using preserves [of s r t] unfolding conn_inv_def by (metis option.inject)

lemma no_violation:
  "conn_inv s \<and> uv_inv s \<Longrightarrow> run_state op s = (Some r, t) \<Longrightarrow> monitor None (trace t) \<noteq> None"
  using preserves [of s r t] unfolding conn_inv_def linked_def by simp

end

text \<open>The contract is closed under going on with a program that touches neither invariant.\<close>

lemma ensures_conn_or_abort:
  assumes "ensures conn_inv m (unless_aborted conn_inv)"
    and "\<And>x. ensures conn_inv (k x) (unless_aborted conn_inv)"
  shows "ensures conn_inv (or_abort m k) (unless_aborted conn_inv)"
proof (rule ensures_or_abort [where R = "\<lambda>_. conn_inv"])
  show "ensures conn_inv m
      (\<lambda>x s. case x of None \<Rightarrow> unless_aborted conn_inv None s | Some y \<Rightarrow> conn_inv s)"
    by (rule ensures_weaken [OF assms(1)]) (auto split: option.split)
qed (rule assms(2))

lemma ensures_unless: "ensures P m (\<lambda>_. Q) \<Longrightarrow> ensures P m (unless_aborted Q)"
  by (auto simp: ensures_def unless_aborted_def)

lemma uv_frame_call: "ensures uv_inv (take_call_with_retry env a rpc params) (\<lambda>_. uv_inv)"
  by (rule uv_frame [OF take_call_frame emits_only_evs [OF take_call_only is_call_not_uv]]) simp_all

lemma uv_or_abort:
  "ensures uv_inv m (\<lambda>_. uv_inv) \<Longrightarrow> (\<And>x. ensures uv_inv (k x) (\<lambda>_. uv_inv)) \<Longrightarrow>
   ensures uv_inv (or_abort m k) (\<lambda>_. uv_inv)"
  by (rule ensures_or_abort [where R = "\<lambda>_. uv_inv"])
    (auto elim: ensures_weaken split: option.split)

lemma answer_conn: "ensures conn_inv (lift_m (answer_operation env rpc r)) (\<lambda>_. conn_inv)"
  by (intro conn_frame keeps_lift_m answer_frame emits_only_lift_m
      emits_only_mono [OF answer_only is_answer_not_pipe]) simp_all

lemma answer_uv: "ensures uv_inv (lift_m (answer_operation env rpc r)) (\<lambda>_. uv_inv)"
  by (intro uv_frame keeps_lift_m answer_frame emits_only_evs [OF answer_only is_answer_not_uv]) simp_all

lemma verify_user_conn: "ensures conn_inv (verify_user env req rpc) (\<lambda>_. conn_inv)"
  by (intro conn_frame verify_user_frame emits_only_mono [OF verify_user_only is_uv_event_not_pipe])
    simp_all

lemma free_uv_run:
  assumes "uv_cache s = Some c"
  shows "run_state (free_user_verification_response env pb) s =
    ((), case c of Err _ \<Rightarrow> s | Ok _ \<Rightarrow>
       (case pb of None \<Rightarrow> s | Some (p, _) \<Rightarrow> s\<lparr>trace := trace s @ [Dll (UvFree p)]\<rparr>))"
  using assms
  by (simp add: free_user_verification_response_def bindings_cached split: option.split sum.split)

lemma verify_user_uv: "ensures uv_inv (verify_user env req rpc) (\<lambda>_. uv_inv)"
  unfolding verify_user_def Let_def
  by (rule ensures_bind [OF perform_inv])
    (auto intro!: ensures_return ensures_bind [OF free_uv_inv] split: prod.split sum.split)

interpretation dispatch: com_operation "dispatch_operation env a req rpc" for env a req rpc
proof
  show "ensures uv_inv (dispatch_operation env a req rpc) (\<lambda>_. uv_inv)"
    unfolding dispatch_operation_def
    by (rule ensures_bind [OF verify_user_uv])
      (auto intro!: ensures_return uv_or_abort uv_frame_call answer_uv
        split: sum.split option.split prod.split)
  show "ensures conn_inv (dispatch_operation env a req rpc) (unless_aborted conn_inv)"
    unfolding dispatch_operation_def
    by (rule ensures_bind [OF verify_user_conn])
      (auto intro!: ensures_return ensures_conn_or_abort take_call_conn ensures_unless [OF answer_conn]
        split: sum.split option.split prod.split)
qed

interpretation cancel: com_operation "cancel_operation env a txid" for env a txid
  unfolding cancel_operation_def
  by unfold_locales
    (auto intro!: ensures_conn_or_abort take_call_conn uv_or_abort uv_frame_call ensures_return)

interpretation lock_status: com_operation "get_lock_status env a" for env a
  unfolding get_lock_status_def
  by unfold_locales
    (auto intro!: ensures_conn_or_abort take_call_conn uv_or_abort uv_frame_call ensures_return)

subsection \<open>User verification gates the vault\<close>

fun frees :: "dll_buf \<Rightarrow> event list" where
  "frees None = []"
| "frees (Some (p, _)) = [Dll (UvFree p)]"

fun uv_bytes :: "u32 \<Rightarrow> dll_buf \<Rightarrow> bytes" where
  "uv_bytes cb None = []"
| "uv_bytes cb (Some (_, bs)) = (if cb > 0 then take (unat cb) bs else [])"

lemma verify_user_run:
  assumes "uv_inv s"
  obtains (unbound) t where "run_state (verify_user env req rpc) s = (Err E_FAIL, t)"
      "evs is_uv t = evs is_uv s"
  | (asked) es hr tier cb pp t where "uv_attempt 0 None es hr tier cb pp"
      "evs is_uv t = evs is_uv s @ es @ frees pp"
      "run_state (verify_user env req rpc) s =
         (if hr_is_err hr then Err hr else Ok (uv_bytes cb pp, tier), t)"
proof -
  let ?req = "\<lparr>uv_hwnd = op_hwnd req, uv_txid = op_transaction_id req,
    uv_user = encode_utf16_nul (extract_prompt_hint env (encoded_request req) rpc),
    uv_hint = encode_utf16_nul ''KeePassKeyWin''\<rparr>"
  let ?buf = "sha256 (lib env) (encoded_request req)"
  show thesis
  proof (rule perform_run [OF assms, of env ?req ?buf 0 None])
    fix e t
    assume "run_state (perform_user_verification_2 env ?req ?buf 0 None) s = ((Err e, 0, None), t)"
      and "evs is_uv t = evs is_uv s"
    then show thesis
      by (intro unbound [of t]) (simp_all add: verify_user_def Let_def)
  next
    fix hr tier es cb pp t b
    assume run: "run_state (perform_user_verification_2 env ?req ?buf 0 None) s = ((Ok (hr, tier), cb, pp), t)"
      and attempt: "uv_attempt 0 None es hr tier cb pp" and evs: "evs is_uv t = evs is_uv s @ es"
      and cache: "uv_cache t = Some (Ok b)"
    let ?t = "s\<lparr>trace := trace t @ frees pp\<rparr>"
    have freed: "run_state (free_user_verification_response env pp) t = ((), t\<lparr>trace := trace t @ frees pp\<rparr>)"
      by (cases pp) (auto simp: free_uv_run [OF cache])
    have "evs is_uv (t\<lparr>trace := trace t @ frees pp\<rparr>) = evs is_uv s @ es @ frees pp"
      using evs by (cases pp) (auto simp: evs_def)
    moreover have "run_state (verify_user env req rpc) s =
        (if hr_is_err hr then Err hr else Ok (uv_bytes cb pp, tier), t\<lparr>trace := trace t @ frees pp\<rparr>)"
      using run freed by (cases pp) (auto simp: verify_user_def Let_def)
    ultimately show thesis using attempt asked by blast
  qed
qed

fun is_pipe :: "event \<Rightarrow> bool" where
  "is_pipe (Pipe _) = True"
| "is_pipe _ = False"

lemma not_pipe_is_pipe: "not_pipe e \<Longrightarrow> \<not> is_pipe e"
  by (cases e) auto

lemma evs_keeps:
  assumes "emits_only P m" and "\<And>e. P e \<Longrightarrow> \<not> Q e" and "run_state m s = (r, t)"
  shows "evs Q t = evs Q s"
  using keepsD [OF emits_only_evs [OF assms(1,2)] assms(3)] .

text \<open>The rest of a dispatch once the user was verified.\<close>

lemma dispatch_verified:
  assumes "run_state (verify_user env req rpc) s = (Ok (sig, tier), s1)"
    and "run_state (dispatch_operation env a req rpc) s = (res, t)"
  shows "evs is_uv t = evs is_uv s1 \<and>
    (case run_state (take_call_with_retry env a rpc (operation_params env req sig tier)) s1 of
       (None, t1) \<Rightarrow> res = None \<and> t = t1
     | (Some None, t1) \<Rightarrow> res = Some (E_FAIL, None) \<and> t = t1
     | (Some (Some r), t1) \<Rightarrow>
         \<exists>answer. run_state (answer_operation env rpc r) t1 = (answer, t) \<and> res = Some answer)"
proof -
  obtain r t1 where call: "run_state (take_call_with_retry env a rpc (operation_params env req sig tier)) s1 =
      (r, t1)" by fastforce
  have "evs is_uv t1 = evs is_uv s1" by (rule evs_keeps [OF take_call_only is_call_not_uv call])
  moreover have "evs is_uv t = evs is_uv t1" if "run_state (answer_operation env rpc x) t1 = (y, t)" for x y
    by (rule evs_keeps [OF answer_only is_answer_not_uv that])
  ultimately show ?thesis
    using assms call by (auto simp: dispatch_operation_def split: option.splits prod.splits)
qed

text \<open>
  C1. The vault is reached only through user verification, and the user is asked once. In
  every dispatch either the DLL could not be bound, and the answer is \<open>E_FAIL\<close>; or the user was
  asked exactly once, in one of the ways of \<open>uv_attempt\<close>, and the response buffer, if any, was freed exactly
  once. If the verification failed, cancellation included, its HRESULT is the answer and the
  pipe was not touched. Only otherwise one retrying call was made, with the signature and the
  tier that this verification returned: a repetition of the call does not ask again.
\<close>

theorem dispatch_gate:
  assumes "uv_inv s"
  shows "case run_state (dispatch_operation env a req rpc) s of (res, t) \<Rightarrow>
    (evs is_uv t = evs is_uv s \<and> evs is_pipe t = evs is_pipe s \<and> res = Some (E_FAIL, None)) \<or>
    (\<exists>es hr tier cb pp. uv_attempt 0 None es hr tier cb pp \<and>
       evs is_uv t = evs is_uv s @ es @ frees pp \<and>
       (if hr_is_err hr then evs is_pipe t = evs is_pipe s \<and> res = Some (hr, None)
        else \<exists>s1. evs is_uv s1 = evs is_uv t \<and> evs is_pipe s1 = evs is_pipe s \<and>
          (case run_state (take_call_with_retry env a rpc
                  (operation_params env req (uv_bytes cb pp) tier)) s1 of
             (None, t1) \<Rightarrow> res = None \<and> t = t1
           | (Some None, t1) \<Rightarrow> res = Some (E_FAIL, None) \<and> t = t1
           | (Some (Some r), t1) \<Rightarrow>
               \<exists>answer. run_state (answer_operation env rpc r) t1 = (answer, t) \<and> res = Some answer)))"
proof (rule verify_user_run [OF assms, of env req rpc])
  fix t assume run: "run_state (verify_user env req rpc) s = (Err E_FAIL, t)"
    and uv: "evs is_uv t = evs is_uv s"
  have "evs is_pipe t = evs is_pipe s"
    by (rule evs_keeps [OF verify_user_only not_pipe_is_pipe [OF is_uv_event_not_pipe] run])
  with run uv show ?thesis by (simp add: dispatch_operation_def)
next
  fix es hr tier cb pp s1
  assume attempt: "uv_attempt 0 None es hr tier cb pp" and uv: "evs is_uv s1 = evs is_uv s @ es @ frees pp"
    and run: "run_state (verify_user env req rpc) s =
         (if hr_is_err hr then Err hr else Ok (uv_bytes cb pp, tier), s1)"
  have pipe: "evs is_pipe s1 = evs is_pipe s"
    by (rule evs_keeps [OF verify_user_only not_pipe_is_pipe [OF is_uv_event_not_pipe] run])
  show ?thesis
  proof (cases "hr_is_err hr")
    case True
    with run have d: "run_state (dispatch_operation env a req rpc) s = (Some (hr, None), s1)"
      by (simp add: dispatch_operation_def)
    show ?thesis
      unfolding d prod.case
      by (intro disjI2 exI [of _ es] exI [of _ hr] exI [of _ tier] exI [of _ cb] exI [of _ pp])
        (use True pipe uv attempt in simp)
  next
    case False
    with run have ver: "run_state (verify_user env req rpc) s = (Ok (uv_bytes cb pp, tier), s1)" by simp
    obtain res t where d: "run_state (dispatch_operation env a req rpc) s = (res, t)" by fastforce
    note result = dispatch_verified [OF ver d]
    show ?thesis
      unfolding d prod.case
      by (intro disjI2 exI [of _ es] exI [of _ hr] exI [of _ tier] exI [of _ cb] exI [of _ pp])
        (use result attempt uv pipe False in \<open>auto intro!: exI [of _ s1]\<close>)
  qed
qed

definition sample_request :: OperationRequest where
  "sample_request = \<lparr>op_hwnd = 0, op_transaction_id = CLSID_GUID, op_cb_request_signature = 0,
     op_pb_request_signature = None, op_cb_encoded_request = 1, op_pb_encoded_request = [1]\<rparr>"

lemma uv_inv_init: "uv_inv init_proc"
  by (simp add: uv_inv_def uv_wf_def evs_def init_proc_def)

text \<open>With a DLL that answers \<open>S_OK\<close> and no connection the dispatch asks once and reports \<open>E_FAIL\<close>.\<close>

definition consenting_env :: env where
  "consenting_env = sample_env\<lparr>dll := (dll sample_env)\<lparr>de_load := (\<lambda>_. None), de_exports := (\<lambda>_. True),
     de_uv2 := (\<lambda>_ _ _ _. (S_OK, Some 1, Some (Some (7, [9]))))\<rparr>\<rparr>"

theorem dispatch_gate_witness:
  "case run_state (dispatch_operation consenting_env 0 sample_request GET_ASSERTION) init_proc of (res, t) \<Rightarrow>
    (evs is_uv t = evs is_uv init_proc \<and> evs is_pipe t = evs is_pipe init_proc \<and> res = Some (E_FAIL, None)) \<or>
    (\<exists>es hr tier cb pp. uv_attempt 0 None es hr tier cb pp \<and>
       evs is_uv t = evs is_uv init_proc @ es @ frees pp \<and>
       (if hr_is_err hr then evs is_pipe t = evs is_pipe init_proc \<and> res = Some (hr, None)
        else \<exists>s1. evs is_uv s1 = evs is_uv t \<and> evs is_pipe s1 = evs is_pipe init_proc \<and>
          (case run_state (take_call_with_retry consenting_env 0 GET_ASSERTION
                  (operation_params consenting_env sample_request (uv_bytes cb pp) tier)) s1 of
             (None, t1) \<Rightarrow> res = None \<and> t = t1
           | (Some None, t1) \<Rightarrow> res = Some (E_FAIL, None) \<and> t = t1
           | (Some (Some r), t1) \<Rightarrow>
               \<exists>answer. run_state (answer_operation consenting_env GET_ASSERTION r) t1 = (answer, t) \<and>
                 res = Some answer)))"
  by (rule dispatch_gate) (rule uv_inv_init)

subsection \<open>What the caller of a dispatch receives\<close>

lemma dispatch_error_is_err: "hr_is_err (dispatch_error e)"
  by (cases e) simp_all

lemma err_not_ok: "hr_is_err hr \<Longrightarrow> hr \<noteq> S_OK"
  by auto

definition answered :: "hresult \<times> op_response \<Rightarrow> bool" where
  "answered a = (case a of
     (hr, None) \<Rightarrow> hr_is_err hr
   | (hr, Some (n, p, bs)) \<Rightarrow> hr = S_OK \<and> p \<noteq> 0 \<and> n = of_nat (length bs))"

lemma answer_operation_answered: "answered (fst (run_state (answer_operation env rpc r) s))"
  by (cases r)
    (auto simp: answer_operation_def answered_def dispatch_error_is_err co_task_mem_alloc_def Let_def
      split: option.split prod.split)

lemma verify_user_err:
  "run_state (verify_user env req rpc) s = (Err hr, t) \<Longrightarrow> hr_is_err hr"
  by (auto simp: verify_user_def Let_def split: prod.splits sum.splits if_splits)

text \<open>
  C8. The caller of a dispatch gets either an error and an untouched response structure, or
  \<open>S_OK\<close> and a response of the stated length in memory that was allocated for it. Every error
  of the plugin has a definite HRESULT, and none of them is a success.
\<close>

theorem dispatch_result:
  "(case fst (run_state (dispatch_operation env a req rpc) s) of
      None \<Rightarrow> True
    | Some (hr, None) \<Rightarrow> hr_is_err hr
    | Some (hr, Some (n, p, bs)) \<Rightarrow> hr = S_OK \<and> p \<noteq> 0 \<and> n = of_nat (length bs)) \<and>
   dispatch_error (from_rpc code message) =
     (if code = -32010 then E_ACCESSDENIED
      else if code = -32020 then NTE_NOT_FOUND
      else if code = -32030 \<or> code = -32041 then E_INVALIDARG
      else if code = -32031 then E_CREDENTIAL_EXCLUDED
      else E_FAIL)"
proof
  obtain uv s1 where uv: "run_state (verify_user env req rpc) s = (uv, s1)" by fastforce
  have "case fst (run_state (dispatch_operation env a req rpc) s) of None \<Rightarrow> True | Some x \<Rightarrow> answered x"
  proof (cases uv)
    case (Inl hr)
    with uv verify_user_err [of env req rpc s hr s1] show ?thesis
      by (simp add: dispatch_operation_def answered_def)
  next
    case (Inr x)
    obtain bs tier where x: "x = (bs, tier)" by fastforce
    obtain r t where "run_state (take_call_with_retry env a rpc (operation_params env req bs tier)) s1 = (r, t)"
      by fastforce
    with uv Inr x answer_operation_answered [of env rpc "the (the r)" t] show ?thesis
      by (auto simp: dispatch_operation_def answered_def split: option.splits prod.splits)
  qed
  then show "case fst (run_state (dispatch_operation env a req rpc) s) of
      None \<Rightarrow> True
    | Some (hr, None) \<Rightarrow> hr_is_err hr
    | Some (hr, Some (n, p, bs)) \<Rightarrow> hr = S_OK \<and> p \<noteq> 0 \<and> n = of_nat (length bs)"
    by (auto simp: answered_def split: option.splits prod.splits)
  show "dispatch_error (from_rpc code message) =
     (if code = -32010 then E_ACCESSDENIED
      else if code = -32020 then NTE_NOT_FOUND
      else if code = -32030 \<or> code = -32041 then E_INVALIDARG
      else if code = -32031 then E_CREDENTIAL_EXCLUDED
      else E_FAIL)"
    by (simp add: from_rpc_def)
qed

text \<open>
  A response of the plugin whose \<open>cbor\<close> is a string that is not base64 is passed on as
  success with an empty response: the decoding error is swallowed.
\<close>

theorem undecodable_answer_succeeds:
  "case b64_decode (lib env) b of
     Some _ \<Rightarrow> True
   | None \<Rightarrow>
       fst (run_state (answer_operation env GET_ASSERTION (Ok (JObject [(''cbor'', JString b)]))) s) =
         (let p = oe_alloc (os env) (trace s) 0
          in if p = 0 then (E_OUTOFMEMORY, None) else (S_OK, Some (0, p, [])))"
  by (simp add: answer_operation_def try_add_credentials_def co_task_mem_alloc_def Let_def
      split: option.split)

subsection \<open>Publishing\<close>

fun is_publish :: "event \<Rightarrow> bool" where
  "is_publish (Dll (AddCredentials _ _)) = True"
| "is_publish _ = False"

lemma not_publish:
  "is_load e \<Longrightarrow> \<not> is_publish e" "is_uv_event e \<Longrightarrow> \<not> is_publish e" "is_call e \<Longrightarrow> \<not> is_publish e"
  by (cases e rule: is_publish.cases; simp)+

lemma load_cred_is_load: "emits_only is_load (load_cred_bindings env)"
  unfolding load_cred_bindings_def load_webauthn_def by (intro only) simp

lemma add_credentials_publishes: "emits_le is_publish 1 (add_credentials env d)"
proof -
  have "keeps (evs is_publish) (cred_bindings env)"
    unfolding cred_bindings_def
    by (rule emits_only_evs [OF cred_cell.only_init [OF load_cred_is_load] not_publish(1)])
  then have "emits_le is_publish 0 (cred_bindings env)" by (rule emits_le_keeps)
  then show ?thesis
    unfolding add_credentials_def
    by (rule emits_le_bind)
      (auto intro!: emits_le_case_sum emits_le_bind [OF emits_le_ask emits_le_return]
        emits_le_mono [OF emits_le_return])
qed

lemma answer_publishes:
  "emits_le is_publish (if rpc = MAKE_CREDENTIAL then 1 else 0) (answer_operation env rpc r)"
proof -
  let ?n = "if rpc = MAKE_CREDENTIAL then 1 else 0"
  have return: "emits_le is_publish n (ret x)" for n x
    by (rule emits_le_mono [OF emits_le_return]) simp
  have add: "emits_le is_publish ?n (try_add_credentials env rpc v)" for v
    unfolding try_add_credentials_def
    by (auto intro!: return emits_le_bind [OF add_credentials_publishes return] split: sum.split)
  have alloc: "emits_le is_publish 0 (co_task_mem_alloc env n)" for n
    unfolding co_task_mem_alloc_def by (intro emits_le_keeps keeps_evs_ask) simp
  show ?thesis
    unfolding answer_operation_def Let_def
    by (intro emits_le_case_sum emits_le_case_option return emits_le_bind [OF add, where b = 0]
        emits_le_bind [OF alloc return]) simp_all
qed

lemma dispatch_publishes:
  "emits_le is_publish (if rpc = MAKE_CREDENTIAL then 1 else 0) (dispatch_operation env a req rpc)"
proof -
  let ?n = "if rpc = MAKE_CREDENTIAL then 1 else 0"
  have return: "emits_le is_publish n (ret x)" for n x
    by (rule emits_le_mono [OF emits_le_return]) simp
  have uv: "emits_le is_publish 0 (verify_user env req rpc)"
    by (rule emits_le_keeps [OF emits_only_evs [OF verify_user_only not_publish(2)]])
  have call: "emits_le is_publish 0 (take_call_with_retry env a rpc p)" for p
    by (rule emits_le_keeps [OF emits_only_evs [OF take_call_only not_publish(3)]])
  have answer: "emits_le is_publish ?n (lift_m (answer_operation env rpc r))" for r
    unfolding lift_m_def by (rule emits_le_bind [OF answer_publishes return]) simp
  show ?thesis
    unfolding dispatch_operation_def
    by (intro emits_le_bind [OF uv, where b = ?n] emits_le_case_sum emits_le_case_prod
        emits_le_or_abort [OF call, where b = ?n] emits_le_case_option return answer) simp_all
qed


subsection \<open>Cancelling and the lock status\<close>

text \<open>
  C14. The lock status is fail-closed: \<open>Unlocked\<close> is reported exactly when the plugin
  answered with \<open>locked\<close> being \<open>false\<close>. The out-parameter is left unwritten exactly when the
  call failed with an error other than a locked vault, and only then the result is an error.
  In particular a plugin that does not know the method (code -32601) gives \<open>E_FAIL\<close>.
\<close>

theorem lock_status_fail_closed:
  "case run_state (take_call_with_retry env a ''keepasskeywin.getLockStatus'' (JObject [])) s of (q, t) \<Rightarrow>
   (case run_state (get_lock_status env a) s of (res, t') \<Rightarrow>
      t' = t \<and> (res = None \<longleftrightarrow> q = None) \<and>
      ((\<exists>hr. res = Some (hr, Some Unlocked)) \<longleftrightarrow>
         (\<exists>v. q = Some (Some (Ok v)) \<and> json_get v ''locked'' = JBool False)) \<and>
      ((\<exists>hr. res = Some (hr, None)) \<longleftrightarrow> (\<exists>e. q = Some (Some (Err e)) \<and> e \<noteq> VaultLocked)) \<and>
      ((\<exists>hr out. res = Some (hr, out) \<and> hr_is_err hr) \<longleftrightarrow> (\<exists>hr. res = Some (hr, None)))) \<and>
   from_rpc (-32601) m \<noteq> VaultLocked"
proof -
  have as_bool: "as_bool v = Some b \<longleftrightarrow> v = JBool b" for v b by (cases v) auto
  show ?thesis
    by (auto simp: get_lock_status_def Let_def as_bool from_rpc_def
        split: option.splits sum.splits prod.splits if_splits)
qed


end
