(* ===== verification/Ref_Counted.thy ===== *)
theory Ref_Counted
  imports World
begin

text \<open>
  The contract of a COM object that counts its references: \<open>AddRef\<close> adds one, \<open>Release\<close> takes
  one away, and the release of the last reference frees the object. Both COM objects of the
  provider, the authenticator and the class factory, interpret it.
\<close>

text \<open>A client's sequence of calls: \<open>True\<close> for \<open>AddRef\<close>, \<open>False\<close> for \<open>Release\<close>.\<close>

fun run_refs :: "u32 m \<Rightarrow> u32 m \<Rightarrow> bool list \<Rightarrow> unit m" where
  "run_refs inc dec [] = ret ()"
| "run_refs inc dec (b # bs) = do { _ \<leftarrow> (if b then inc else dec); run_refs inc dec bs }"

text \<open>
  The references held after each call, starting with \<open>n\<close>: a client that releases only what it
  holds, never counts past the width of the counter, and stops at zero.
\<close>

fun held :: "nat \<Rightarrow> bool list \<Rightarrow> nat" where
  "held n [] = n"
| "held n (b # bs) = held (if b then n + 1 else n - 1) bs"

fun well_behaved :: "nat \<Rightarrow> bool list \<Rightarrow> bool" where
  "well_behaved n [] = True"
| "well_behaved n (b # bs) =
     (0 < n \<and> (if b then n + 1 < 2 ^ 32 \<and> well_behaved (n + 1) bs else well_behaved (n - 1) bs))"

locale ref_counted =
  fixes count :: "proc \<Rightarrow> u32 option" and inc :: "u32 m" and dec :: "u32 m"
  assumes inc: "count s = Some n \<Longrightarrow>
      fst (run_state inc s) = n + 1 \<and> count (snd (run_state inc s)) = Some (n + 1)"
    and dec: "count s = Some n \<Longrightarrow>
      fst (run_state dec s) = n - 1 \<and>
      count (snd (run_state dec s)) = (if n = 1 then None else Some (n - 1))"
begin

text \<open>The object lives exactly as long as references are held, and counts them.\<close>

lemma lifetime:
  assumes "well_behaved n bs" and "count s = Some (of_nat n)" and "0 < n" and "n < 2 ^ 32"
  shows "count (snd (run_state (run_refs inc dec bs) s)) =
     (if held n bs = 0 then None else Some (of_nat (held n bs)))"
  using assms
proof (induction bs arbitrary: n s)
  case Nil
  then show ?case by simp
next
  case (Cons b bs)
  show ?case
  proof (cases b)
    case True
    obtain r t where run: "run_state inc s = (r, t)" by fastforce
    have "count t = Some (of_nat (n + 1))"
      using inc [OF Cons.prems(2)] run by (simp add: add.commute)
    with Cons.prems True have "count (snd (run_state (run_refs inc dec bs) t)) =
        (if held (n + 1) bs = 0 then None else Some (of_nat (held (n + 1) bs)))"
      by (intro Cons.IH) auto
    with True run show ?thesis by simp
  next
    case False
    obtain r t where run: "run_state dec s = (r, t)" by fastforce
    have count_t: "count t = (if of_nat n = (1 :: u32) then None else Some (of_nat n - 1))"
      using dec [OF Cons.prems(2)] run by simp
    show ?thesis
    proof (cases "n = 1")
      case True
      have "bs = []"
        using Cons.prems(1) False True by (cases bs) auto
      with count_t True False run show ?thesis by simp
    next
      case n: False
      have "of_nat n \<noteq> (1 :: u32)"
      proof -
        have "unat (of_nat n :: u32) = n"
          by (rule unat_of_nat_u32) (use Cons.prems(4) in simp)
        with n show ?thesis by auto
      qed
      with count_t have "count t = Some (of_nat (n - 1))"
        using Cons.prems(3) by (simp add: of_nat_diff)
      moreover have "0 < n - 1" "n - 1 < 2 ^ 32" using n Cons.prems(3,4) by auto
      ultimately have "count (snd (run_state (run_refs inc dec bs) t)) =
          (if held (n - 1) bs = 0 then None else Some (of_nat (held (n - 1) bs)))"
        using Cons.prems False by (intro Cons.IH) auto
      with False run show ?thesis by simp
    qed
  qed
qed

end

end
