(* ===== verification/Com_Server.thy ===== *)
theory Com_Server
  imports Authenticator Ref_Counted
begin

text \<open>
  \<open>com/exe_server.rs\<close>, the COM side: the class factory, the activation of an authenticator
  object over the shared connection, the accounting of references, and the server's start,
  message pump and shutdown.
\<close>

subsection \<open>The class factory\<close>

definition new_class_factory :: "u32 \<Rightarrow> unit m" where
  "new_class_factory sid =
     modify (\<lambda>s. s\<lparr>factory := Some \<lparr>cf_ref_count = 1, cf_session_id = sid\<rparr>\<rparr>)"

definition factory_count :: "proc \<Rightarrow> u32 option" where
  "factory_count s = map_option cf_ref_count (factory s)"

definition set_factory_count :: "u32 \<Rightarrow> unit m" where
  "set_factory_count n = modify (factory_update (map_option (cf_ref_count_update (\<lambda>_. n))))"

definition factory_refs :: "proc \<Rightarrow> u32" where
  "factory_refs s = (case factory_count s of Some n \<Rightarrow> n | None \<Rightarrow> 0)"

definition cf_add_ref :: "u32 m" where
  "cf_add_ref = do {
     n \<leftarrow> gets factory_refs;
     set_factory_count (n + 1);
     ret (n + 1)
   }"

definition cf_release :: "u32 m" where
  "cf_release = do {
     prev \<leftarrow> gets factory_refs;
     set_factory_count (prev - 1);
     (if prev = 1 then do {
        modify (factory_update (\<lambda>_. None));
        emit (Com FreeFactory);
        ret 0
      } else ret (prev - 1))
   }"

text \<open>\<open>ppv\<close> receives the factory itself or null.\<close>

definition cf_query_interface :: "128 word \<Rightarrow> (hresult \<times> bool) m" where
  "cf_query_interface iid =
     (if iid = IID_IUNKNOWN \<or> iid = IID_ICLASS_FACTORY
      then do { _ \<leftarrow> cf_add_ref; ret (S_OK, True) }
      else ret (E_NOINTERFACE, False))"

definition cf_lock_server :: "i32 \<Rightarrow> hresult m" where
  "cf_lock_server lock = do {
     (if lock \<noteq> 0 then emit (Com CoAddRefServerProcess) else emit (Com CoReleaseServerProcess));
     ret S_OK
   }"

subsection \<open>Activation\<close>

definition new_state :: "u32 \<Rightarrow> PipeClient option \<Rightarrow> nat m" where
  "new_state sid p = do {
     a \<leftarrow> gets next_ref;
     modify (\<lambda>s. s\<lparr>heap := (heap s)(a \<mapsto> \<lparr>session_id = sid, pipe = p\<rparr>), next_ref := a + 1\<rparr>);
     ret a
   }"

definition shared_or_fresh :: "env \<Rightarrow> u32 \<Rightarrow> nat option m" where
  "shared_or_fresh env sid = do {
     state \<leftarrow> gets shared_state;
     (case state of
        Some a \<Rightarrow> ret (Some a)
      | None \<Rightarrow> or_abort (connect_and_handshake env sid) (\<lambda>r. do {
          let pipe = (case r of Ok p \<Rightarrow> Some p | Err _ \<Rightarrow> None);
          fresh \<leftarrow> new_state sid pipe;
          (if pipe \<noteq> None then do {
             modify (\<lambda>s. s\<lparr>shared_state := Some fresh\<rparr>);
             modify (\<lambda>s. s\<lparr>tasks := tasks s @ [fresh]\<rparr>)
           } else ret ());
          ret (Some fresh)
        }))
   }"

definition cf_create_instance :: "env \<Rightarrow> 128 word \<Rightarrow> (hresult \<times> nat option) option m" where
  "cf_create_instance env iid = do {
     sid \<leftarrow> gets (\<lambda>s. case factory s of Some f \<Rightarrow> cf_session_id f | None \<Rightarrow> 0);
     or_abort (shared_or_fresh env sid) (\<lambda>a. do {
       raw \<leftarrow> new_authenticator a;
       emit (Com CoAddRefServerProcess);
       (hr, ppv) \<leftarrow> query_interface raw iid;
       (if hr_is_err hr then do {
          free_object raw;
          emit (Com CoReleaseServerProcess)
        } else ret ());
       ret (Some (hr, ppv))
     })
   }"

subsection \<open>The server\<close>

text \<open>
  \<open>GetMessageW\<close> answers 0 for \<open>WM_QUIT\<close> and -1 for an error. Dispatching a message runs the
  COM call it carries, which is a parameter. The pump may run forever, so it is a partial
  function; \<open>None\<close> is a server that never leaves it.
\<close>

definition get_message :: "env \<Rightarrow> i32 m" where
  "get_message env = ask (oe_get_message (os env)) (\<lambda>r. Com (GetMessage r))"

definition quits :: "i32 \<Rightarrow> bool" where
  "quits r = (r = 0 \<or> r = -1)"

definition after_dispatch :: "unit m \<Rightarrow> proc \<Rightarrow> proc" where
  "after_dispatch dispatch s = snd (run_state (do { emit (Com DispatchMessage); dispatch }) s)"

partial_function (option) message_pump :: "env \<Rightarrow> unit m \<Rightarrow> proc \<Rightarrow> proc option" where
  "message_pump env dispatch s =
     (case run_state (get_message env) s of (r, s1) \<Rightarrow>
        if quits r then Some s1 else message_pump env dispatch (after_dispatch dispatch s1))"

definition get_session_id :: "env \<Rightarrow> u32" where
  "get_session_id env = oe_session_id (os env)"

datatype server_end = Panicked string | Exited

definition start_server :: "env \<Rightarrow> (string + u32) m" where
  "start_server env = do {
     emit (Com BuildRuntime);
     co \<leftarrow> ask (oe_co_init (os env)) (\<lambda>r. Com (CoInitializeEx r));
     (if hr_is_err co then ret (Err ''CoInitializeEx(STA) failed'')
      else do {
        emit (Com (GetThreadId (oe_thread_id (os env))));
        new_class_factory (get_session_id env);
        cookie \<leftarrow> ask (oe_register_class (os env)) (\<lambda>r. Com (RegisterClass r));
        (case cookie of
           Err _ \<Rightarrow> ret (Err ''CoRegisterClassObject failed'')
         | Ok c \<Rightarrow> do {
             r \<leftarrow> ask (oe_resume (os env)) (\<lambda>r. Com (ResumeClassObjects r));
             ret (if hr_is_err r then Err ''CoResumeClassObjects failed'' else Ok c)
           })
      })
   }"

definition shut_down :: "u32 \<Rightarrow> unit m" where
  "shut_down cookie = do {
     emit (Com (RevokeClass cookie));
     _ \<leftarrow> cf_release;
     emit (Com CoUninitialize);
     emit (Com (ExitProcess 0))
   }"

definition run_com_server :: "env \<Rightarrow> unit m \<Rightarrow> proc \<Rightarrow> (server_end \<times> proc) option" where
  "run_com_server env dispatch s =
     (case run_state (start_server env) s of
        (Err e, s1) \<Rightarrow> Some (Panicked e, s1)
      | (Ok cookie, s1) \<Rightarrow>
          (case message_pump env dispatch s1 of
             None \<Rightarrow> None
           | Some s2 \<Rightarrow> Some (Exited, snd (run_state (shut_down cookie) s2))))"

subsection \<open>References\<close>

interpretation object_refs: ref_counted "\<lambda>s. map_option ref_count (objects s this)"
    "add_ref this" "release this" for this
  by unfold_locales
    (auto simp: add_ref_def release_def count_of_def set_count_def free_object_def split: option.splits)

interpretation factory_refs: ref_counted factory_count cf_add_ref cf_release
  by unfold_locales
    (auto simp: cf_add_ref_def cf_release_def factory_count_def factory_refs_def set_factory_count_def
      split: option.splits)

text \<open>
  C28. An authenticator object lives exactly as long as references to it are held: after any
  sequence of \<open>AddRef\<close> and \<open>Release\<close> by a client that releases only what it holds, the object
  is freed if and only if no reference is left. The same holds of the class factory.
\<close>

theorem reference_lifetime:
  assumes "well_behaved n bs" and "0 < n" and "n < 2 ^ 32"
    and "objects s this = Some ob" and "ref_count ob = of_nat n"
    and "factory s' = Some f" and "cf_ref_count f = of_nat n"
  shows "(objects (snd (run_state (run_refs (add_ref this) (release this) bs) s)) this = None
            \<longleftrightarrow> held n bs = 0) \<and>
         (factory (snd (run_state (run_refs cf_add_ref cf_release bs) s')) = None \<longleftrightarrow> held n bs = 0)"
proof
  have "map_option ref_count (objects s this) = Some (of_nat n)" using assms(4,5) by simp
  from object_refs.lifetime [OF assms(1) this assms(2,3)]
  show "objects (snd (run_state (run_refs (add_ref this) (release this) bs) s)) this = None
      \<longleftrightarrow> held n bs = 0"
    by (metis None_eq_map_option_iff option.distinct(1))
  have "factory_count s' = Some (of_nat n)" using assms(6,7) by (simp add: factory_count_def)
  from factory_refs.lifetime [OF assms(1) this assms(2,3)]
  show "factory (snd (run_state (run_refs cf_add_ref cf_release bs) s')) = None \<longleftrightarrow> held n bs = 0"
    unfolding factory_count_def by (metis None_eq_map_option_iff option.distinct(1))
qed

theorem reference_lifetime_witness:
  "objects (snd (run_state (run_refs (add_ref 0) (release 0) [True, False, False])
      (init_proc\<lparr>objects := [0 \<mapsto> \<lparr>ref_count = 1, obj_state = 0\<rparr>]\<rparr>))) 0 = None"
proof -
  have "well_behaved 1 [True, False, False]" by simp
  from reference_lifetime [OF this, of "init_proc\<lparr>objects := [0 \<mapsto> \<lparr>ref_count = 1, obj_state = 0\<rparr>]\<rparr>" 0
      "\<lparr>ref_count = 1, obj_state = 0\<rparr>"
      "init_proc\<lparr>factory := Some \<lparr>cf_ref_count = 1, cf_session_id = 1\<rparr>\<rparr>"
      "\<lparr>cf_ref_count = 1, cf_session_id = 1\<rparr>"]
  show ?thesis by simp
qed

text \<open>The references that keep the process alive, as COM counts them.\<close>

fun co_delta :: "event \<Rightarrow> int" where
  "co_delta (Com CoAddRefServerProcess) = 1"
| "co_delta (Com CoReleaseServerProcess) = -1"
| "co_delta _ = 0"

definition co_balance :: "proc \<Rightarrow> int" where
  "co_balance s = sum_list (map co_delta (trace s))"

lemma co_balance_keeps:
  assumes "emits_only P m" and "\<And>e. P e \<Longrightarrow> co_delta e = 0" and "run_state m s = (r, t)"
  shows "co_balance t = co_balance s"
proof -
  obtain es where "trace t = trace s @ es" "list_all P es"
    using emits_onlyD [OF assms(1,3)] by blast
  moreover from \<open>list_all P es\<close> have "sum_list (map co_delta es) = 0"
    using assms(2) by (induction es) auto
  ultimately show ?thesis by (simp add: co_balance_def)
qed

lemma is_call_co: "is_call e \<Longrightarrow> co_delta e = 0"
  by (cases e rule: co_delta.cases) auto

lemma session_only: "emits_only is_call (connect_and_handshake env sid)"
  unfolding connect_and_handshake_def drop_client_def connect_def
  by (intro only call_only_call connect_loop_only handshake_only
      emits_only_mono [OF reg_only is_call_intros(2)] emits_only_mono [OF hello_key_only is_call_intros(3)])
    simp_all

lemma shared_or_fresh_only: "emits_only is_call (shared_or_fresh env sid)"
  unfolding shared_or_fresh_def new_state_def Let_def
  by (intro only session_only emits_only_modify) simp_all

lemma session_frame:
  "(\<And>s tr. f (s\<lparr>trace := tr\<rparr>) = f s) \<Longrightarrow> (\<And>s x. f (s\<lparr>key_cache := x\<rparr>) = f s) \<Longrightarrow>
   keeps f (connect_and_handshake env sid)"
  unfolding connect_and_handshake_def drop_client_def
  by (intro frame call_frame connect_frame handshake_frame hello_key_frame)

lemma shared_or_fresh_frame:
  assumes "\<And>s tr. f (s\<lparr>trace := tr\<rparr>) = f s" and "\<And>s x. f (s\<lparr>key_cache := x\<rparr>) = f s"
    and "\<And>s x y. f (s\<lparr>heap := x, next_ref := y\<rparr>) = f s" and "\<And>s x. f (s\<lparr>shared_state := x\<rparr>) = f s"
    and "\<And>s x. f (s\<lparr>tasks := x\<rparr>) = f s"
  shows "keeps f (shared_or_fresh env sid)"
  unfolding shared_or_fresh_def new_state_def Let_def
  by (intro frame session_frame keeps_modify assms)

subsection \<open>Activation\<close>

definition known_iid :: "128 word \<Rightarrow> bool" where
  "known_iid iid = (iid = IID_IUNKNOWN \<or> iid = iid_iplugin_authenticator)"

lemma create_run:
  assumes "run_state (shared_or_fresh env
      (case factory s of Some f \<Rightarrow> cf_session_id f | None \<Rightarrow> 0)) s = (r, s1)"
  shows "run_state (cf_create_instance env iid) s =
    (case r of
       None \<Rightarrow> (None, s1)
     | Some a \<Rightarrow>
         if known_iid iid then
           (Some (S_OK, Some (next_obj s1)),
            s1\<lparr>objects := (objects s1)(next_obj s1 \<mapsto> \<lparr>ref_count = 2, obj_state = a\<rparr>),
               next_obj := next_obj s1 + 1, trace := trace s1 @ [Com CoAddRefServerProcess]\<rparr>)
         else
           (Some (E_NOINTERFACE, None),
            s1\<lparr>objects := (objects s1)(next_obj s1 := None), next_obj := next_obj s1 + 1,
               trace := trace s1 @ [Com CoAddRefServerProcess, Com (FreeObject (next_obj s1)),
                 Com CoReleaseServerProcess]\<rparr>))"
  using assms
  by (auto simp: cf_create_instance_def new_authenticator_def query_interface_def add_ref_def
      count_of_def set_count_def free_object_def known_iid_def split: option.splits)

lemma shared_run:
  "shared_state s = Some a \<Longrightarrow> run_state (shared_or_fresh env sid) s = (Some a, s)"
  by (simp add: shared_or_fresh_def)

lemma fresh_run:
  assumes "shared_state s = None"
  shows "run_state (shared_or_fresh env sid) s =
    (case run_state (connect_and_handshake env sid) s of
       (None, t) \<Rightarrow> (None, t)
     | (Some r, t) \<Rightarrow>
         (Some (next_ref t),
          let p = (case r of Ok p \<Rightarrow> Some p | Err _ \<Rightarrow> None);
              t' = t\<lparr>heap := (heap t)(next_ref t \<mapsto> \<lparr>session_id = sid, pipe = p\<rparr>),
                     next_ref := next_ref t + 1\<rparr>
          in if p = None then t'
             else t'\<lparr>shared_state := Some (next_ref t), tasks := tasks t @ [next_ref t]\<rparr>))"
  using assms
  by (auto simp: shared_or_fresh_def new_state_def Let_def split: prod.splits option.splits sum.splits)

lemma shared_or_fresh_conn:
  "ensures conn_inv (shared_or_fresh env sid) (unless_aborted conn_inv)"
proof (rule ensuresI)
  fix s x t assume inv: "conn_inv s" and run: "run_state (shared_or_fresh env sid) s = (x, t)"
  show "unless_aborted conn_inv x t"
  proof (cases "shared_state s")
    case (Some a)
    from run have "t = s" by (simp add: shared_run [OF Some])
    with inv show ?thesis by (simp add: unless_aborted_def)
  next
    case None
    obtain r t1 where session: "run_state (connect_and_handshake env sid) s = (r, t1)" by fastforce
    have "linked None s" using inv None by (simp add: conn_inv_def)
    note linked = ensuresD [OF linked_session this session]
    have heap: "heap t1 = heap s" and slot: "shared_state t1 = shared_state s"
      by (rule keepsD [OF session_frame session]; simp)+
    have none: "pipe_of b t1 = None" for b
      using inv None pipe_of_heap [OF heap] by (auto simp: conn_inv_def)
    show ?thesis
    proof (cases r)
      case None
      with run session fresh_run [OF \<open>shared_state s = None\<close>] show ?thesis by simp
    next
      case (Some res)
      let ?p = "case res of Ok p \<Rightarrow> Some p | Err _ \<Rightarrow> None"
      from run session fresh_run [OF None] Some
      have x: "x = Some (next_ref t1)" and t: "trace t = trace t1"
          "heap t = (heap t1)(next_ref t1 \<mapsto> \<lparr>session_id = sid, pipe = ?p\<rparr>)"
          "shared_state t = (if ?p = None then None else Some (next_ref t1))"
        using slot None by (auto simp: Let_def split: if_splits sum.splits)
      have "pipe_of b t = (if b = next_ref t1 then ?p else None)" for b
        using none [of b] by (simp add: pipe_of_def t)
      moreover have "linked (map_option transport ?p) t"
        using linked Some t(1) by (cases res) (simp_all add: linked_def)
      ultimately show ?thesis
        unfolding x using t(3) by (cases res) (simp_all add: conn_inv_def)
    qed
  qed
qed

fun is_object_event :: "event \<Rightarrow> bool" where
  "is_object_event (Com CoAddRefServerProcess) = True"
| "is_object_event (Com CoReleaseServerProcess) = True"
| "is_object_event (Com (FreeObject _)) = True"
| "is_object_event _ = False"

lemma is_object_event_others: "is_object_event e \<Longrightarrow> not_pipe e" "is_object_event e \<Longrightarrow> \<not> is_uv e"
  by (cases e rule: is_object_event.cases; simp)+

interpretation create: com_operation "cf_create_instance env iid" for env iid
proof
  let ?rest = "\<lambda>a. do {
     raw \<leftarrow> new_authenticator a;
     emit (Com CoAddRefServerProcess);
     (hr, ppv) \<leftarrow> query_interface raw iid;
     (if hr_is_err hr then do { free_object raw; emit (Com CoReleaseServerProcess) } else ret ());
     ret (Some (hr, ppv))
   }"
  have frame: "keeps f (?rest a)"
    if "\<And>s tr. f (s\<lparr>trace := tr\<rparr>) = f s" "\<And>s x y. f (s\<lparr>objects := x, next_obj := y\<rparr>) = f s"
      "\<And>s x. f (s\<lparr>objects := x\<rparr>) = f s" for f :: "proc \<Rightarrow> 'c" and a
    unfolding new_authenticator_def query_interface_def add_ref_def set_count_def free_object_def
    by (intro frame keeps_modify that)
  have only: "emits_only is_object_event (?rest a)" for a
    unfolding new_authenticator_def query_interface_def add_ref_def set_count_def free_object_def
    by (intro only emits_only_modify) simp_all
  have sid: "ensures P (gets g) (\<lambda>_. P)" for P :: "proc \<Rightarrow> bool" and g :: "proc \<Rightarrow> u32"
    by (rule ensures_gets)
  show "ensures conn_inv (cf_create_instance env iid) (unless_aborted conn_inv)"
    unfolding cf_create_instance_def
    by (intro ensures_bind [OF sid] ensures_conn_or_abort shared_or_fresh_conn ensures_unless
        conn_frame frame emits_only_mono [OF only is_object_event_others(1)]) simp_all
  show "ensures uv_inv (cf_create_instance env iid) (\<lambda>_. uv_inv)"
    unfolding cf_create_instance_def
    by (intro ensures_bind [OF sid] uv_or_abort
        uv_frame [OF shared_or_fresh_frame emits_only_evs [OF shared_or_fresh_only is_call_not_uv]]
        uv_frame [OF frame emits_only_evs [OF only is_object_event_others(2)]]) simp_all
qed

lemma create_parts:
  obtains (aborted) t where "run_state (cf_create_instance env iid) s = (None, t)"
  | (known) a s1 where "known_iid iid" "co_balance s1 = co_balance s" "objects s1 = objects s"
      "run_state (cf_create_instance env iid) s =
         (Some (S_OK, Some (next_obj s1)),
          s1\<lparr>objects := (objects s1)(next_obj s1 \<mapsto> \<lparr>ref_count = 2, obj_state = a\<rparr>),
             next_obj := next_obj s1 + 1, trace := trace s1 @ [Com CoAddRefServerProcess]\<rparr>)"
  | (unknown) s1 where "\<not> known_iid iid" "co_balance s1 = co_balance s" "objects s1 = objects s"
      "run_state (cf_create_instance env iid) s =
         (Some (E_NOINTERFACE, None),
          s1\<lparr>objects := (objects s1)(next_obj s1 := None), next_obj := next_obj s1 + 1,
             trace := trace s1 @ [Com CoAddRefServerProcess, Com (FreeObject (next_obj s1)),
               Com CoReleaseServerProcess]\<rparr>)"
proof -
  obtain r s1 where run: "run_state (shared_or_fresh env
      (case factory s of Some f \<Rightarrow> cf_session_id f | None \<Rightarrow> 0)) s = (r, s1)" by fastforce
  have "co_balance s1 = co_balance s"
    by (rule co_balance_keeps [OF shared_or_fresh_only is_call_co run])
  moreover have "objects s1 = objects s"
    by (rule keepsD [OF shared_or_fresh_frame run]) simp_all
  ultimately show thesis
    using create_run [OF run, of iid] that by (cases r) (auto split: if_splits)
qed

text \<open>
  C12. Activation accounts for the life of the process: a request for an interface the object
  has gives \<open>S_OK\<close>, one new object over the shared or a fresh state, and one reference of the
  server process; any other request gives \<open>E_NOINTERFACE\<close>, a null pointer, no object, and
  leaves the references of the process as they were.
\<close>

theorem activation_accounts:
  "case run_state (cf_create_instance env iid) s of
     (None, t) \<Rightarrow> True
   | (Some (hr, ppv), t) \<Rightarrow>
       (if known_iid iid then
          hr = S_OK \<and> co_balance t = co_balance s + 1 \<and>
          (\<exists>obj a. ppv = Some obj \<and> objects t = (objects s)(obj \<mapsto> \<lparr>ref_count = 2, obj_state = a\<rparr>))
        else
          hr = E_NOINTERFACE \<and> ppv = None \<and> co_balance t = co_balance s \<and>
          (\<exists>obj. objects t = (objects s)(obj := None)))"
  by (rule create_parts [of env iid s]) (auto simp: co_balance_def)

text \<open>
  C13. The reference count an activation hands out is one too high: the object starts with one
  reference, \<open>QueryInterface\<close> adds one, and the first is not released. So when the client
  releases the one reference it was given, the object stays alive and the process keeps its
  reference: no client that balances its calls ever lets the server end.
\<close>

theorem activation_leaks:
  "case run_state (cf_create_instance env iid) s of
     (Some (hr, Some obj), t) \<Rightarrow>
       (case run_state (release obj) t of (n, t') \<Rightarrow>
          n = 1 \<and> objects t' obj \<noteq> None \<and> co_balance t' = co_balance t)
   | _ \<Rightarrow> True"
  by (rule create_parts [of env iid s])
    (auto simp: release_def count_of_def set_count_def co_balance_def)

text \<open>
  C11. Activations share one connection. When the shared slot is filled, an activation does no
  I/O and its object refers to the state of the slot. When it is empty, one connection and
  handshake is attempted, and the slot is filled, with a reconciliation task spawned for it,
  exactly when that succeeded: a failed activation is not cached.
\<close>

theorem activation_shares:
  "case shared_state s of
     Some a \<Rightarrow>
       (case run_state (cf_create_instance env iid) s of (r, t) \<Rightarrow>
          evs is_io t = evs is_io s \<and> shared_state t = Some a \<and> tasks t = tasks s \<and> r \<noteq> None \<and>
          (case r of
             Some (hr, Some obj) \<Rightarrow> map_option obj_state (objects t obj) = Some a
           | _ \<Rightarrow> True))
   | None \<Rightarrow>
       (case run_state (connect_and_handshake env
            (case factory s of Some f \<Rightarrow> cf_session_id f | None \<Rightarrow> 0)) s of (r1, s1) \<Rightarrow>
        (case run_state (cf_create_instance env iid) s of (r, t) \<Rightarrow>
          (r = None \<longleftrightarrow> r1 = None) \<and>
          (case r1 of
             Some (Ok p) \<Rightarrow> \<exists>a. shared_state t = Some a \<and> pipe_of a t = Some p \<and> tasks t = tasks s1 @ [a]
           | _ \<Rightarrow> shared_state t = shared_state s1 \<and> tasks t = tasks s1)))"
proof (cases "shared_state s")
  case (Some a)
  then show ?thesis
    using create_run [OF shared_run [OF Some], where iid = iid] by (auto simp: evs_def)
next
  case None
  let ?sid = "case factory s of Some f \<Rightarrow> cf_session_id f | None \<Rightarrow> 0"
  obtain r1 s1 where session: "run_state (connect_and_handshake env ?sid) s = (r1, s1)" by fastforce
  note fresh = fresh_run [OF None, of env ?sid, unfolded session prod.case]
  show ?thesis
  proof (cases r1)
    case r1: None
    have "run_state (shared_or_fresh env ?sid) s = (None, s1)" using fresh r1 by simp
    from create_run [OF this, where iid = iid] None session r1 show ?thesis by simp
  next
    case (Some res)
    show ?thesis
    proof (cases res)
      case (Inl e)
      then have "run_state (shared_or_fresh env ?sid) s = (Some (next_ref s1),
          s1\<lparr>heap := (heap s1)(next_ref s1 \<mapsto> \<lparr>session_id = ?sid, pipe = None\<rparr>),
             next_ref := next_ref s1 + 1\<rparr>)"
        using fresh Some by (simp add: Let_def)
      from create_run [OF this, where iid = iid] None session Some Inl show ?thesis by (auto split: option.splits)
    next
      case (Inr p)
      then have "run_state (shared_or_fresh env ?sid) s = (Some (next_ref s1),
          s1\<lparr>heap := (heap s1)(next_ref s1 \<mapsto> \<lparr>session_id = ?sid, pipe = Some p\<rparr>),
             next_ref := next_ref s1 + 1, shared_state := Some (next_ref s1),
             tasks := tasks s1 @ [next_ref s1]\<rparr>)"
        using fresh Some by (simp add: Let_def)
      from create_run [OF this, where iid = iid] None session Some Inr show ?thesis by (simp add: pipe_of_def)
    qed
  qed
qed

subsection \<open>The pump\<close>

text \<open>The state of the process when it asks for its \<open>k\<close>-th message.\<close>

fun pump_state :: "env \<Rightarrow> unit m \<Rightarrow> nat \<Rightarrow> proc \<Rightarrow> proc" where
  "pump_state env d 0 s = s"
| "pump_state env d (Suc k) s = pump_state env d k (after_dispatch d (snd (run_state (get_message env) s)))"

definition message_at :: "env \<Rightarrow> unit m \<Rightarrow> proc \<Rightarrow> nat \<Rightarrow> i32" where
  "message_at env d s k = fst (run_state (get_message env) (pump_state env d k s))"

lemma pump_step:
  "message_pump env d s =
     (if quits (message_at env d s 0) then Some (snd (run_state (get_message env) s))
      else message_pump env d (after_dispatch d (snd (run_state (get_message env) s))))"
  by (subst message_pump.simps) (simp add: message_at_def split: prod.split)

lemma message_at_Suc:
  "message_at env d s (Suc k) =
     message_at env d (after_dispatch d (snd (run_state (get_message env) s))) k"
  by (simp add: message_at_def)

lemma pump_returns: "quits (message_at env d s k) \<Longrightarrow> \<exists>t. message_pump env d s = Some t"
proof (induction k arbitrary: s)
  case 0
  then show ?case by (subst pump_step) simp
next
  case (Suc k)
  then show ?case by (subst pump_step) (simp add: message_at_Suc)
qed

lemma pump_quit:
  assumes "message_pump env d s = Some t"
  shows "\<exists>k. quits (message_at env d s k)"
proof (rule message_pump.raw_induct [where P = "\<lambda>env d s t. \<exists>k. quits (message_at env d s k)", OF _ assms])
  fix pump :: "env \<Rightarrow> unit m \<Rightarrow> proc \<Rightarrow> proc option" and env d s t
  assume IH: "\<And>env d s t. pump env d s = Some t \<Longrightarrow> \<exists>k. quits (message_at env d s k)"
    and step: "(case run_state (get_message env) s of (r, s1) \<Rightarrow>
        if quits r then Some s1 else pump env d (after_dispatch d s1)) = Some t"
  show "\<exists>k. quits (message_at env d s k)"
  proof (cases "quits (message_at env d s 0)")
    case True
    then show ?thesis ..
  next
    case False
    with step have "pump env d (after_dispatch d (snd (run_state (get_message env) s))) = Some t"
      by (auto simp: message_at_def split: prod.splits if_splits)
    from IH [OF this] obtain k where "quits (message_at env d s (Suc k))"
      by (auto simp: message_at_Suc)
    then show ?thesis ..
  qed
qed

lemma pump_none: "message_pump env d s = None \<longleftrightarrow> (\<forall>k. \<not> quits (message_at env d s k))"
  using pump_returns pump_quit by (metis option.distinct(1) option.exhaust)


end
