(* ===== verification/Com_Session.thy ===== *)
theory Com_Session
  imports Com_Server
begin

text \<open>
  The COM interfaces as their clients see them: the two virtual tables, and a session, the
  sequence of calls that the message pump delivers after the server has started. Each call goes
  through the slot of the table, on the factory or on an object that an activation handed out.
\<close>

subsection \<open>The virtual tables\<close>

record IUnknownVtbl =
  vt_query_interface :: "nat \<Rightarrow> 128 word \<Rightarrow> (hresult \<times> nat option) m"
  vt_add_ref :: "nat \<Rightarrow> u32 m"
  vt_release :: "nat \<Rightarrow> u32 m"

text \<open>The methods of the interface take the state that the object refers to.\<close>

record IPluginAuthenticatorVtbl =
  iunknown :: IUnknownVtbl
  vt_make_credential :: "nat \<Rightarrow> OperationRequest \<Rightarrow> (hresult \<times> op_response) option m"
  vt_get_assertion :: "nat \<Rightarrow> OperationRequest \<Rightarrow> (hresult \<times> op_response) option m"
  vt_cancel_operation :: "nat \<Rightarrow> Guid \<Rightarrow> hresult option m"
  vt_get_lock_status :: "nat \<Rightarrow> (hresult \<times> PluginLockStatus option) option m"

definition authenticator_vtbl :: "env \<Rightarrow> IPluginAuthenticatorVtbl" where
  "authenticator_vtbl env =
     \<lparr>iunknown = \<lparr>vt_query_interface = query_interface, vt_add_ref = add_ref, vt_release = release\<rparr>,
      vt_make_credential = make_credential env, vt_get_assertion = get_assertion env,
      vt_cancel_operation = cancel_operation env, vt_get_lock_status = get_lock_status env\<rparr>"

record ClassFactoryVtbl =
  cfv_query_interface :: "128 word \<Rightarrow> (hresult \<times> bool) m"
  cfv_add_ref :: "u32 m"
  cfv_release :: "u32 m"
  cfv_create_instance :: "128 word \<Rightarrow> (hresult \<times> nat option) option m"
  cfv_lock_server :: "i32 \<Rightarrow> hresult m"

definition factory_vtbl :: "env \<Rightarrow> ClassFactoryVtbl" where
  "factory_vtbl env =
     \<lparr>cfv_query_interface = cf_query_interface, cfv_add_ref = cf_add_ref, cfv_release = cf_release,
      cfv_create_instance = cf_create_instance env, cfv_lock_server = cf_lock_server\<rparr>"

subsection \<open>Sessions\<close>

datatype object_call =
    QueryInterface "128 word"
  | AddRef
  | Release
  | MakeCredential OperationRequest
  | GetAssertion OperationRequest
  | CancelOperation Guid
  | GetLockStatus

datatype com_call =
    FactoryQueryInterface "128 word"
  | FactoryAddRef
  | FactoryRelease
  | CreateInstance "128 word"
  | LockServer i32
  | ObjectCall nat object_call

abbreviation done_with :: "'a option m \<Rightarrow> unit option m" where
  "done_with m \<equiv> or_abort m (\<lambda>_. ret (Some ()))"

fun call_object :: "IPluginAuthenticatorVtbl \<Rightarrow> nat \<Rightarrow> nat \<Rightarrow> object_call \<Rightarrow> unit option m" where
  "call_object vt this a (QueryInterface iid) = done_with (lift_m (vt_query_interface (iunknown vt) this iid))"
| "call_object vt this a AddRef = done_with (lift_m (vt_add_ref (iunknown vt) this))"
| "call_object vt this a Release = done_with (lift_m (vt_release (iunknown vt) this))"
| "call_object vt this a (MakeCredential req) = done_with (vt_make_credential vt a req)"
| "call_object vt this a (GetAssertion req) = done_with (vt_get_assertion vt a req)"
| "call_object vt this a (CancelOperation txid) = done_with (vt_cancel_operation vt a txid)"
| "call_object vt this a GetLockStatus = done_with (vt_get_lock_status vt a)"

text \<open>\<open>None\<close>: the process aborted, or the client used an object that does not exist (any more).\<close>

fun serve_call :: "env \<Rightarrow> com_call \<Rightarrow> unit option m" where
  "serve_call env (FactoryQueryInterface iid) = done_with (lift_m (cfv_query_interface (factory_vtbl env) iid))"
| "serve_call env FactoryAddRef = done_with (lift_m (cfv_add_ref (factory_vtbl env)))"
| "serve_call env FactoryRelease = done_with (lift_m (cfv_release (factory_vtbl env)))"
| "serve_call env (CreateInstance iid) = done_with (cfv_create_instance (factory_vtbl env) iid)"
| "serve_call env (LockServer lock) = done_with (lift_m (cfv_lock_server (factory_vtbl env) lock))"
| "serve_call env (ObjectCall this c) = do {
     ob \<leftarrow> gets (\<lambda>s. objects s this);
     (case ob of
        None \<Rightarrow> ret None
      | Some ob \<Rightarrow> call_object (authenticator_vtbl env) this (obj_state ob) c)
   }"

fun com_session :: "env \<Rightarrow> com_call list \<Rightarrow> unit option m" where
  "com_session env [] = ret (Some ())"
| "com_session env (c # cs) = or_abort (serve_call env c) (\<lambda>_. com_session env cs)"

text \<open>From the start of the server.\<close>

definition served :: "env \<Rightarrow> com_call list \<Rightarrow> unit option m" where
  "served env cs = do {
     r \<leftarrow> start_server env;
     (case r of Err _ \<Rightarrow> ret None | Ok _ \<Rightarrow> com_session env cs)
   }"

subsection \<open>Every call keeps the invariants\<close>

fun is_server_event :: "event \<Rightarrow> bool" where
  "is_server_event (Pipe _) = False"
| "is_server_event (Dll _) = False"
| "is_server_event _ = True"

lemma server_event_others: "is_server_event e \<Longrightarrow> not_pipe e" "is_server_event e \<Longrightarrow> \<not> is_uv e"
  by (cases e; simp)+

text \<open>A computation that leaves the connection and the bindings alone meets the contract.\<close>

lemma local_operation:
  assumes "emits_only is_server_event m" and "keeps heap m" and "keeps shared_state m" and "keeps uv_cache m"
  shows "com_operation (lift_m m)"
proof
  show "ensures conn_inv (lift_m m) (unless_aborted conn_inv)"
    by (intro ensures_unless conn_frame keeps_lift_m emits_only_lift_m assms
        emits_only_mono [OF assms(1) server_event_others(1)])
  show "ensures uv_inv (lift_m m) (\<lambda>_. uv_inv)"
    by (intro uv_frame keeps_lift_m assms emits_only_evs [OF assms(1) server_event_others(2)])
qed

lemma com_or_abort:
  assumes "com_operation m" and "\<And>x. com_operation (k x)"
  shows "com_operation (or_abort m k)"
  using assms unfolding com_operation_def by (auto intro: ensures_conn_or_abort uv_or_abort)

lemma com_ret: "com_operation (ret x)"
  by unfold_locales (auto intro!: ensures_return simp: unless_aborted_def split: option.split)

lemma local_calls:
  "com_operation (lift_m (query_interface this iid))" "com_operation (lift_m (add_ref this))"
  "com_operation (lift_m (release this))" "com_operation (lift_m (cf_query_interface iid))"
  "com_operation (lift_m cf_add_ref)" "com_operation (lift_m cf_release)"
  "com_operation (lift_m (cf_lock_server lock))"
  unfolding query_interface_def add_ref_def release_def free_object_def set_count_def
    cf_query_interface_def cf_add_ref_def cf_release_def set_factory_count_def cf_lock_server_def
  by (rule local_operation; intro only frame emits_only_modify keeps_modify; simp)+

lemma dispatch_calls: "com_operation (make_credential env a req)" "com_operation (get_assertion env a req)"
  by (simp_all add: make_credential_def get_assertion_def dispatch.com_operation_axioms)

lemma com_gets: "(\<And>x. com_operation (k x)) \<Longrightarrow> com_operation (gets f \<bind> k)"
  unfolding com_operation_def by (auto intro!: ensures_bind [OF ensures_gets])

lemma object_operation: "com_operation (call_object (authenticator_vtbl env) this a c)"
  by (cases c)
    (simp_all add: authenticator_vtbl_def com_or_abort com_ret local_calls dispatch_calls
      cancel.com_operation_axioms lock_status.com_operation_axioms)

lemma serve_operation: "com_operation (serve_call env c)"
proof (cases c)
  case (ObjectCall this c')
  then show ?thesis
    by (auto intro!: com_gets com_ret object_operation split: option.split)
qed (simp_all add: factory_vtbl_def com_or_abort com_ret local_calls create.com_operation_axioms)

lemma session_operation: "com_operation (com_session env cs)"
  by (induction cs) (simp_all add: com_ret com_or_abort serve_operation)

interpretation session: com_operation "com_session env cs" for env cs
  by (rule session_operation)

subsection \<open>What keeps the process alive\<close>

text \<open>
  The process reference that COM counts is one for every live object and one for every lock of
  the factory that was not taken back.
\<close>

fun lock_delta :: "com_call \<Rightarrow> int" where
  "lock_delta (LockServer lock) = (if lock \<noteq> 0 then 1 else -1)"
| "lock_delta _ = 0"

definition accounts :: "int \<Rightarrow> proc \<Rightarrow> bool" where
  "accounts locks s = (finite (dom (objects s)) \<and> (\<forall>i\<ge>next_obj s. objects s i = None) \<and>
     co_balance s = int (card (dom (objects s))) + locks)"

definition books :: "proc \<Rightarrow> (nat \<Rightarrow> IPluginAuthenticatorImpl option) \<times> nat \<times> int" where
  "books s = (objects s, next_obj s, co_balance s)"

lemma keeps_books:
  assumes "emits_only P m" and "\<And>e. P e \<Longrightarrow> co_delta e = 0" and "keeps objects m" and "keeps next_obj m"
  shows "keeps books m"
  unfolding keeps_def
proof
  fix s
  obtain r t where run: "run_state m s = (r, t)" by fastforce
  from co_balance_keeps [OF assms(1,2) run] keepsD [OF assms(3) run] keepsD [OF assms(4) run] run
  show "books (snd (run_state m s)) = books s" by (simp add: books_def)
qed

lemma books_accounts: "keeps books m \<Longrightarrow> run_state m s = (r, t) \<Longrightarrow> accounts n s \<Longrightarrow> accounts n t"
  using keepsD [of books m s r t] by (auto simp: books_def accounts_def)

lemma event_co: "is_uv_event e \<Longrightarrow> co_delta e = 0" "is_answer e \<Longrightarrow> co_delta e = 0"
  by (cases e rule: co_delta.cases; simp)+

lemma call_books: "keeps books (take_call_with_retry env a rpc ps)"
  by (intro keeps_books [OF take_call_only is_call_co] take_call_frame) simp_all

lemma operation_books:
  "keeps books (dispatch_operation env a req rpc)" "keeps books (cancel_operation env a txid)"
  "keeps books (get_lock_status env a)"
  unfolding dispatch_operation_def cancel_operation_def get_lock_status_def
  by (intro frame call_books keeps_books [OF verify_user_only event_co(1)] verify_user_frame
      keeps_books [OF answer_only event_co(2)] answer_frame; simp)+

lemma count_accounts:
  "objects s this = Some ob \<Longrightarrow> accounts n s \<Longrightarrow> accounts n (snd (run_state (set_count this k) s))"
  by (auto simp: set_count_def accounts_def co_balance_def intro!: arg_cong [where f = card])

lemma add_ref_accounts:
  "objects s this = Some ob \<Longrightarrow> accounts n s \<Longrightarrow> run_state (add_ref this) s = (r, t) \<Longrightarrow> accounts n t"
  using count_accounts [of s this ob n "count_of this s + 1"] by (auto simp: add_ref_def split: prod.splits)

lemma query_accounts:
  "objects s this = Some ob \<Longrightarrow> accounts n s \<Longrightarrow> run_state (query_interface this iid) s = (r, t) \<Longrightarrow>
   accounts n t"
  using add_ref_accounts [of s this ob n] by (auto simp: query_interface_def split: if_splits prod.splits)

text \<open>The last release takes away both the object and its reference of the process.\<close>

lemma release_accounts:
  assumes "objects s this = Some ob" and acc: "accounts n s" and run: "run_state (release this) s = (r, t)"
  shows "accounts n t"
proof -
  let ?s = "snd (run_state (set_count this (count_of this s - 1)) s)"
  have acc1: "accounts n ?s" and live: "this \<in> dom (objects ?s)"
    using count_accounts [OF assms(1) acc] assms(1) by (auto simp: set_count_def)
  show ?thesis
  proof (cases "count_of this s = 1")
    case True
    with run have t: "objects t = (objects ?s)(this := None)" "next_obj t = next_obj ?s"
        "co_balance t = co_balance ?s - 1"
      by (auto simp: release_def free_object_def set_count_def co_balance_def)
    have "card (dom (objects ?s)) = Suc (card (dom (objects ?s) - {this}))"
      by (rule card.remove [OF _ live]) (use acc1 in \<open>simp add: accounts_def\<close>)
    with acc1 t show ?thesis by (simp add: accounts_def)
  next
    case False
    with run have "t = ?s" by (auto simp: release_def set_count_def)
    with acc1 show ?thesis by simp
  qed
qed

lemma create_accounts:
  assumes acc: "accounts n s" and run: "run_state (cf_create_instance env iid) s = (Some r, t)"
  shows "accounts n t"
proof -
  obtain x s1 where fresh: "run_state (shared_or_fresh env
      (case factory s of Some f \<Rightarrow> cf_session_id f | None \<Rightarrow> 0)) s = (x, s1)" by fastforce
  have "keeps books (shared_or_fresh env sid)" for sid
    by (intro keeps_books [OF shared_or_fresh_only is_call_co] shared_or_fresh_frame) simp_all
  from books_accounts [OF this fresh acc] have acc1: "accounts n s1" .
  then have new: "next_obj s1 \<notin> dom (objects s1)" "finite (dom (objects s1))"
    by (auto simp: accounts_def)
  have card: "card (insert (next_obj s1) (dom (objects s1))) = Suc (card (dom (objects s1)))"
    by (rule card_insert_disjoint [OF new(2,1)])
  have gone: "(objects s1)(next_obj s1 := None) = objects s1"
    using new(1) by (simp add: fun_upd_idem domIff)
  show ?thesis
  proof (cases x)
    case None
    with run create_run [OF fresh, of iid] show ?thesis by simp
  next
    case (Some a)
    with run create_run [OF fresh, of iid] acc1 card gone show ?thesis
      by (auto simp: accounts_def co_balance_def split: if_splits)
  qed
qed

lemma operation_accounts:
  assumes "keeps books m" and "accounts n s" and "run_state (done_with m) s = (Some u, t)"
  shows "accounts n t"
  using assms(3) books_accounts [OF assms(1) _ assms(2)]
  by (auto split: prod.splits option.splits)

lemma object_accounts:
  assumes live: "objects s this = Some ob" and acc: "accounts n s"
    and run: "run_state (call_object (authenticator_vtbl env) this a c) s = (Some u, t)"
  shows "accounts n t"
proof (cases c)
  case (QueryInterface iid)
  with run query_accounts [OF live acc] show ?thesis
    by (auto simp: authenticator_vtbl_def split: prod.splits)
next
  case AddRef
  with run add_ref_accounts [OF live acc] show ?thesis
    by (auto simp: authenticator_vtbl_def split: prod.splits)
next
  case Release
  with run release_accounts [OF live acc] show ?thesis
    by (auto simp: authenticator_vtbl_def split: prod.splits)
next
  case (MakeCredential req)
  with run show ?thesis
    by (intro operation_accounts [OF operation_books(1) acc])
      (simp add: authenticator_vtbl_def make_credential_def)
next
  case (GetAssertion req)
  with run show ?thesis
    by (intro operation_accounts [OF operation_books(1) acc])
      (simp add: authenticator_vtbl_def get_assertion_def)
next
  case (CancelOperation txid)
  with run show ?thesis
    by (intro operation_accounts [OF operation_books(2) acc]) (simp add: authenticator_vtbl_def)
next
  case GetLockStatus
  with run show ?thesis
    by (intro operation_accounts [OF operation_books(3) acc]) (simp add: authenticator_vtbl_def)
qed

lemma serve_accounts:
  assumes acc: "accounts n s" and run: "run_state (serve_call env c) s = (Some u, t)"
  shows "accounts (n + lock_delta c) t"
proof (cases c)
  case (CreateInstance iid)
  with run create_accounts [OF acc, of env iid] show ?thesis
    by (auto simp: factory_vtbl_def split: prod.splits option.splits)
next
  case (LockServer lock)
  with run acc show ?thesis
    by (auto simp: factory_vtbl_def cf_lock_server_def accounts_def co_balance_def split: if_splits)
next
  case (ObjectCall this oc)
  with run obtain ob where live: "objects s this = Some ob"
      and call: "run_state (call_object (authenticator_vtbl env) this (obj_state ob) oc) s = (Some u, t)"
    by (auto split: option.splits)
  from object_accounts [OF live acc call] ObjectCall show ?thesis by simp
next
  case (FactoryQueryInterface iid)
  with run acc show ?thesis
    by (auto simp: factory_vtbl_def cf_query_interface_def cf_add_ref_def set_factory_count_def accounts_def
        co_balance_def split: prod.splits if_splits)
next
  case FactoryAddRef
  with run acc show ?thesis
    by (auto simp: factory_vtbl_def cf_add_ref_def set_factory_count_def accounts_def co_balance_def
        split: prod.splits)
next
  case FactoryRelease
  with run acc show ?thesis
    by (auto simp: factory_vtbl_def cf_release_def set_factory_count_def accounts_def co_balance_def
        split: prod.splits if_splits)
qed

lemma session_accounts:
  "accounts n s \<Longrightarrow> run_state (com_session env cs) s = (Some u, t) \<Longrightarrow>
   accounts (n + sum_list (map lock_delta cs)) t"
proof (induction cs arbitrary: n s)
  case (Cons c cs)
  then obtain v s1 where call: "run_state (serve_call env c) s = (Some v, s1)"
      and rest: "run_state (com_session env cs) s1 = (Some u, t)"
    by (auto split: prod.splits option.splits)
  from Cons.IH [OF serve_accounts [OF Cons.prems(1) call] rest] show ?case by (simp add: add.assoc)
qed simp

definition co_neutral :: "event \<Rightarrow> bool" where
  "co_neutral e = (co_delta e = 0)"

lemma start_keeps:
  assumes "run_state (start_server env) init_proc = (r, t)"
  shows "conn_inv t \<and> uv_inv t \<and> accounts 0 t"
proof -
  have events: "emits_only is_server_event (start_server env)"
    unfolding start_server_def new_class_factory_def by (intro only emits_only_modify) simp_all
  have co: "emits_only co_neutral (start_server env)"
    unfolding start_server_def new_class_factory_def
    by (intro only emits_only_modify) (simp_all add: co_neutral_def)
  have kept: "keeps f (start_server env)"
    if "\<And>s tr. f (s\<lparr>trace := tr\<rparr>) = f s" "\<And>s x. f (s\<lparr>factory := x\<rparr>) = f s" for f :: "proc \<Rightarrow> 'c"
    unfolding start_server_def new_class_factory_def by (intro frame keeps_modify that)
  have "conn_inv t"
    by (rule ensuresD [OF conn_frame [OF kept kept emits_only_mono [OF events server_event_others(1)]]
          conn_inv_init assms]) simp_all
  moreover have "uv_inv t"
    by (rule ensuresD [OF uv_frame [OF kept emits_only_evs [OF events server_event_others(2)]]
          uv_inv_init assms]) simp_all
  moreover have "accounts 0 init_proc" by (simp add: accounts_def co_balance_def init_proc_def)
  from books_accounts [OF keeps_books [OF co _ kept kept] assms this]
  have "accounts 0 t" by (simp add: co_neutral_def)
  ultimately show ?thesis by blast
qed

text \<open>
  C7. The life of a server, from the start of the process: whatever calls Windows and its
  clients make through the two virtual tables, in whatever order, and whatever the plugin, the
  registry and \<open>webauthn.dll\<close> answer, as long as the process has not aborted: exactly the state in the
  shared slot has a pipe, and the one handle that is open is that pipe's; the monitor of the
  pipe has seen no violation; the verification entry point that is not implemented was not
  called again; and the references that keep the process alive are one for each object that
  still exists and one for each lock of the factory, less one for each unlock.
\<close>

theorem server_life:
  "case run_state (served env cs) init_proc of
     (None, t) \<Rightarrow> True
   | (Some _, t) \<Rightarrow>
       conn_inv t \<and> monitor None (trace t) \<noteq> None \<and> v2_quiet (evs is_uv t) \<and>
       co_balance t = int (card (dom (objects t))) + sum_list (map lock_delta cs)"
proof -
  obtain r s1 where start: "run_state (start_server env) init_proc = (r, s1)" by fastforce
  note inv = start_keeps [OF start]
  obtain x t where run: "run_state (com_session env cs) s1 = (x, t)" by fastforce
  have "conn_inv t \<and> uv_inv t" if "x = Some u" for u
    using session.preserves [of s1 env cs u t] inv run that by blast
  moreover have "monitor None (trace t) \<noteq> None" if "x = Some u" for u
    using session.no_violation [of s1 env cs u t] inv run that by blast
  moreover have "accounts (sum_list (map lock_delta cs)) t" if "x = Some u" for u
    using session_accounts [of 0 s1 env cs u t] inv run that by simp
  ultimately show ?thesis
    using start run
    by (auto simp: served_def uv_inv_def accounts_def split: sum.split option.split)
qed

text \<open>
  A session without the plugin: the activation still gives an object, whose second reference the
  client returns.
\<close>

lemma served_without_plugin:
  "fst (run_state (served sample_env
     [CreateInstance IID_IUNKNOWN, ObjectCall 0 AddRef, ObjectCall 0 Release, LockServer 1]) init_proc) = Some ()"
  by (simp add: served_def start_server_def new_class_factory_def factory_vtbl_def authenticator_vtbl_def
      cf_create_instance_def shared_or_fresh_def connect_and_handshake_def connect_def delays_ms_def
      try_connect_def get_session_id_def init_proc_def new_state_def new_authenticator_def
      query_interface_def add_ref_def release_def cf_lock_server_def set_count_def free_object_def
      count_of_def sample_env_def)

end
