(* ===== verification/Sta_Wait.thy ===== *)
theory Sta_Wait
  imports World
begin

text \<open>
  \<open>sta_block_on\<close> of \<open>com/exe_server.rs\<close>: the STA thread hands a future to the runtime and
  waits for it on an event while its message pump runs. Two threads share the event, a channel
  of one slot and the event's handle, so the model is a step relation: one rule per action of
  either thread, in the order of the code, and any interleaving of the two. \<open>outcome\<close> is how
  the future ends: \<open>Some v\<close> with the value \<open>v\<close>, \<open>None\<close> by a panic, which \<open>catch_unwind\<close>
  turns into no value. The event was created, so \<open>CreateEventW\<close> did not fail.
\<close>

subsection \<open>The two threads\<close>

text \<open>The worker: the future, then \<open>tx.send\<close>, then \<open>SetEvent\<close>, then the drop of \<open>tx\<close>.\<close>

datatype worker = Running | Signalling | Dropping | Ended

text \<open>
  The STA thread: \<open>CoWaitForMultipleHandles\<close>, \<open>rx.recv\<close>, \<open>CloseHandle\<close>, and the \<open>expect\<close> of
  the received value. \<open>WaitPanicked\<close>: the \<open>expect\<close> of the wait itself failed.
\<close>

datatype 'v waiter =
    Waiting
  | Receiving
  | Closing "'v option"
  | Returned 'v
  | Panicked
  | WaitPanicked

record 'v wait =
  worker :: worker
  waiter :: "'v waiter"
  event_set :: bool
  channel :: "'v option"
  sender_alive :: bool
  handle_open :: bool
  bad_touch :: bool

definition wait_start :: "'v wait" where
  "wait_start = \<lparr>worker = Running, waiter = Waiting, event_set = False, channel = None,
     sender_alive = True, handle_open = True, bad_touch = False\<rparr>"

text \<open>
  The pump runs re-entrant COM calls while the thread waits; they are the subject of the
  theory of interleavings and do not touch this state. \<open>tx.send\<close> never blocks, because the
  channel has room for the one value; an auto-reset event is cleared by the wait it ends.
\<close>

inductive wait_step :: "'v option \<Rightarrow> 'v wait \<Rightarrow> 'v wait \<Rightarrow> bool" for outcome where
  future_done:
    "worker s = Running \<Longrightarrow>
     wait_step outcome s (s\<lparr>worker := Signalling, channel := outcome\<rparr>)"
| set_event:
    "worker s = Signalling \<Longrightarrow>
     wait_step outcome s (s\<lparr>worker := Dropping, event_set := True,
       bad_touch := (bad_touch s \<or> \<not> handle_open s)\<rparr>)"
| drop_sender:
    "worker s = Dropping \<Longrightarrow>
     wait_step outcome s (s\<lparr>worker := Ended, sender_alive := False\<rparr>)"
| wake:
    "waiter s = Waiting \<Longrightarrow> event_set s \<Longrightarrow>
     wait_step outcome s (s\<lparr>waiter := Receiving, event_set := False\<rparr>)"
| wait_fails:
    "waiter s = Waiting \<Longrightarrow> wait_step outcome s (s\<lparr>waiter := WaitPanicked\<rparr>)"
| receive:
    "waiter s = Receiving \<Longrightarrow> channel s = Some v \<Longrightarrow>
     wait_step outcome s (s\<lparr>waiter := Closing (Some v), channel := None\<rparr>)"
| receive_error:
    "waiter s = Receiving \<Longrightarrow> channel s = None \<Longrightarrow> \<not> sender_alive s \<Longrightarrow>
     wait_step outcome s (s\<lparr>waiter := Closing None\<rparr>)"
| close_handle:
    "waiter s = Closing r \<Longrightarrow>
     wait_step outcome s
       (s\<lparr>waiter := (case r of Some v \<Rightarrow> Returned v | None \<Rightarrow> Panicked), handle_open := False\<rparr>)"

fun finished :: "'v waiter \<Rightarrow> bool" where
  "finished (Returned v) = True"
| "finished Panicked = True"
| "finished WaitPanicked = True"
| "finished _ = False"

subsection \<open>The invariant\<close>

fun waiter_inv :: "'v option \<Rightarrow> 'v wait \<Rightarrow> 'v waiter \<Rightarrow> bool" where
  "waiter_inv outcome s Waiting =
     (handle_open s \<and> (event_set s \<longleftrightarrow> worker s \<in> {Dropping, Ended}) \<and>
      channel s = (if worker s = Running then None else outcome))"
| "waiter_inv outcome s Receiving =
     (handle_open s \<and> worker s \<in> {Dropping, Ended} \<and> channel s = outcome)"
| "waiter_inv outcome s (Closing r) =
     (handle_open s \<and> worker s \<in> {Dropping, Ended} \<and> r = outcome)"
| "waiter_inv outcome s (Returned v) = (\<not> handle_open s \<and> worker s \<in> {Dropping, Ended} \<and> outcome = Some v)"
| "waiter_inv outcome s Panicked = (\<not> handle_open s \<and> worker s \<in> {Dropping, Ended} \<and> outcome = None)"
| "waiter_inv outcome s WaitPanicked = handle_open s"

definition wait_inv :: "'v option \<Rightarrow> 'v wait \<Rightarrow> bool" where
  "wait_inv outcome s = (\<not> bad_touch s \<and> (sender_alive s \<longleftrightarrow> worker s \<noteq> Ended) \<and>
     waiter_inv outcome s (waiter s))"

lemma wait_inv_start: "wait_inv outcome wait_start"
  by (simp add: wait_inv_def wait_start_def)

lemma wait_inv_step: "wait_step outcome s t \<Longrightarrow> wait_inv outcome s \<Longrightarrow> wait_inv outcome t"
proof (induction rule: wait_step.induct)
  case (future_done s)
  then show ?case by (cases "waiter s") (auto simp: wait_inv_def)
next
  case (set_event s)
  then show ?case by (cases "waiter s") (auto simp: wait_inv_def)
next
  case (drop_sender s)
  then show ?case by (cases "waiter s") (auto simp: wait_inv_def)
qed (auto simp: wait_inv_def split: option.split)

lemma wait_inv_steps: "(wait_step outcome ^^ n) wait_start s \<Longrightarrow> wait_inv outcome s"
proof (induction n arbitrary: s)
  case 0
  then show ?case using wait_inv_start by simp
next
  case (Suc n)
  then obtain t where "(wait_step outcome ^^ n) wait_start t" "wait_step outcome t s" by auto
  with Suc.IH wait_inv_step show ?case by blast
qed

subsection \<open>Progress\<close>

text \<open>The actions the two threads have left.\<close>

fun worker_left :: "worker \<Rightarrow> nat" where
  "worker_left Running = 3"
| "worker_left Signalling = 2"
| "worker_left Dropping = 1"
| "worker_left Ended = 0"

fun waiter_left :: "'v waiter \<Rightarrow> nat" where
  "waiter_left Waiting = 3"
| "waiter_left Receiving = 2"
| "waiter_left (Closing r) = 1"
| "waiter_left _ = 0"

definition left :: "'v wait \<Rightarrow> nat" where
  "left s = worker_left (worker s) + waiter_left (waiter s)"

lemma step_left: "wait_step outcome s t \<Longrightarrow> Suc (left t) \<le> left s"
  by (induction rule: wait_step.induct) (auto simp: left_def split: option.split)

lemma steps_left: "(wait_step outcome ^^ n) wait_start s \<Longrightarrow> n + left s \<le> 6"
proof (induction n arbitrary: s)
  case 0
  then show ?case by (auto simp: left_def wait_start_def)
next
  case (Suc n)
  then obtain t where t: "(wait_step outcome ^^ n) wait_start t" "wait_step outcome t s" by auto
  from Suc.IH [OF t(1)] step_left [OF t(2)] show ?case by simp
qed

lemma wait_progress:
  assumes "wait_inv outcome s" and "\<not> finished (waiter s)"
  shows "\<exists>t. wait_step outcome s t"
proof (cases "worker s = Ended")
  case False
  then show ?thesis by (cases "worker s") (auto intro: wait_step.intros)
next
  case True
  show ?thesis
  proof (cases "waiter s")
    case Waiting
    with True assms show ?thesis by (auto simp: wait_inv_def intro: wake)
  next
    case Receiving
    show ?thesis
    proof (cases "channel s")
      case None
      with True Receiving assms show ?thesis by (auto simp: wait_inv_def intro: receive_error)
    next
      case (Some v)
      with Receiving show ?thesis by (auto intro: receive)
    qed
  next
    case (Closing r)
    then show ?thesis by (auto intro: close_handle)
  qed (use assms in auto)
qed

text \<open>
  C16. However the two threads interleave, waiting for a future that ends cannot hang, and the
  handle is not used after it was closed. A run makes at most six actions, and as long as the
  STA thread has neither returned nor panicked some action is possible. It returns only the
  future's value, it panics after the wait only when the future did, and in both cases the
  handle is closed; when it wakes with a value to come, the value is already in the channel.
\<close>

theorem sta_wait_sound:
  assumes "(wait_step outcome ^^ n) wait_start s"
  shows "n \<le> 6 \<and> \<not> bad_touch s \<and> (finished (waiter s) \<or> (\<exists>t. wait_step outcome s t)) \<and>
    (case waiter s of
       Returned v \<Rightarrow> outcome = Some v \<and> \<not> handle_open s
     | Panicked \<Rightarrow> outcome = None \<and> \<not> handle_open s
     | Receiving \<Rightarrow> channel s = outcome
     | _ \<Rightarrow> handle_open s)"
proof -
  have inv: "wait_inv outcome s" by (rule wait_inv_steps [OF assms])
  moreover have "n \<le> 6" using steps_left [OF assms] by simp
  moreover have "finished (waiter s) \<or> (\<exists>t. wait_step outcome s t)" using wait_progress [OF inv] by blast
  ultimately show ?thesis by (cases "waiter s") (auto simp: wait_inv_def)
qed

lemma some_run:
  "(wait_step (Some v) ^^ 5) wait_start
     (wait_start\<lparr>worker := Dropping, waiter := Returned v, handle_open := False\<rparr>)"
proof -
  let ?s1 = "wait_start\<lparr>worker := Signalling, channel := Some v\<rparr>"
  let ?s2 = "?s1\<lparr>worker := Dropping, event_set := True\<rparr>"
  let ?s3 = "?s2\<lparr>waiter := Receiving, event_set := False\<rparr>"
  let ?s4 = "?s3\<lparr>waiter := Closing (Some v), channel := None\<rparr>"
  let ?s5 = "?s4\<lparr>waiter := Returned v, handle_open := False\<rparr>"
  have "wait_step (Some v) wait_start ?s1"
    using future_done [of wait_start "Some v"] by (simp add: wait_start_def)
  moreover have "wait_step (Some v) ?s1 ?s2"
    using set_event [of ?s1 "Some v"] by (simp add: wait_start_def)
  moreover have "wait_step (Some v) ?s2 ?s3"
    using wake [of ?s2 "Some v"] by (simp add: wait_start_def)
  moreover have "wait_step (Some v) ?s3 ?s4"
    using receive [of ?s3 v "Some v"] by (simp add: wait_start_def)
  moreover have "wait_step (Some v) ?s4 ?s5"
    using close_handle [of ?s4 "Some v" "Some v"] by (simp add: wait_start_def)
  moreover have "?s5 = wait_start\<lparr>worker := Dropping, waiter := Returned v, handle_open := False\<rparr>"
    by (simp add: wait_start_def)
  ultimately show ?thesis
    by (auto simp: eval_nat_numeral(3) numeral_eq_Suc intro!: relcomppI)
qed

theorem sta_wait_sound_witness:
  "let s = wait_start\<lparr>worker := Dropping, waiter := Returned (7::nat), handle_open := False\<rparr>
   in (wait_step (Some 7) ^^ 5) wait_start s \<and> \<not> bad_touch s"
  using sta_wait_sound [OF some_run [of "7::nat"]] some_run [of "7::nat"] by simp

end
