(* ===== verification/Reconcile.thy ===== *)
theory Reconcile
  imports Com_Server
begin

text \<open>
  \<open>reconcile_vault_with_os\<close> of \<open>com/exe_server.rs\<close>: the background task that the first
  activation spawns. It asks the plugin for the credentials of the vault, adds those that
  Windows does not know and removes those that the vault no longer has. The counters that only
  feed its log line are left out; the slice in that line, which could panic, is kept.
\<close>

subsection \<open>The vault\<close>

text \<open>The pipe is taken for one call and put back whatever the call returned.\<close>

definition enumerate_vault :: "env \<Rightarrow> nat \<Rightarrow> json list option m" where
  "enumerate_vault env a = do {
     pipe_opt \<leftarrow> take_pipe a;
     (case pipe_opt of
        None \<Rightarrow> ret None
      | Some p \<Rightarrow> do {
          (rpc_result, p) \<leftarrow> call_value env p ''keepasskeywin.enumerateForSync'' (JObject []);
          set_pipe a (Some p);
          ret (case rpc_result of Ok v \<Rightarrow> as_array v | Err _ \<Rightarrow> None)
        })
   }"

definition vault_id :: "env \<Rightarrow> json \<Rightarrow> bytes option" where
  "vault_id env item =
     (case as_str (json_get item ''credentialId'') of
        None \<Rightarrow> None
      | Some s \<Rightarrow> b64url_decode (lib env) s)"

definition vault_ids :: "env \<Rightarrow> json list \<Rightarrow> bytes list" where
  "vault_ids env vault = List.map_filter (vault_id env) vault"

definition translated :: "json \<Rightarrow> json" where
  "translated item = JObject
     [(''credentialIdB64Url'', json_get item ''credentialId''),
      (''rpId'', json_get item ''rpId''), (''rpName'', json_get item ''rpName''),
      (''userHandleB64Url'', json_get item ''userHandle''),
      (''userName'', json_get item ''userName''),
      (''userDisplayName'', json_get item ''userDisplayName'')]"

subsection \<open>The credentials Windows knows\<close>

definition os_entries :: "u32 \<Rightarrow> os_array \<Rightarrow> os_credential list" where
  "os_entries count arr =
     (case arr of None \<Rightarrow> [] | Some (_, es) \<Rightarrow> take (unat count) es)"

definition os_id :: "os_credential \<Rightarrow> bytes" where
  "os_id detail =
     (case oc_pb_id detail of
        None \<Rightarrow> []
      | Some bs \<Rightarrow> if oc_cb_id detail = 0 then [] else take (unat (oc_cb_id detail)) bs)"

subsection \<open>The task\<close>

text \<open>\<open>Some False\<close>: the FFI is unavailable and the task gives up. \<open>None\<close>: the task panics.\<close>

fun add_missing :: "env \<Rightarrow> bytes list \<Rightarrow> json list \<Rightarrow> bool option m" where
  "add_missing env os_ids [] = ret (Some True)"
| "add_missing env os_ids (item # items) =
     (case as_str (json_get item ''credentialId'') of
        None \<Rightarrow> add_missing env os_ids items
      | Some cred_id_b64 \<Rightarrow>
          (case b64url_decode (lib env) cred_id_b64 of
             None \<Rightarrow> add_missing env os_ids items
           | Some cred_id_bytes \<Rightarrow>
               if cred_id_bytes \<in> set os_ids then add_missing env os_ids items
               else (case parse_add_credentials_fields env (translated item) of
                       Err _ \<Rightarrow> add_missing env os_ids items
                     | Ok fs \<Rightarrow> do {
                         r \<leftarrow> add_credentials env (details_of fs);
                         (case r of
                            Ok hr \<Rightarrow>
                              (case slice_to cred_id_b64 (min (length cred_id_b64) 8) of
                                 None \<Rightarrow> ret None
                               | Some _ \<Rightarrow> add_missing env os_ids items)
                          | Err _ \<Rightarrow> ret (Some False))
                       })))"

fun remove_stale :: "env \<Rightarrow> bytes list \<Rightarrow> os_credential list \<Rightarrow> unit m" where
  "remove_stale env ids [] = ret ()"
| "remove_stale env ids (detail # details) =
     (if os_id detail = [] then remove_stale env ids details
      else if os_id detail \<in> set ids then remove_stale env ids details
      else do {
        r \<leftarrow> remove_credentials env detail;
        (case r of Ok _ \<Rightarrow> remove_stale env ids details | Err _ \<Rightarrow> ret ())
      })"

definition sync_os :: "env \<Rightarrow> json list \<Rightarrow> unit option m" where
  "sync_os env vault = do {
     r \<leftarrow> get_all_credentials env;
     (case r of
        Err _ \<Rightarrow> ret (Some ())
      | Ok (count, arr) \<Rightarrow> do {
          let entries = os_entries count arr;
          or_abort (add_missing env (map os_id entries) vault) (\<lambda>ffi.
            if ffi then do {
              remove_stale env (vault_ids env vault) entries;
              free_credential_details_array env count arr;
              ret (Some ())
            } else do {
              free_credential_details_array env count arr;
              ret (Some ())
            })
        })
   }"

definition reconcile_vault_with_os :: "env \<Rightarrow> nat \<Rightarrow> unit option m" where
  "reconcile_vault_with_os env a = do {
     vault \<leftarrow> enumerate_vault env a;
     (case vault of None \<Rightarrow> ret (Some ()) | Some items \<Rightarrow> sync_os env items)
   }"

subsection \<open>What has to be added and removed\<close>

definition syncable :: "env \<Rightarrow> json \<Rightarrow> (bytes \<times> WebauthnPluginCredentialDetails) option" where
  "syncable env item =
     (case vault_id env item of
        None \<Rightarrow> None
      | Some i \<Rightarrow>
          (case parse_add_credentials_fields env (translated item) of
             Err _ \<Rightarrow> None
           | Ok fs \<Rightarrow> Some (i, details_of fs)))"

definition missing :: "env \<Rightarrow> bytes list \<Rightarrow> json list \<Rightarrow> (bytes \<times> WebauthnPluginCredentialDetails) list" where
  "missing env os_ids vault =
     filter (\<lambda>(i, d). i \<notin> set os_ids) (List.map_filter (syncable env) vault)"

definition stale :: "bytes list \<Rightarrow> os_credential list \<Rightarrow> os_credential list" where
  "stale ids entries = filter (\<lambda>e. os_id e \<noteq> [] \<and> os_id e \<notin> set ids) entries"

lemma syncable_id: "syncable env item = Some (i, d) \<Longrightarrow> vault_id env item = Some i \<and> pb_credential_id d = i"
  by (auto simp: syncable_def vault_id_def parse_add_credentials_fields_def str_field_def translated_def
      details_of_def split: option.splits sum.splits)

text \<open>The calls that add and remove, each with the answer it got.\<close>

definition add_events :: "(bytes \<times> WebauthnPluginCredentialDetails) list \<Rightarrow> hresult list \<Rightarrow> event list" where
  "add_events ds hrs = map2 (\<lambda>(i, d) hr. Dll (AddCredentials d hr)) ds hrs"

definition remove_events :: "os_credential list \<Rightarrow> hresult list \<Rightarrow> event list" where
  "remove_events es hrs = map2 (\<lambda>e hr. Dll (RemoveCredentials e hr)) es hrs"

text \<open>The documented behaviour of the decoder: what decodes as base64url is ASCII.\<close>

definition decodes_ascii :: "env \<Rightarrow> bool" where
  "decodes_ascii env = (\<forall>x bs. b64url_decode (lib env) x = Some bs \<longrightarrow> is_ascii x)"

lemma add_call:
  "cred_cache s = Some (Ok b) \<Longrightarrow> \<exists>hr. run_state (add_credentials env d) s =
     (Ok hr, s\<lparr>trace := trace s @ [Dll (AddCredentials d hr)]\<rparr>)"
  by (simp add: add_credentials_def cred_bindings_cached)

lemma remove_call:
  "cred_cache s = Some (Ok b) \<Longrightarrow> cb_remove b = Some f \<Longrightarrow> \<exists>hr. run_state (remove_credentials env e) s =
     (Ok hr, s\<lparr>trace := trace s @ [Dll (RemoveCredentials e hr)]\<rparr>)"
  by (simp add: remove_credentials_def cred_bindings_cached)

lemma add_missing_run:
  assumes ascii: "decodes_ascii env" and "cred_cache s = Some (Ok b)"
  shows "\<exists>hrs. length hrs = length (missing env ids vault) \<and>
    run_state (add_missing env ids vault) s =
      (Some True, s\<lparr>trace := trace s @ add_events (missing env ids vault) hrs\<rparr>)"
  using assms(2)
proof (induction vault arbitrary: s)
  case Nil
  then show ?case by (simp add: missing_def add_events_def List.map_filter_def)
next
  case (Cons item vault)
  show ?case
  proof (cases "\<exists>i d. syncable env item = Some (i, d) \<and> i \<notin> set ids")
    case True
    then obtain i d where sync: "syncable env item = Some (i, d)" and new: "i \<notin> set ids" by blast
    obtain cid fs where cid: "as_str (json_get item ''credentialId'') = Some cid"
        "b64url_decode (lib env) cid = Some i"
        "parse_add_credentials_fields env (translated item) = Ok fs" "d = details_of fs"
      using sync by (auto simp: syncable_def vault_id_def split: option.splits sum.splits)
    have "is_ascii cid" using ascii cid(2) by (simp add: decodes_ascii_def)
    then have slice: "slice_to cid (min (length cid) 8) \<noteq> None" by (simp add: slice_to_ascii)
    obtain hr where hr: "run_state (add_credentials env d) s =
        (Ok hr, s\<lparr>trace := trace s @ [Dll (AddCredentials d hr)]\<rparr>)"
      using add_call [OF Cons.prems] by blast
    let ?s = "s\<lparr>trace := trace s @ [Dll (AddCredentials d hr)]\<rparr>"
    obtain hrs where IH: "length hrs = length (missing env ids vault)"
        "run_state (add_missing env ids vault) ?s =
           (Some True, ?s\<lparr>trace := trace ?s @ add_events (missing env ids vault) hrs\<rparr>)"
      using Cons.IH [of ?s] Cons.prems by auto
    have m: "missing env ids (item # vault) = (i, d) # missing env ids vault"
      using sync new by (simp add: missing_def List.map_filter_def)
    show ?thesis
      using cid new slice hr IH
      by (intro exI [of _ "hr # hrs"]) (auto simp: m add_events_def)
  next
    case False
    then have m: "missing env ids (item # vault) = missing env ids vault"
      by (auto simp: missing_def List.map_filter_def split: option.splits)
    have "run_state (add_missing env ids (item # vault)) s = run_state (add_missing env ids vault) s"
      using False by (auto simp: syncable_def vault_id_def split: option.splits sum.splits)
    with Cons m show ?thesis by simp
  qed
qed

lemma remove_stale_run:
  assumes "cred_cache s = Some (Ok b)"
  shows "\<exists>hrs. length hrs = (if cb_remove b = None then 0 else length (stale ids entries)) \<and>
    run_state (remove_stale env ids entries) s =
      ((), s\<lparr>trace := trace s @ remove_events (stale ids entries) hrs\<rparr>)"
  using assms
proof (induction entries arbitrary: s)
  case Nil
  then show ?case by (simp add: stale_def remove_events_def)
next
  case (Cons e entries)
  show ?case
  proof (cases "os_id e = [] \<or> os_id e \<in> set ids")
    case True
    with Cons show ?thesis by (auto simp: stale_def)
  next
    case False
    show ?thesis
    proof (cases "cb_remove b")
      case None
      with False Cons.prems show ?thesis
        by (simp add: remove_credentials_def cred_bindings_cached remove_events_def)
    next
      case (Some f)
      obtain hr where hr: "run_state (remove_credentials env e) s =
          (Ok hr, s\<lparr>trace := trace s @ [Dll (RemoveCredentials e hr)]\<rparr>)"
        using remove_call [OF Cons.prems Some] by blast
      let ?s = "s\<lparr>trace := trace s @ [Dll (RemoveCredentials e hr)]\<rparr>"
      obtain hrs where "length hrs = length (stale ids entries)"
          "run_state (remove_stale env ids entries) ?s =
             ((), ?s\<lparr>trace := trace ?s @ remove_events (stale ids entries) hrs\<rparr>)"
        using Cons.IH [of ?s] Cons.prems Some by auto
      with False Some hr show ?thesis
        by (intro exI [of _ "hr # hrs"]) (simp add: stale_def remove_events_def)
    qed
  qed
qed

text \<open>The calls one synchronisation makes after its array was fetched.\<close>

definition free_events :: "env \<Rightarrow> u32 \<Rightarrow> os_array \<Rightarrow> event list" where
  "free_events env count arr =
     (case arr of
        Some (p, _) \<Rightarrow>
          if count \<noteq> 0 \<and> de_exports (dll env) FREE_CREDENTIAL_ARRAY then [Dll (FreeCredentialArray count p)] else []
      | None \<Rightarrow> [])"

definition bound_to :: "env \<Rightarrow> CredBindings \<Rightarrow> bool" where
  "bound_to env b =
     (cb_remove b = try_get_proc env REMOVE_CREDENTIALS \<and> cb_free_array b = try_get_proc env FREE_CREDENTIAL_ARRAY \<and>
      cb_get_all b = try_get_proc env GET_ALL_CREDENTIALS)"

definition cred_wf :: "env \<Rightarrow> proc \<Rightarrow> bool" where
  "cred_wf env s = (case cred_cache s of Some (Ok b) \<Rightarrow> bound_to env b | _ \<Rightarrow> True)"

lemma load_bound: "run_state (load_cred_bindings env) s = (Ok b, t) \<Longrightarrow> bound_to env b"
  by (auto simp: load_cred_bindings_def load_webauthn_def bound_to_def split: option.splits)

lemma cred_bindings_wf:
  assumes "cred_wf env s" and run: "run_state (cred_bindings env) s = (Ok b, t)"
  shows "cred_cache t = Some (Ok b)" and "bound_to env b"
proof -
  show "cred_cache t = Some (Ok b)" by (rule cred_bindings_filled [OF run])
  show "bound_to env b"
  proof (cases "cred_cache s")
    case None
    with run show ?thesis
      unfolding cred_bindings_def cred_cell.empty [OF None] by (auto dest: load_bound split: prod.splits)
  next
    case (Some r)
    with assms show ?thesis by (auto simp: cred_bindings_cached cred_wf_def)
  qed
qed

lemma free_run:
  assumes "cred_cache s = Some (Ok b)" and "bound_to env b"
  shows "run_state (free_credential_details_array env count arr) s =
    ((), s\<lparr>trace := trace s @ free_events env count arr\<rparr>)"
  using assms
  by (auto simp: free_credential_details_array_def free_events_def cred_bindings_cached bound_to_def
      try_get_proc_def split: option.split)

fun is_sync :: "event \<Rightarrow> bool" where
  "is_sync (Dll (AddCredentials _ _)) = True"
| "is_sync (Dll (GetAllCredentials _)) = True"
| "is_sync (Dll (RemoveCredentials _ _)) = True"
| "is_sync (Dll (FreeCredentialArray _ _)) = True"
| "is_sync _ = False"

definition out_arr :: "getall_reply \<Rightarrow> os_array" where
  "out_arr r = (case snd (snd r) of Some a \<Rightarrow> a | None \<Rightarrow> None)"

definition out_count :: "getall_reply \<Rightarrow> u32" where
  "out_count r = (case fst (snd r) of Some n \<Rightarrow> n | None \<Rightarrow> 0)"

text \<open>
  The calls a synchronisation with a vault makes: none when the DLL or \<open>GetAllCredentials\<close> is
  not there, one when that fails; otherwise the missing credentials are added, then the stale
  ones removed where the DLL can, then the array is freed.
\<close>

inductive sync_calls :: "env \<Rightarrow> json list \<Rightarrow> event list \<Rightarrow> bool" for env vault where
  unbound: "sync_calls env vault []"
| failed: "hr_is_err (fst r) \<Longrightarrow> sync_calls env vault [Dll (GetAllCredentials r)]"
| synced:
    "\<not> hr_is_err (fst r) \<Longrightarrow> entries = os_entries (out_count r) (out_arr r) \<Longrightarrow>
     length hrs = length (missing env (map os_id entries) vault) \<Longrightarrow>
     length hrs' = (if de_exports (dll env) REMOVE_CREDENTIALS
                    then length (stale (vault_ids env vault) entries) else 0) \<Longrightarrow>
     sync_calls env vault
       (Dll (GetAllCredentials r) # add_events (missing env (map os_id entries) vault) hrs @
        remove_events (stale (vault_ids env vault) entries) hrs' @
        free_events env (out_count r) (out_arr r))"

lemma filter_sync_events [simp]:
  "filter is_sync (add_events ds hrs) = add_events ds hrs"
  "filter is_sync (remove_events es hrs) = remove_events es hrs"
  "filter is_sync (free_events env count arr) = free_events env count arr"
  by (auto simp: add_events_def remove_events_def free_events_def filter_id_conv split: option.split)

lemma load_cred_sync: "keeps (evs is_sync) (cred_bindings env)"
proof -
  have "is_load e \<Longrightarrow> \<not> is_sync e" for e by (cases e rule: is_load.cases) auto
  then show ?thesis
    unfolding cred_bindings_def by (intro emits_only_evs [OF cred_cell.only_init [OF load_cred_is_load]])
qed

text \<open>A synchronisation whose enumeration succeeded, from the state after it.\<close>

lemma synced_run:
  assumes dec: "decodes_ascii env" and wf: "cred_cache s = Some (Ok bs)" "bound_to env bs"
    and get: "run_state (get_all_credentials env) s0 =
      (Ok (out_count r, out_arr r), s\<lparr>trace := trace s @ [Dll (GetAllCredentials r)]\<rparr>)"
    and ok: "\<not> hr_is_err (fst r)"
  obtains es where "run_state (sync_os env vault) s0 = (Some (), s\<lparr>trace := trace s @ es\<rparr>)"
    "sync_calls env vault es" "filter is_sync es = es"
proof -
  let ?entries = "os_entries (out_count r) (out_arr r)"
  let ?miss = "missing env (map os_id ?entries) vault" and ?stale = "stale (vault_ids env vault) ?entries"
  let ?s2 = "s\<lparr>trace := trace s @ [Dll (GetAllCredentials r)]\<rparr>"
  have c2: "cred_cache ?s2 = Some (Ok bs)" using wf(1) by simp
  obtain hrs where add: "length hrs = length ?miss"
      "run_state (add_missing env (map os_id ?entries) vault) ?s2 =
         (Some True, ?s2\<lparr>trace := trace ?s2 @ add_events ?miss hrs\<rparr>)"
    using add_missing_run [OF dec c2] by blast
  let ?s3 = "?s2\<lparr>trace := trace ?s2 @ add_events ?miss hrs\<rparr>"
  have c3: "cred_cache ?s3 = Some (Ok bs)" using wf(1) by simp
  obtain hrs' where rem: "length hrs' = (if cb_remove bs = None then 0 else length ?stale)"
      "run_state (remove_stale env (vault_ids env vault) ?entries) ?s3 =
         ((), ?s3\<lparr>trace := trace ?s3 @ remove_events ?stale hrs'\<rparr>)"
    using remove_stale_run [OF c3] by blast
  let ?s4 = "?s3\<lparr>trace := trace ?s3 @ remove_events ?stale hrs'\<rparr>"
  have c4: "cred_cache ?s4 = Some (Ok bs)" using wf(1) by simp
  note free = free_run [OF c4 wf(2), of "out_count r" "out_arr r"]
  let ?es = "Dll (GetAllCredentials r) # add_events ?miss hrs @ remove_events ?stale hrs' @
    free_events env (out_count r) (out_arr r)"
  have "run_state (sync_os env vault) s0 = (Some (), s\<lparr>trace := trace s @ ?es\<rparr>)"
    using get add(2) rem(2) free by (simp add: sync_os_def Let_def)
  moreover have "sync_calls env vault ?es"
    using ok add(1) rem(1) wf(2)
    by (intro sync_calls.synced) (auto simp: bound_to_def try_get_proc_def split: if_splits)
  ultimately show thesis by (rule that) simp
qed

lemma sync_os_run:
  assumes "decodes_ascii env" and "cred_wf env s"
  shows "\<exists>t es. run_state (sync_os env vault) s = (Some (), t) \<and> sync_calls env vault es \<and>
    evs is_sync t = evs is_sync s @ es"
proof -
  obtain b s1 where run: "run_state (cred_bindings env) s = (b, s1)" by fastforce
  have evs: "evs is_sync s1 = evs is_sync s" by (rule keepsD [OF load_cred_sync run])
  show ?thesis
  proof (cases b)
    case (Inl e)
    with run evs show ?thesis
      by (auto simp: sync_os_def get_all_credentials_def intro: sync_calls.unbound)
  next
    case (Inr bs)
    note wf = cred_bindings_wf [OF assms(2) run [unfolded Inr]]
    show ?thesis
    proof (cases "cb_get_all bs")
      case None
      with run evs Inr show ?thesis
        by (auto simp: sync_os_def get_all_credentials_def intro: sync_calls.unbound)
    next
      case (Some f)
      define r where "r = de_get_all (dll env) (trace s1)"
      have get: "run_state (get_all_credentials env) s =
          (if hr_is_err (fst r) then Err (''GetAllCredentials failed: 0x'' @ hex08 (fst r))
           else Ok (out_count r, out_arr r), s1\<lparr>trace := trace s1 @ [Dll (GetAllCredentials r)]\<rparr>)"
        using run Inr Some
        by (cases r) (simp add: get_all_credentials_def r_def out_count_def out_arr_def)
      show ?thesis
      proof (cases "hr_is_err (fst r)")
        case True
        with get evs show ?thesis
          by (auto simp: sync_os_def evs_def intro!: sync_calls.failed exI [of _ "[Dll (GetAllCredentials r)]"])
      next
        case False
        with get obtain es where "run_state (sync_os env vault) s = (Some (), s1\<lparr>trace := trace s1 @ es\<rparr>)"
            "sync_calls env vault es" "filter is_sync es = es"
          by (auto intro: synced_run [OF assms(1) wf])
        with evs show ?thesis by (auto simp: evs_def)
      qed
    qed
  qed
qed

subsection \<open>The task as an operation of the server\<close>

lemma enumerate_run:
  "case pipe_of a s of
     None \<Rightarrow> run_state (enumerate_vault env a) s = (None, s)
   | Some p \<Rightarrow>
       (case run_state (call_value env p ''keepasskeywin.enumerateForSync'' (JObject []))
          (snd (run_state (set_pipe a None) s)) of ((r, p'), t) \<Rightarrow>
        run_state (enumerate_vault env a) s =
          (case r of Ok v \<Rightarrow> as_array v | Err _ \<Rightarrow> None, snd (run_state (set_pipe a (Some p')) t)))"
proof (cases "pipe_of a s")
  case None
  then have "map_option (pipe_update (\<lambda>_. None)) (heap s a) = heap s a"
    by (cases "heap s a") (simp_all add: pipe_of_def)
  with None show ?thesis by (simp add: enumerate_vault_def take_pipe_def set_pipe_def)
next
  case (Some p)
  then show ?thesis
    by (simp add: enumerate_vault_def take_pipe_def set_pipe_def split: prod.split)
qed

lemma enumerate_conn: "ensures conn_inv (enumerate_vault env a) (\<lambda>_. conn_inv)"
proof (rule ensuresI)
  fix s x t assume inv: "conn_inv s" and run: "run_state (enumerate_vault env a) s = (x, t)"
  show "conn_inv t"
  proof (cases "pipe_of a s")
    case None
    with enumerate_run [where a = a and s = s and env = env] run inv show ?thesis by simp
  next
    case (Some p)
    let ?s0 = "snd (run_state (set_pipe a None) s)"
    let ?call = "call_value env p ''keepasskeywin.enumerateForSync'' (JObject [])"
    obtain r p' t1 where call: "run_state ?call ?s0 = ((r, p'), t1)" by (metis prod.collapse)
    have t: "t = snd (run_state (set_pipe a (Some p')) t1)"
      using enumerate_run [where a = a and s = s and env = env] Some call run by simp
    have shared: "shared_state s = Some a" using inv Some by (auto simp: conn_inv_def)
    have others: "pipe_of b s = None" if "b \<noteq> a" for b
      using inv shared that by (auto simp: conn_inv_def)
    obtain st where st: "heap s a = Some st" using Some by (auto simp: pipe_of_def split: option.splits)
    have frames: "heap t1 = heap ?s0" "shared_state t1 = shared_state ?s0"
      by (rule keepsD [OF call_frame call]; simp)+
    have "linked (Some (transport p)) ?s0"
      using inv shared Some by (simp add: conn_inv_def set_pipe_def linked_def)
    from ensuresD [OF linked_call this call] have link: "linked (Some (transport p')) t1" by auto
    have "pipe_of b t = (if b = a then Some p' else None)" for b
      using others [of b] st frames(1) unfolding t by (auto simp: set_pipe_def pipe_of_def)
    moreover have "shared_state t = Some a"
      using frames(2) shared unfolding t by (simp add: set_pipe_def)
    moreover have "linked (Some (transport p')) t"
      using link unfolding t by (simp add: set_pipe_def linked_def)
    ultimately show ?thesis by (simp add: conn_inv_def)
  qed
qed

lemma enumerate_only: "emits_only is_call (enumerate_vault env a)"
  unfolding enumerate_vault_def take_pipe_def set_pipe_def
  by (intro only call_only_call emits_only_modify) simp_all

lemma enumerate_frame:
  "(\<And>s tr. f (s\<lparr>trace := tr\<rparr>) = f s) \<Longrightarrow> (\<And>s x. f (s\<lparr>heap := x\<rparr>) = f s) \<Longrightarrow>
   keeps f (enumerate_vault env a)"
  unfolding enumerate_vault_def take_pipe_def set_pipe_def
  by (intro frame call_frame keeps_modify)

lemma add_missing_only: "emits_only is_cred (add_missing env ids vault)"
  by (induction vault) (auto intro!: only add_credentials_only split: option.split sum.split)

lemma remove_stale_only: "emits_only is_cred (remove_stale env ids entries)"
  by (induction entries) (auto intro!: only remove_credentials_only split: sum.split)

lemma sync_only: "emits_only is_cred (sync_os env vault)"
  unfolding sync_os_def Let_def
  by (intro only get_all_only add_missing_only remove_stale_only free_array_only)

lemma add_missing_frame:
  "(\<And>s tr. f (s\<lparr>trace := tr\<rparr>) = f s) \<Longrightarrow> (\<And>s x. f (s\<lparr>cred_cache := x\<rparr>) = f s) \<Longrightarrow>
   keeps f (add_missing env ids vault)"
  by (induction vault) (auto intro!: frame add_credentials_frame split: option.split sum.split)

lemma remove_stale_frame:
  "(\<And>s tr. f (s\<lparr>trace := tr\<rparr>) = f s) \<Longrightarrow> (\<And>s x. f (s\<lparr>cred_cache := x\<rparr>) = f s) \<Longrightarrow>
   keeps f (remove_stale env ids entries)"
  by (induction entries) (auto intro!: frame remove_credentials_frame split: sum.split)

lemma sync_frame:
  "(\<And>s tr. f (s\<lparr>trace := tr\<rparr>) = f s) \<Longrightarrow> (\<And>s x. f (s\<lparr>cred_cache := x\<rparr>) = f s) \<Longrightarrow>
   keeps f (sync_os env vault)"
  unfolding sync_os_def Let_def
  by (intro frame get_all_frame add_missing_frame remove_stale_frame free_array_frame)

interpretation reconcile: com_operation "reconcile_vault_with_os env a" for env a
proof
  have cred: "is_cred e \<Longrightarrow> not_pipe e" "is_cred e \<Longrightarrow> \<not> is_uv e" for e
    by (cases e rule: is_cred.cases; simp)+
  have sync: "ensures conn_inv (sync_os env vault) (unless_aborted conn_inv)" for vault
    by (intro ensures_unless conn_frame sync_frame emits_only_mono [OF sync_only cred(1)]) simp_all
  have sync_uv: "ensures uv_inv (sync_os env vault) (\<lambda>_. uv_inv)" for vault
    by (intro uv_frame sync_frame emits_only_evs [OF sync_only cred(2)]) simp_all
  show "ensures conn_inv (reconcile_vault_with_os env a) (unless_aborted conn_inv)"
    unfolding reconcile_vault_with_os_def
    by (rule ensures_bind [OF enumerate_conn]) (auto intro!: sync ensures_return split: option.split)
  have "ensures uv_inv (enumerate_vault env a) (\<lambda>_. uv_inv)"
    by (intro uv_frame enumerate_frame emits_only_evs [OF enumerate_only is_call_not_uv]) simp_all
  then show "ensures uv_inv (reconcile_vault_with_os env a) (\<lambda>_. uv_inv)"
    unfolding reconcile_vault_with_os_def
    by (rule ensures_bind) (auto intro!: sync_uv ensures_return split: option.split)
qed

subsection \<open>What reconciliation achieves\<close>

lemma in_map_filter: "y \<in> set (List.map_filter f xs) \<longleftrightarrow> (\<exists>x\<in>set xs. f x = Some y)"
  by (induction xs) (auto split: option.splits)

lemma missing_nil:
  "(\<And>i d. (i, d) \<in> set (List.map_filter (syncable env) vault) \<Longrightarrow> i \<in> set ids) \<Longrightarrow>
   missing env ids vault = []"
  unfolding missing_def filter_empty_conv by (auto simp del: set_map)




end
