(* ===== verification/Futures.thy ===== *)
theory Futures
  imports Reconcile
begin

text \<open>
  The futures of the provider, with their suspension points. A future is either ready or has a
  piece left: what runs up to the rest point where other threads can act, and the future that
  remains. Every external call of \<open>ipc/mod.rs\<close>, \<open>connect_and_handshake\<close>, the future inside
  \<open>take_call_with_retry\<close> and the call of the reconciliation task is a piece of its own. Run
  without interruption, each future is the function of the sequential model; \<open>owns\<close> states
  what it promises when others act between its pieces.
\<close>

subsection \<open>Futures\<close>

datatype 'a fut = Ready 'a | Piece "proc \<Rightarrow> 'a fut" "proc \<Rightarrow> proc"

text \<open>Run \<open>m\<close> as one piece, then go on with its result.\<close>

definition await :: "'x m \<Rightarrow> ('x \<Rightarrow> 'a fut) \<Rightarrow> 'a fut" where
  "await m k = Piece (\<lambda>s. k (fst (run_state m s))) (\<lambda>s. snd (run_state m s))"

primrec fut_bind :: "'a fut \<Rightarrow> ('a \<Rightarrow> 'b fut) \<Rightarrow> 'b fut" where
  "fut_bind (Ready x) k = k x"
| "fut_bind (Piece rest eff) k = Piece (\<lambda>s. fut_bind (rest s) k) eff"

text \<open>Without interruption.\<close>

primrec run_fut :: "'a fut \<Rightarrow> proc \<Rightarrow> 'a \<times> proc" where
  "run_fut (Ready x) s = (x, s)"
| "run_fut (Piece rest eff) s = run_fut (rest s) (eff s)"

lemma run_fut_await [simp]:
  "run_fut (await m k) s = (case run_state m s of (x, t) \<Rightarrow> run_fut (k x) t)"
  by (simp add: await_def split: prod.split)

lemma run_fut_bind [simp]:
  "run_fut (fut_bind f k) s = (case run_fut f s of (x, t) \<Rightarrow> run_fut (k x) t)"
  by (induction f arbitrary: s) simp_all

subsection \<open>The futures of the pipe client\<close>

definition send_line_fut :: "env \<Rightarrow> nat \<Rightarrow> string \<Rightarrow> io_error option fut" where
  "send_line_fut env c line =
     await (pipe_write env c line) (\<lambda>r. case r of
       Some e \<Rightarrow> Ready (Some e)
     | None \<Rightarrow> await (pipe_write env c [newline]) (\<lambda>r. case r of
         Some e \<Rightarrow> Ready (Some e)
       | None \<Rightarrow> await (pipe_flush env c) Ready))"

definition recv_line_fut :: "env \<Rightarrow> nat \<Rightarrow> (io_error + string) fut" where
  "recv_line_fut env c =
     await (pipe_read env c) (\<lambda>r. Ready (case r of
       Err e \<Rightarrow> Err e
     | Ok buf \<Rightarrow> Ok (if buf \<noteq> [] \<and> last buf = newline then butlast buf else buf)))"

definition call_fut ::
  "env \<Rightarrow> PipeClient \<Rightarrow> string \<Rightarrow> json \<Rightarrow> ((ClientError + json) \<times> PipeClient) fut" where
  "call_fut env client rpc params =
     (let id = next_id client;
          client' = client\<lparr>next_id := id + 1\<rparr>;
          request = \<lparr>jsonrpc = ''2.0'', req_id = id, req_method = rpc, req_params = params\<rparr>
      in (case ser_request (lib env) request of
            Err e \<Rightarrow> Ready (Err (Json e), client')
          | Ok line \<Rightarrow>
              fut_bind (send_line_fut env (transport client) line) (\<lambda>sent. case sent of
                Some e \<Rightarrow> Ready (Err (Io e), client')
              | None \<Rightarrow>
                  fut_bind (recv_line_fut env (transport client)) (\<lambda>resp_line. Ready (case resp_line of
                    Err e \<Rightarrow> (Err (Io e), client')
                  | Ok l \<Rightarrow>
                      (case de_response (lib env) l of
                         Err e \<Rightarrow> (Err (Json e), client')
                       | Ok response \<Rightarrow> (rpc_result (\<lambda>v. Ok v) response, client')))))))"

fun connect_fut :: "env \<Rightarrow> u32 \<Rightarrow> nat list \<Rightarrow> ClientError option \<Rightarrow> (ClientError + PipeClient) fut" where
  "connect_fut env sid [] last_err =
     await (try_connect env sid) (\<lambda>r. Ready (case r of
       Ok client \<Rightarrow> Ok client
     | Err _ \<Rightarrow> Err (case last_err of Some e \<Rightarrow> e | None \<Rightarrow> Timeout)))"
| "connect_fut env sid (delay # ds) last_err =
     await (try_connect env sid) (\<lambda>r. case r of
       Ok client \<Rightarrow> Ready (Ok client)
     | Err e \<Rightarrow> await (emit (Sleep delay)) (\<lambda>_. connect_fut env sid ds (Some e)))"

definition handshake_fut ::
  "env \<Rightarrow> PipeClient \<Rightarrow> string \<Rightarrow> string \<Rightarrow> bytes option \<Rightarrow> ((ClientError + unit) \<times> PipeClient) fut"
where
  "handshake_fut env client pkg nonce pub_key_bytes =
     (case pub_key_bytes of
        None \<Rightarrow> Ready (Err (InvalidRequest no_key_message), client)
      | Some key_bytes \<Rightarrow>
          fut_bind (call_fut env client ''keepasskeywin.hello''
              (hello_params pkg nonce (b64_encode (lib env) key_bytes)))
            (\<lambda>(r, client'). Ready (case r of Err e \<Rightarrow> (Err e, client') | Ok _ \<Rightarrow> (Ok (), client'))))"

text \<open>The key is fetched inside a \<open>OnceLock\<close>, which admits one thread at a time: one piece.\<close>

definition session_fut :: "env \<Rightarrow> u32 \<Rightarrow> (ClientError + PipeClient) option fut" where
  "session_fut env sid =
     fut_bind (connect_fut env sid delays_ms None) (\<lambda>r. case r of
       Err e \<Rightarrow> Ready (Some (Err e))
     | Ok p \<Rightarrow> await (read_handshake_nonce env) (\<lambda>n. case n of
         None \<Rightarrow> Ready None
       | Some (Err e) \<Rightarrow> await (drop_client p) (\<lambda>_. Ready (Some (Err (InvalidRequest (reg_read_reason e)))))
       | Some (Ok nonce) \<Rightarrow>
           await (get_op_sign_pub_key_bytes_for_hello env) (\<lambda>pub_key.
             fut_bind (handshake_fut env p KEEPASSKEYWIN_PKG_FAMILY nonce pub_key) (\<lambda>(r, p). case r of
               Ok _ \<Rightarrow> Ready (Some (Ok p))
             | Err e \<Rightarrow> await (drop_client p) (\<lambda>_. Ready (Some (Err e)))))))"

definition call_or_reconnect_fut ::
  "env \<Rightarrow> u32 \<Rightarrow> PipeClient \<Rightarrow> string \<Rightarrow> json \<Rightarrow>
   ((ClientError + json) \<times> PipeClient option) option fut" where
  "call_or_reconnect_fut env sid p rpc params =
     fut_bind (call_fut env p rpc params) (\<lambda>(r1, p). case r1 of
       Ok _ \<Rightarrow> Ready (Some (r1, Some p))
     | Err e \<Rightarrow>
         if classify_rpc_error e \<noteq> Stale then Ready (Some (r1, Some p))
         else await (drop_client p) (\<lambda>_.
           fut_bind (session_fut env sid) (\<lambda>c. case c of
             None \<Rightarrow> Ready None
           | Some (Ok fresh) \<Rightarrow>
               fut_bind (call_fut env fresh rpc params) (\<lambda>(r2, fresh). Ready (Some (r2, Some fresh)))
           | Some (Err connect_err) \<Rightarrow> Ready (Some (Err connect_err, None)))))"

definition vault_fut :: "env \<Rightarrow> PipeClient \<Rightarrow> ((ClientError + json) \<times> PipeClient) fut" where
  "vault_fut env p = call_fut env p ''keepasskeywin.enumerateForSync'' (JObject [])"

subsection \<open>Without interruption they are the sequential functions\<close>

lemma run_send_line: "run_fut (send_line_fut env c line) s = run_state (send_line env c line) s"
  by (simp add: send_line_fut_def send_line_def split: prod.split option.split)

lemma run_recv_line: "run_fut (recv_line_fut env c) s = run_state (recv_line env c) s"
  by (simp add: recv_line_fut_def recv_line_def split: prod.split)

lemma run_call: "run_fut (call_fut env p rpc params) s = run_state (call_value env p rpc params) s"
  by (simp add: call_fut_def call_def Let_def run_send_line run_recv_line
      split: prod.split option.split sum.split)

lemma run_connect: "run_fut (connect_fut env sid ds e) s = run_state (connect_loop env sid ds e) s"
  by (induction ds arbitrary: e s) (simp_all split: prod.split sum.split)

lemma run_handshake:
  "run_fut (handshake_fut env p pkg nonce key) s = run_state (handshake env p pkg nonce key) s"
  by (simp add: handshake_fut_def handshake_def run_call split: prod.split option.split sum.split)

lemma run_session: "run_fut (session_fut env sid) s = run_state (connect_and_handshake env sid) s"
  by (simp add: session_fut_def connect_and_handshake_def connect_def run_connect run_handshake
      split: prod.split option.split sum.split)

lemma run_call_or_reconnect:
  "run_fut (call_or_reconnect_fut env sid p rpc params) s = run_state (call_or_reconnect env sid p rpc params) s"
  by (simp add: call_or_reconnect_fut_def call_or_reconnect_def run_call run_session
      split: prod.split option.split sum.split)

subsection \<open>What a future promises under interference\<close>

text \<open>
  \<open>owns Q h f\<close>: the future \<open>f\<close> has the open handle \<open>h\<close> (or none). Whatever the others made of
  the rest of the process, as long as the handle is still as \<open>f\<close> left it, its rest piece uses no
  other handle, touches neither the states nor the shared slot, keeps the invariant of user
  verification and leaves a future that owns what is open then; its result satisfies \<open>Q\<close>.
\<close>

inductive owns :: "('a \<Rightarrow> nat option \<Rightarrow> bool) \<Rightarrow> nat option \<Rightarrow> 'a fut \<Rightarrow> bool" for Q where
  ready: "Q x h \<Longrightarrow> owns Q h (Ready x)"
| piece:
    "(\<forall>s. linked h s \<longrightarrow> heap (eff s) = heap s \<and> shared_state (eff s) = shared_state s \<and>
       (uv_inv s \<longrightarrow> uv_inv (eff s)) \<and> (\<exists>h'. linked h' (eff s) \<and> owns Q h' (rest s))) \<Longrightarrow>
     owns Q h (Piece rest eff)"

inductive_simps owns_ready [simp]: "owns Q h (Ready x)"
inductive_simps owns_piece: "owns Q h (Piece rest eff)"

text \<open>A computation that keeps the states, the shared slot and user verification.\<close>

definition local_piece :: "'a m \<Rightarrow> bool" where
  "local_piece m = (keeps heap m \<and> keeps shared_state m \<and> ensures uv_inv m (\<lambda>_. uv_inv))"

lemma owns_await:
  assumes "local_piece m" and "ensures (linked h) m (\<lambda>x. linked (H x))"
    and "\<And>x. owns Q (H x) (k x)"
  shows "owns Q h (await m k)"
  unfolding await_def
proof (intro piece allI impI)
  fix s assume "linked h s"
  moreover obtain x t where run: "run_state m s = (x, t)" by fastforce
  ultimately have "linked (H x) t" using ensuresD [OF assms(2) _ run] by blast
  moreover have "heap t = heap s" "shared_state t = shared_state s" "uv_inv s \<Longrightarrow> uv_inv t"
    using assms(1) keepsD [OF _ run] ensuresD [OF _ _ run] unfolding local_piece_def by blast+
  ultimately show "heap (snd (run_state m s)) = heap s \<and> shared_state (snd (run_state m s)) = shared_state s \<and>
      (uv_inv s \<longrightarrow> uv_inv (snd (run_state m s))) \<and>
      (\<exists>h'. linked h' (snd (run_state m s)) \<and> owns Q h' (k (fst (run_state m s))))"
    using assms(3) [of x] by (auto simp: run)
qed

lemma owns_bind:
  "owns R h f \<Longrightarrow> (\<And>x h'. R x h' \<Longrightarrow> owns Q h' (k x)) \<Longrightarrow> owns Q h (fut_bind f k)"
proof (induction rule: owns.induct)
  case (piece h eff rest)
  show ?case by (simp, rule owns.piece) (use piece in blast)
qed simp

lemma owns_mono: "owns R h f \<Longrightarrow> (\<And>x h'. R x h' \<Longrightarrow> Q x h') \<Longrightarrow> owns Q h f"
proof (induction rule: owns.induct)
  case (piece h eff rest)
  show ?case by (rule owns.piece) (use piece in blast)
qed simp

subsection \<open>What each future promises\<close>

lemma local_pieceI:
  "emits_only is_call m \<Longrightarrow> keeps heap m \<Longrightarrow> keeps shared_state m \<Longrightarrow> keeps uv_cache m \<Longrightarrow> local_piece m"
  by (simp add: local_piece_def uv_frame emits_only_evs [OF _ is_call_not_uv])

lemma local_pieces:
  "local_piece (pipe_write env c line)" "local_piece (pipe_flush env c)" "local_piece (pipe_read env c)"
  "local_piece (try_connect env sid)" "local_piece (emit (Sleep n))" "local_piece (drop_client p)"
  "local_piece (read_handshake_nonce env)" "local_piece (get_op_sign_pub_key_bytes_for_hello env)"
  unfolding pipe_write_def pipe_flush_def pipe_read_def try_connect_def drop_client_def
  by (intro local_pieceI only frame hello_key_frame emits_only_mono [OF reg_only is_call_intros(2)]
      emits_only_mono [OF hello_key_only is_call_intros(3)]; simp)+

text \<open>The pieces that use the pipe, by what is open after them.\<close>

lemma linked_pieces:
  "ensures (linked (Some c)) (pipe_write env c line) (\<lambda>_. linked (Some c))"
  "ensures (linked (Some c)) (pipe_flush env c) (\<lambda>_. linked (Some c))"
  "ensures (linked (Some c)) (pipe_read env c) (\<lambda>_. linked (Some c))"
  "ensures (linked None) (try_connect env sid)
     (\<lambda>r. linked (case r of Ok p \<Rightarrow> Some (transport p) | Err _ \<Rightarrow> None))"
  "ensures (linked h) (emit (Sleep n)) (\<lambda>_. linked h)"
  by (auto simp: ensures_def linked_def pipe_write_def pipe_flush_def pipe_read_def try_connect_def
      split: sum.split)

definition same_pipe :: "nat \<Rightarrow> 'r \<times> PipeClient \<Rightarrow> nat option \<Rightarrow> bool" where
  "same_pipe c x h = (h = Some c \<and> transport (snd x) = c)"

lemma owns_send_line: "owns (\<lambda>_ h. h = Some c) (Some c) (send_line_fut env c line)"
  unfolding send_line_fut_def
  by (auto intro!: owns_await [where H = "\<lambda>_. Some c"] local_pieces linked_pieces split: option.split)

lemma owns_recv_line: "owns (\<lambda>_ h. h = Some c) (Some c) (recv_line_fut env c)"
  unfolding recv_line_fut_def
  by (auto intro!: owns_await [where H = "\<lambda>_. Some c"] local_pieces linked_pieces)

lemma owns_call: "owns (same_pipe (transport p)) (Some (transport p)) (call_fut env p rpc params)"
  unfolding call_fut_def Let_def
  by (auto intro!: owns_bind [OF owns_send_line] owns_bind [OF owns_recv_line]
      simp: same_pipe_def split: sum.split option.split)

lemma owns_connect:
  "owns (\<lambda>r h. h = (case r of Ok p \<Rightarrow> Some (transport p) | Err _ \<Rightarrow> None)) None (connect_fut env sid ds e)"
proof (induction ds arbitrary: e)
  case Nil
  show ?case
    by (auto intro!: owns_await [OF local_pieces(4) linked_pieces(4)] split: sum.split)
next
  case (Cons d ds)
  then show ?case
    by (auto intro!: owns_await [OF local_pieces(4) linked_pieces(4)]
        owns_await [OF local_pieces(5) linked_pieces(5)] split: sum.split)
qed

lemma owns_handshake: "owns (same_pipe (transport p)) (Some (transport p)) (handshake_fut env p pkg nonce key)"
  unfolding handshake_fut_def
  by (auto intro!: owns_bind [OF owns_call] simp: same_pipe_def split: option.split sum.split)

text \<open>A session ends by a panic, with the pipe of its client open, or with nothing open.\<close>

definition session_done :: "(ClientError + PipeClient) option \<Rightarrow> nat option \<Rightarrow> bool" where
  "session_done r h = (case r of
     None \<Rightarrow> True | Some (Ok p) \<Rightarrow> h = Some (transport p) | Some (Err _) \<Rightarrow> h = None)"

lemma owns_drop:
  "h = Some (transport p) \<Longrightarrow> owns Q None k \<Longrightarrow> owns Q h (await (drop_client p) (\<lambda>_. k))"
  by (rule owns_await [OF local_pieces(6), where H = "\<lambda>_. None"]) (simp_all add: linked_drop)

lemma owns_session: "owns session_done None (session_fut env sid)"
  unfolding session_fut_def
proof (rule owns_bind [OF owns_connect])
  fix r :: "ClientError + PipeClient" and h
  assume h: "h = (case r of Ok p \<Rightarrow> Some (transport p) | Err _ \<Rightarrow> None)"
  show "owns session_done h (case r of
       Err e \<Rightarrow> Ready (Some (Err e))
     | Ok p \<Rightarrow> await (read_handshake_nonce env) (\<lambda>n. case n of
         None \<Rightarrow> Ready None
       | Some (Err e) \<Rightarrow> await (drop_client p) (\<lambda>_. Ready (Some (Err (InvalidRequest (reg_read_reason e)))))
       | Some (Ok nonce) \<Rightarrow>
           await (get_op_sign_pub_key_bytes_for_hello env) (\<lambda>pub_key.
             fut_bind (handshake_fut env p KEEPASSKEYWIN_PKG_FAMILY nonce pub_key) (\<lambda>(r, p). case r of
               Ok _ \<Rightarrow> Ready (Some (Ok p))
             | Err e \<Rightarrow> await (drop_client p) (\<lambda>_. Ready (Some (Err e)))))))"
  proof (cases r)
    case (Inl e)
    with h show ?thesis by (simp add: session_done_def)
  next
    case (Inr p)
    have hello: "owns session_done (Some (transport p))
        (fut_bind (handshake_fut env p KEEPASSKEYWIN_PKG_FAMILY nonce key) (\<lambda>(r, p). case r of
           Ok _ \<Rightarrow> Ready (Some (Ok p)) | Err e \<Rightarrow> await (drop_client p) (\<lambda>_. Ready (Some (Err e)))))" for nonce key
      by (rule owns_bind [OF owns_handshake])
        (auto simp: same_pipe_def session_done_def intro!: owns_drop split: sum.split)
    from h Inr show ?thesis
      by (auto simp: session_done_def split: option.split sum.split
          intro!: hello owns_drop owns_await [OF local_pieces(7) linked_nonce] owns_await [OF local_pieces(8) linked_hello_key])
  qed
qed

text \<open>The future of the retrying call, and the call of the task.\<close>

definition call_done :: "('r \<times> PipeClient option) option \<Rightarrow> nat option \<Rightarrow> bool" where
  "call_done x h = (case x of None \<Rightarrow> True | Some (r, fresh) \<Rightarrow> h = map_option transport fresh)"

lemma owns_call_or_reconnect:
  "owns call_done (Some (transport p)) (call_or_reconnect_fut env sid p rpc params)"
proof -
  have again: "owns call_done (Some (transport q))
      (fut_bind (call_fut env q rpc params) (\<lambda>(r2, q). Ready (Some (r2, Some q))))" for q
    by (rule owns_bind [OF owns_call]) (auto simp: same_pipe_def call_done_def)
  have retry: "owns call_done None (fut_bind (session_fut env sid) (\<lambda>c. case c of
       None \<Rightarrow> Ready None
     | Some (Ok fresh) \<Rightarrow> fut_bind (call_fut env fresh rpc params) (\<lambda>(r2, fresh). Ready (Some (r2, Some fresh)))
     | Some (Err connect_err) \<Rightarrow> Ready (Some (Err connect_err, None))))"
    by (rule owns_bind [OF owns_session])
      (auto simp: session_done_def call_done_def intro!: again split: option.split sum.split)
  show ?thesis
    unfolding call_or_reconnect_fut_def
    by (rule owns_bind [OF owns_call])
      (auto simp: same_pipe_def call_done_def intro!: owns_drop retry split: sum.split)
qed

lemma owns_vault: "owns (same_pipe (transport p)) (Some (transport p)) (vault_fut env p)"
  unfolding vault_fut_def by (rule owns_call)

end
