(* ===== verification/Interleaving.thy ===== *)
theory Interleaving
  imports Futures
begin

text \<open>
  Re-entrancy. While an operation waits for the plugin, its STA thread pumps messages, so other
  COM calls run nested inside it, and the futures of operations and reconciliation tasks run on
  the runtime's threads. \<open>take_call_with_retry\<close> and the task are therefore cut at the points
  where others can run: taking the pipe, every external call of their futures, and putting the
  pipe back. Any order of the pieces is allowed, except that nested operations end in the
  reverse order of their begins.
\<close>

subsection \<open>Operations in flight\<close>

text \<open>An operation in flight: its state, and what is left of its future.\<close>

record frame =
  fr_state :: nat
  fr_future :: "((ClientError + json) \<times> PipeClient option) option fut"

text \<open>A task that has the pipe.\<close>

record task =
  tk_state :: nat
  tk_future :: "((ClientError + json) \<times> PipeClient) fut"

text \<open>The process, its stack of operations in flight (innermost first), its tasks in flight.\<close>

record system =
  sys :: proc
  frames :: "frame list"
  flying :: "task list"

definition quiet :: "proc \<Rightarrow> system" where
  "quiet s = \<lparr>sys = s, frames = [], flying = []\<rparr>"

text \<open>
  The first rules are the pieces of \<open>take_call_with_retry\<close>, then those of
  \<open>reconcile_vault_with_os\<close> (a spawned task may start at any time), then the operations that
  run in one piece: an activation, which waits without pumping, user verification, and the
  handling of an answer. A process that aborts has no further step of the piece that aborted.
\<close>

inductive step :: "env \<Rightarrow> system \<Rightarrow> system \<Rightarrow> bool" for env where
  op_without_pipe:
    "run_state (take_pipe a) (sys S) = (None, t) \<Longrightarrow> step env S (S\<lparr>sys := t\<rparr>)"
| op_begin:
    "run_state (take_pipe a) (sys S) = (Some p, t) \<Longrightarrow>
     step env S (S\<lparr>sys := t, frames := \<lparr>fr_state = a,
       fr_future = call_or_reconnect_fut env (session_of a t) p rpc params\<rparr> # frames S\<rparr>)"
| op_piece:
    "frames S = us @ f # vs \<Longrightarrow> fr_future f = Piece rest eff \<Longrightarrow>
     step env S (S\<lparr>sys := eff (sys S), frames := us @ f\<lparr>fr_future := rest (sys S)\<rparr> # vs\<rparr>)"
| op_end:
    "frames S = f # fs \<Longrightarrow> fr_future f = Ready (Some (r, fresh)) \<Longrightarrow>
     step env S (S\<lparr>sys := snd (run_state (reconcile_pipe (fr_state f) fresh) (sys S)), frames := fs\<rparr>)"
| task_begin:
    "a \<in> set (tasks (sys S)) \<Longrightarrow> run_state (take_pipe a) (sys S) = (Some p, t) \<Longrightarrow>
     step env S (S\<lparr>sys := t, flying := \<lparr>tk_state = a, tk_future = vault_fut env p\<rparr> # flying S\<rparr>)"
| task_piece:
    "flying S = us @ k # vs \<Longrightarrow> tk_future k = Piece rest eff \<Longrightarrow>
     step env S (S\<lparr>sys := eff (sys S), flying := us @ k\<lparr>tk_future := rest (sys S)\<rparr> # vs\<rparr>)"
| task_returned:
    "flying S = us @ k # vs \<Longrightarrow> tk_future k = Ready (r, p) \<Longrightarrow>
     step env S (S\<lparr>sys := snd (run_state (set_pipe (tk_state k) (Some p)) (sys S)), flying := us @ vs\<rparr>)"
| task_sync:
    "run_state (sync_os env vault) (sys S) = (Some u, t) \<Longrightarrow> step env S (S\<lparr>sys := t\<rparr>)"
| activate:
    "run_state (cf_create_instance env iid) (sys S) = (Some r, t) \<Longrightarrow> step env S (S\<lparr>sys := t\<rparr>)"
| verify:
    "run_state (verify_user env req rpc) (sys S) = (r, t) \<Longrightarrow> step env S (S\<lparr>sys := t\<rparr>)"
| answer:
    "run_state (answer_operation env rpc x) (sys S) = (r, t) \<Longrightarrow> step env S (S\<lparr>sys := t\<rparr>)"

text \<open>
  What is in flight: the state whose pipe is out, and which handle may be open (\<open>None\<close> for
  none), so that the future keeps its promise.
\<close>

type_synonym flight = "nat \<times> (nat option \<Rightarrow> bool)"

definition task_done :: "'r \<times> PipeClient \<Rightarrow> nat option \<Rightarrow> bool" where
  "task_done x h = (h = Some (transport (snd x)))"

definition frame_flight :: "frame \<Rightarrow> flight" where
  "frame_flight f = (fr_state f, \<lambda>h. owns call_done h (fr_future f))"

definition task_flight :: "task \<Rightarrow> flight" where
  "task_flight k = (tk_state k, \<lambda>h. owns task_done h (tk_future k))"

definition flights :: "system \<Rightarrow> flight list" where
  "flights S = map frame_flight (frames S) @ map task_flight (flying S)"

subsection \<open>The invariant\<close>

text \<open>
  The shared slot refers to the one state that has the connection: either the state holds the
  pipe and nothing is in flight, or one operation or task has it and the state holds none.
\<close>

inductive conn_held :: "proc \<Rightarrow> flight list \<Rightarrow> bool" for s where
  nobody:
    "shared_state s = None \<Longrightarrow> (\<forall>b. pipe_of b s = None) \<Longrightarrow> linked None s \<Longrightarrow> conn_held s []"
| at_rest:
    "shared_state s = Some a \<Longrightarrow> pipe_of a s = Some p \<Longrightarrow> (\<forall>b. b \<noteq> a \<longrightarrow> pipe_of b s = None) \<Longrightarrow>
     linked (Some (transport p)) s \<Longrightarrow> conn_held s []"
| in_flight:
    "shared_state s = Some a \<Longrightarrow> heap s a \<noteq> None \<Longrightarrow> (\<forall>b. pipe_of b s = None) \<Longrightarrow>
     linked h s \<Longrightarrow> owned h \<Longrightarrow> conn_held s [(a, owned)]"

inductive_cases held_restE: "conn_held s []"
inductive_simps held_cons_simps [simp]: "conn_held s (x # xs)"

lemma held_conn_inv: "conn_held s [] \<longleftrightarrow> conn_inv s"
proof
  assume "conn_held s []"
  then show "conn_inv s"
    by (cases rule: held_restE) (auto simp: conn_inv_def, metis option.distinct(1))
next
  assume inv: "conn_inv s"
  show "conn_held s []"
  proof (cases "shared_state s")
    case None
    with inv show ?thesis by (intro nobody) (auto simp: conn_inv_def)
  next
    case (Some a)
    with inv obtain p where "pipe_of a s = Some p" by (auto simp: conn_inv_def)
    with Some inv show ?thesis by (intro at_rest [of s a p]) (auto simp: conn_inv_def)
  qed
qed

definition sys_inv :: "system \<Rightarrow> bool" where
  "sys_inv S = (conn_held (sys S) (flights S) \<and> uv_inv (sys S))"

lemma flight_singleton:
  assumes "conn_held s (flights S)"
  shows "frames S = us @ f # vs \<Longrightarrow> us = [] \<and> vs = [] \<and> flying S = []"
    and "flying S = ts @ x # ws \<Longrightarrow> ts = [] \<and> ws = [] \<and> frames S = []"
proof -
  have "length (flights S) \<le> 1" using assms by (cases rule: conn_held.cases) auto
  then show "frames S = us @ f # vs \<Longrightarrow> us = [] \<and> vs = [] \<and> flying S = []"
    and "flying S = ts @ x # ws \<Longrightarrow> ts = [] \<and> ws = [] \<and> frames S = []"
    by (auto simp: flights_def)
qed
subsection \<open>The pieces keep the invariant\<close>

lemma held_frame:
  assumes "conn_held s xs" and "heap t = heap s" and "shared_state t = shared_state s"
    and "\<And>h. linked h s \<Longrightarrow> linked h t"
  shows "conn_held t xs"
  using assms by (induction rule: conn_held.induct) (auto simp: pipe_of_def intro: nobody at_rest)

lemma held_other:
  assumes "conn_held s xs" and "keeps heap m" and "keeps shared_state m" and "emits_only not_pipe m"
    and "run_state m s = (r, t)"
  shows "conn_held t xs"
  using assms(1) keepsD [OF assms(2,5)] keepsD [OF assms(3,5)]
  by (rule held_frame) (rule ensuresD [OF linked_not_pipe [OF assms(4)] _ assms(5)])

lemma take_pipe_run:
  "run_state (take_pipe a) s = (p, t) \<longleftrightarrow> p = pipe_of a s \<and> t = snd (run_state (set_pipe a None) s)"
  by (auto simp: take_pipe_def set_pipe_def)

lemma take_pipe_nothing: "run_state (take_pipe a) s = (None, t) \<Longrightarrow> t = s"
proof -
  assume run: "run_state (take_pipe a) s = (None, t)"
  then have "map_option (pipe_update (\<lambda>_. None)) (heap s a) = heap s a"
    by (cases "heap s a") (auto simp: take_pipe_run pipe_of_def)
  with run show "t = s" by (simp add: take_pipe_run set_pipe_def)
qed

lemma held_take:
  assumes "conn_held s xs" and run: "run_state (take_pipe a) s = (Some p, t)"
    and owned: "owned (Some (transport p))"
  shows "xs = [] \<and> conn_held t [(a, owned)]"
  using assms(1)
proof cases
  case (at_rest b q)
  from run have p: "pipe_of a s = Some p" and t: "t = snd (run_state (set_pipe a None) s)"
    by (auto simp: take_pipe_run)
  from p at_rest(4) have b: "b = a" by (metis option.distinct(1))
  from p obtain st where "heap s a = Some st" by (auto simp: pipe_of_def split: option.splits)
  with at_rest p t b owned show ?thesis by (auto simp: set_pipe_def pipe_of_def linked_def)
qed (use run in \<open>auto simp: take_pipe_run\<close>)

lemma held_end:
  assumes "conn_held s [(a, owned)]" and "\<And>h. owned h \<Longrightarrow> h = map_option transport fresh"
  shows "conn_held (snd (run_state (reconcile_pipe a fresh) s)) []"
proof (cases fresh)
  case None
  with assms show ?thesis
    by (intro nobody)
      (auto simp: reconcile_pipe_def clear_shared_state_def clear_slot_def pipe_of_def linked_def)
next
  case (Some p)
  from assms(1) obtain st where "heap s a = Some st" by auto
  with Some assms show ?thesis
    by (intro at_rest [where a = a and p = p])
      (auto simp: reconcile_pipe_def set_pipe_def pipe_of_def linked_def)
qed

lemmas held_set_pipe = held_end [where fresh = "Some p" for p, unfolded reconcile_pipe_def option.case,
    simplified option.map]

text \<open>A piece of a future moves the flight to what the future owns then.\<close>

lemma piece_moves:
  assumes "conn_held s [(a, \<lambda>h. owns Q h (Piece rest eff))]"
  shows "conn_held (eff s) [(a, \<lambda>h. owns Q h (rest s))]" and "uv_inv s \<Longrightarrow> uv_inv (eff s)"
proof -
  from assms obtain h where "linked h s" "owns Q h (Piece rest eff)" by auto
  then have "heap (eff s) = heap s" "shared_state (eff s) = shared_state s" "uv_inv s \<Longrightarrow> uv_inv (eff s)"
      "\<exists>h'. linked h' (eff s) \<and> owns Q h' (rest s)"
    by (auto simp: owns_piece)
  with assms show "conn_held (eff s) [(a, \<lambda>h. owns Q h (rest s))]" and "uv_inv s \<Longrightarrow> uv_inv (eff s)"
    by (auto simp: pipe_of_def)
qed

lemma activate_held:
  assumes inv: "conn_held s xs" and run: "run_state (cf_create_instance env iid) s = (Some r, t)"
  shows "conn_held t xs"
proof (cases "shared_state s")
  case (Some a)
  from run have "heap t = heap s" "shared_state t = shared_state s"
      "\<exists>es. trace t = trace s @ es \<and> list_all not_pipe es"
    unfolding create_run [OF shared_run [OF Some]] by (auto split: if_splits)
  with inv show ?thesis
    by (intro held_frame [OF inv]) (auto simp: linked_def monitor_not_pipe)
next
  case None
  with inv have "xs = []" by (cases rule: conn_held.cases) auto
  with inv run show ?thesis
    using ensuresD [OF create.conn, of s env iid "Some r" t] by (simp add: held_conn_inv)
qed

lemma local_held:
  assumes "conn_held s xs"
  shows "run_state (verify_user env req rpc) s = (r1, t1) \<Longrightarrow> conn_held t1 xs"
    and "run_state (answer_operation env rpc x) s = (r2, t2) \<Longrightarrow> conn_held t2 xs"
    and "run_state (sync_os env vault) s = (r3, t3) \<Longrightarrow> conn_held t3 xs"
proof -
  have cred: "is_cred e \<Longrightarrow> not_pipe e" for e by (cases e rule: is_cred.cases) simp_all
  show "run_state (verify_user env req rpc) s = (r1, t1) \<Longrightarrow> conn_held t1 xs"
    by (rule held_other [OF assms verify_user_frame verify_user_frame
          emits_only_mono [OF verify_user_only is_uv_event_not_pipe]]) simp_all
  show "run_state (answer_operation env rpc x) s = (r2, t2) \<Longrightarrow> conn_held t2 xs"
    by (rule held_other [OF assms answer_frame answer_frame
          emits_only_mono [OF answer_only is_answer_not_pipe]]) simp_all
  show "run_state (sync_os env vault) s = (r3, t3) \<Longrightarrow> conn_held t3 xs"
    by (rule held_other [OF assms sync_frame sync_frame emits_only_mono [OF sync_only cred]]) simp_all
qed

lemma flights_frame:
  "frames S = us @ f # vs \<Longrightarrow> conn_held s (flights S) \<Longrightarrow> flights S = [frame_flight f] \<and>
   flights (S\<lparr>sys := t, frames := us @ f' # vs\<rparr>) = [frame_flight f']"
  using flight_singleton(1) [of s S us f vs] by (simp add: flights_def)

lemma flights_task:
  "flying S = us @ x # vs \<Longrightarrow> conn_held s (flights S) \<Longrightarrow> flights S = [task_flight x] \<and>
   flights (S\<lparr>sys := t, flying := us @ x' # vs\<rparr>) = [task_flight x'] \<and>
   flights (S\<lparr>sys := t, flying := us @ vs\<rparr>) = []"
  using flight_singleton(2) [of s S us x vs] by (simp add: flights_def)

lemma flights_sys [simp]: "flights (S\<lparr>sys := t\<rparr>) = flights S"
  by (simp add: flights_def)

lemma owns_vault_done: "owns task_done (Some (transport p)) (vault_fut env p)"
  by (rule owns_mono [OF owns_vault]) (auto simp: same_pipe_def task_done_def)

lemma step_held: "step env S T \<Longrightarrow> conn_held (sys S) (flights S) \<Longrightarrow> conn_held (sys T) (flights T)"
proof (induction rule: step.induct)
  case (op_without_pipe a S t)
  then show ?case using take_pipe_nothing by fastforce
next
  case (op_begin a S p t rpc params)
  let ?k = "call_or_reconnect_fut env (session_of a t) p rpc params"
  from held_take [OF op_begin(2,1), where owned = "\<lambda>h. owns call_done h ?k", OF owns_call_or_reconnect]
  show ?case by (simp add: flights_def frame_flight_def)
next
  case (op_piece S us f vs rest eff)
  note fl = flights_frame [OF op_piece(1,3)]
  with op_piece have "conn_held (sys S) [(fr_state f, \<lambda>h. owns call_done h (Piece rest eff))]"
    by (simp add: frame_flight_def)
  from piece_moves(1) [OF this] fl show ?case by (simp add: frame_flight_def)
next
  case (op_end S f fs r fresh)
  have one: "fs = [] \<and> flying S = []" using flight_singleton(1) [OF op_end(3), of "[]"] op_end(1) by simp
  with op_end have "conn_held (sys S) [(fr_state f, \<lambda>h. owns call_done h (Ready (Some (r, fresh))))]"
    by (simp add: flights_def frame_flight_def)
  from held_end [OF this, of fresh] one show ?case by (simp add: flights_def call_done_def)
next
  case (task_begin a S p t)
  from held_take [OF task_begin(3,2), where owned = "\<lambda>h. owns task_done h (vault_fut env p)", OF owns_vault_done]
  show ?case by (simp add: flights_def task_flight_def)
next
  case (task_piece S us k vs rest eff)
  note fl = flights_task [OF task_piece(1,3)]
  with task_piece have "conn_held (sys S) [(tk_state k, \<lambda>h. owns task_done h (Piece rest eff))]"
    by (simp add: task_flight_def)
  from piece_moves(1) [OF this] fl show ?case by (simp add: task_flight_def)
next
  case (task_returned S us k vs r p)
  note fl = flights_task [OF task_returned(1,3)]
  with task_returned have "conn_held (sys S) [(tk_state k, \<lambda>h. owns task_done h (Ready (r, p)))]"
    by (simp add: task_flight_def)
  from held_set_pipe [OF this, of p] fl show ?case by (simp add: task_done_def)
next
  case (task_sync vault S u t)
  then show ?case using local_held(3) by fastforce
next
  case (activate iid S r t)
  then show ?case using activate_held by fastforce
next
  case (verify req rpc S r t)
  then show ?case using local_held(1) by fastforce
next
  case (answer rpc x S r t)
  then show ?case using local_held(2) by fastforce
qed

subsection \<open>User verification under interleaving\<close>

lemma piece_uv:
  "ensures uv_inv (take_pipe a) (\<lambda>_. uv_inv)"
  "ensures uv_inv (set_pipe a p) (\<lambda>_. uv_inv)"
  "ensures uv_inv (reconcile_pipe a fresh) (\<lambda>_. uv_inv)"
  "ensures uv_inv (answer_operation env rpc x) (\<lambda>_. uv_inv)"
  "ensures uv_inv (sync_os env vault) (\<lambda>_. uv_inv)"
proof -
  have cred: "is_cred e \<Longrightarrow> \<not> is_uv e" for e by (cases e rule: is_cred.cases) simp_all
  show "ensures uv_inv (take_pipe a) (\<lambda>_. uv_inv)"
    by (intro uv_frame) (simp_all add: keeps_def take_pipe_def set_pipe_def evs_def)
  show "ensures uv_inv (set_pipe a p) (\<lambda>_. uv_inv)"
    by (intro uv_frame) (simp_all add: keeps_def set_pipe_def evs_def)
  show "ensures uv_inv (reconcile_pipe a fresh) (\<lambda>_. uv_inv)"
    by (intro uv_frame)
      (simp_all add: keeps_def reconcile_pipe_def set_pipe_def clear_shared_state_def evs_def split: option.split)
  show "ensures uv_inv (answer_operation env rpc x) (\<lambda>_. uv_inv)"
    by (rule uv_frame [OF answer_frame emits_only_evs [OF answer_only is_answer_not_uv]]) simp_all
  show "ensures uv_inv (sync_os env vault) (\<lambda>_. uv_inv)"
    by (rule uv_frame [OF sync_frame emits_only_evs [OF sync_only cred]]) simp_all
qed

lemma uv_after: "ensures uv_inv m (\<lambda>_. uv_inv) \<Longrightarrow> uv_inv s \<Longrightarrow> uv_inv (snd (run_state m s))"
  by (cases "run_state m s") (auto dest: ensuresD)

lemmas piece_uv_after = piece_uv [THEN uv_after] verify_user_uv [THEN uv_after] create.uv [THEN uv_after]

lemma step_uv:
  "step env S T \<Longrightarrow> conn_held (sys S) (flights S) \<Longrightarrow> uv_inv (sys S) \<Longrightarrow> uv_inv (sys T)"
proof (induction rule: step.induct)
  case (op_piece S us f vs rest eff)
  then have "conn_held (sys S) [(fr_state f, \<lambda>h. owns call_done h (Piece rest eff))]"
    using flights_frame [OF op_piece(1,3)] by (simp add: frame_flight_def)
  from piece_moves(2) [OF this op_piece(4)] show ?case by simp
next
  case (task_piece S us k vs rest eff)
  then have "conn_held (sys S) [(tk_state k, \<lambda>h. owns task_done h (Piece rest eff))]"
    using flights_task [OF task_piece(1,3)] by (simp add: task_flight_def)
  from piece_moves(2) [OF this task_piece(4)] show ?case by simp
qed (simp_all add: piece_uv_after; metis piece_uv_after snd_conv)+

subsection \<open>Every reachable state\<close>

lemma sys_inv_init: "conn_inv s \<Longrightarrow> uv_inv s \<Longrightarrow> sys_inv (quiet s)"
  by (simp add: sys_inv_def quiet_def flights_def held_conn_inv)

lemma sys_inv_step: "step env S T \<Longrightarrow> sys_inv S \<Longrightarrow> sys_inv T"
  by (simp add: sys_inv_def step_held step_uv)

lemma sys_inv_steps: "(step env)\<^sup>*\<^sup>* S T \<Longrightarrow> sys_inv S \<Longrightarrow> sys_inv T"
  by (induction rule: rtranclp_induct) (auto intro: sys_inv_step)

lemma reachable_inv: "conn_inv s \<Longrightarrow> uv_inv s \<Longrightarrow> (step env)\<^sup>*\<^sup>* (quiet s) S \<Longrightarrow> sys_inv S"
  by (blast intro: sys_inv_init sys_inv_steps)

lemma held_linked: "conn_held s xs \<Longrightarrow> \<exists>h. linked h s"
  by (cases rule: conn_held.cases) blast+

lemma held_no_pipe: "conn_held s xs \<Longrightarrow> xs \<noteq> [] \<Longrightarrow> pipe_of b s = None"
  by (induction rule: conn_held.induct) auto

lemma held_length: "conn_held s xs \<Longrightarrow> length xs \<le> 1"
  by (induction rule: conn_held.induct) auto

text \<open>
  C6. Whatever the message pump and the reconciliation tasks interleave, starting from a state
  of the sequential program, at most one operation or task owns the connection, the process
  never has two connections open and never touches a closed one, the sequential invariant holds
  again whenever nothing is in flight, and once the second user-verification entry point has
  reported that it is not implemented it is never called again.
\<close>

theorem single_flight:
  assumes "conn_inv s" and "uv_inv s" and "(step env)\<^sup>*\<^sup>* (quiet s) S"
  shows "length (frames S) + length (flying S) \<le> 1 \<and> monitor None (trace (sys S)) \<noteq> None \<and>
    v2_quiet (evs is_uv (sys S)) \<and>
    (if frames S = [] \<and> flying S = [] then conn_inv (sys S)
     else shared_state (sys S) \<noteq> None \<and> (\<forall>b. pipe_of b (sys S) = None))"
proof -
  have inv: "conn_held (sys S) (flights S)" "uv_inv (sys S)"
    using reachable_inv [OF assms] by (simp_all add: sys_inv_def)
  show ?thesis
  proof (intro conjI)
    show "length (frames S) + length (flying S) \<le> 1"
      using held_length [OF inv(1)] by (simp add: flights_def)
    show "monitor None (trace (sys S)) \<noteq> None"
      using held_linked [OF inv(1)] by (auto simp: linked_def)
    show "v2_quiet (evs is_uv (sys S))" using inv(2) by (simp add: uv_inv_def)
    show "if frames S = [] \<and> flying S = [] then conn_inv (sys S)
     else shared_state (sys S) \<noteq> None \<and> (\<forall>b. pipe_of b (sys S) = None)"
      using inv(1) by (cases rule: conn_held.cases) (auto simp: flights_def held_conn_inv [symmetric] intro: conn_held.intros)
  qed
qed

text \<open>A process with its connection open, and an operation that has just taken it.\<close>

definition connected_proc :: proc where
  "connected_proc = init_proc\<lparr>trace := [Pipe (PipeOpen (pipe_name 1) (Ok 7))], shared_state := Some 0,
     heap := (\<lambda>_. None)(0 \<mapsto> \<lparr>session_id = 1, pipe = Some \<lparr>transport = 7, next_id = 0\<rparr>\<rparr>)\<rparr>"

lemma connected_inv: "conn_inv connected_proc" "uv_inv connected_proc"
  by (simp_all add: connected_proc_def init_proc_def conn_inv_def pipe_of_def linked_def uv_inv_def
      uv_wf_def evs_def)

definition busy :: "env \<Rightarrow> system" where
  "busy env = \<lparr>sys = snd (run_state (set_pipe 0 None) connected_proc),
     frames = [\<lparr>fr_state = 0, fr_future =
       call_or_reconnect_fut env 1 \<lparr>transport = 7, next_id = 0\<rparr> MAKE_CREDENTIAL JNull\<rparr>], flying = []\<rparr>"

lemma busy_reachable: "(step env)\<^sup>*\<^sup>* (quiet connected_proc) (busy env)"
proof -
  let ?t = "snd (run_state (set_pipe 0 None) connected_proc)"
  have "run_state (take_pipe 0) (sys (quiet connected_proc)) = (Some \<lparr>transport = 7, next_id = 0\<rparr>, ?t)"
    by (simp add: take_pipe_run quiet_def connected_proc_def pipe_of_def)
  from op_begin [OF this, of env MAKE_CREDENTIAL JNull] have "step env (quiet connected_proc) (busy env)"
    by (simp add: quiet_def busy_def session_of_def set_pipe_def connected_proc_def)
  then show ?thesis by blast
qed

theorem single_flight_witness:
  "let S = busy sample_env in
    length (frames S) + length (flying S) \<le> 1 \<and> monitor None (trace (sys S)) \<noteq> None \<and>
    v2_quiet (evs is_uv (sys S)) \<and>
    (if frames S = [] \<and> flying S = [] then conn_inv (sys S)
     else shared_state (sys S) \<noteq> None \<and> (\<forall>b. pipe_of b (sys S) = None))"
  unfolding Let_def by (rule single_flight [OF connected_inv busy_reachable])

text \<open>
  C9. While an operation or a task has the connection, whatever the pump lets in never reaches
  the plugin: \<open>CancelOperation\<close> answers \<open>S_OK\<close> and changes nothing, so the operation it is meant
  to cancel goes on; \<open>GetLockStatus\<close> answers \<open>Locked\<close> whatever the vault's state is; and a
  second \<open>MakeCredential\<close> or \<open>GetAssertion\<close> asks the user but sends nothing.
\<close>

theorem nested_calls_stay_local:
  assumes "conn_inv s" and "uv_inv s" and "(step env)\<^sup>*\<^sup>* (quiet s) S" and "flights S \<noteq> []"
  shows "run_state (cancel_operation env a g) (sys S) = (Some S_OK, sys S) \<and>
    run_state (get_lock_status env a) (sys S) = (Some (S_OK, Some Locked), sys S) \<and>
    evs is_pipe (snd (run_state (dispatch_operation env a req rpc) (sys S))) = evs is_pipe (sys S)"
proof -
  have conn_held: "conn_held (sys S) (flights S)" using reachable_inv [OF assms(1-3)] by (simp add: sys_inv_def)
  have none: "run_state (take_call_with_retry env a m v) t = (Some None, t)"
    if "heap t = heap (sys S)" for m v t
    using held_no_pipe [OF conn_held assms(4)] that by (intro take_none) (simp add: pipe_of_def)
  obtain u t where ver: "run_state (verify_user env req rpc) (sys S) = (u, t)" by fastforce
  have heap: "heap t = heap (sys S)" by (rule keepsD [OF verify_user_frame ver]) simp_all
  have "evs is_pipe t = evs is_pipe (sys S)"
    by (rule evs_keeps [OF verify_user_only _ ver]) (use is_uv_event_not_pipe not_pipe_is_pipe in blast)
  with none [OF heap] ver have "evs is_pipe (snd (run_state (dispatch_operation env a req rpc) (sys S))) =
      evs is_pipe (sys S)"
    by (simp add: dispatch_operation_def split: sum.splits prod.splits)
  with none [OF refl] show ?thesis by (simp add: cancel_operation_def get_lock_status_def)
qed

theorem nested_calls_stay_local_witness:
  "run_state (cancel_operation sample_env 0 CLSID_GUID) (sys (busy sample_env)) = (Some S_OK, sys (busy sample_env)) \<and>
    run_state (get_lock_status sample_env 0) (sys (busy sample_env)) = (Some (S_OK, Some Locked), sys (busy sample_env)) \<and>
    evs is_pipe (snd (run_state (dispatch_operation sample_env 0 sample_request GET_ASSERTION) (sys (busy sample_env)))) =
      evs is_pipe (sys (busy sample_env))"
  by (rule nested_calls_stay_local [OF connected_inv busy_reachable]) (simp add: busy_def flights_def)

subsection \<open>The sequential program is one of the schedules\<close>

abbreviation at :: "system \<Rightarrow> proc \<Rightarrow> system" where
  "at S t \<equiv> S\<lparr>sys := t\<rparr>"

text \<open>A computation that ends, does so by a sequence of steps with nothing left in flight.\<close>

definition scheduled :: "env \<Rightarrow> system \<Rightarrow> 'a option m \<Rightarrow> bool" where
  "scheduled env S m = (case run_state m (sys S) of
     (None, t) \<Rightarrow> True | (Some x, t) \<Rightarrow> (step env)\<^sup>*\<^sup>* S (at S t))"

lemma scheduled_or_abort:
  assumes "scheduled env S m"
    and "\<And>x t. run_state m (sys S) = (Some x, t) \<Longrightarrow> scheduled env (at S t) (k x)"
  shows "scheduled env S (or_abort m k)"
  using assms by (fastforce simp: scheduled_def split: option.splits prod.splits intro: rtranclp_trans)

lemma scheduled_first:
  assumes run: "run_state m (sys S) = (x, t)" and "step env S (at S t)" and "scheduled env (at S t) (k x)"
  shows "scheduled env S (m \<bind> k)"
  using assms by (auto simp: scheduled_def split: option.splits prod.splits intro: converse_rtranclp_into_rtranclp)

lemma scheduled_ret: "scheduled env S (ret (Some x))"
  by (simp add: scheduled_def)

lemma scheduled_step:
  "run_state m (sys S) = (Some x, t) \<Longrightarrow> (step env)\<^sup>*\<^sup>* S (at S t) \<Longrightarrow> scheduled env S m"
  by (simp add: scheduled_def)

text \<open>The system with one more operation in flight.\<close>

abbreviation in_op :: "system \<Rightarrow> nat \<Rightarrow> ((ClientError + json) \<times> PipeClient option) option fut \<Rightarrow> proc \<Rightarrow> system"
where
  "in_op S a f t \<equiv> S\<lparr>sys := t, frames := \<lparr>fr_state = a, fr_future = f\<rparr> # frames S\<rparr>"

abbreviation in_task :: "system \<Rightarrow> nat \<Rightarrow> ((ClientError + json) \<times> PipeClient) fut \<Rightarrow> proc \<Rightarrow> system" where
  "in_task S a f t \<equiv> S\<lparr>sys := t, flying := \<lparr>tk_state = a, tk_future = f\<rparr> # flying S\<rparr>"

text \<open>A future runs to its end without interruption.\<close>

lemma op_runs: "run_fut f s = (x, t) \<Longrightarrow> (step env)\<^sup>*\<^sup>* (in_op S a f s) (in_op S a (Ready x) t)"
proof (induction f arbitrary: s)
  case (Piece rest eff)
  have "step env (in_op S a (Piece rest eff) s) (in_op S a (rest s) (eff s))"
    using op_piece [of "in_op S a (Piece rest eff) s" "[]" _ "frames S" rest eff env] by simp
  moreover have "(step env)\<^sup>*\<^sup>* (in_op S a (rest s) (eff s)) (in_op S a (Ready x) t)"
    by (rule Piece.IH) (use Piece.prems in simp_all)
  ultimately show ?case by (rule converse_rtranclp_into_rtranclp)
qed simp

lemma task_runs: "run_fut f s = (x, t) \<Longrightarrow> (step env)\<^sup>*\<^sup>* (in_task S a f s) (in_task S a (Ready x) t)"
proof (induction f arbitrary: s)
  case (Piece rest eff)
  have "step env (in_task S a (Piece rest eff) s) (in_task S a (rest s) (eff s))"
    using task_piece [of "in_task S a (Piece rest eff) s" "[]" _ "flying S" rest eff env] by simp
  moreover have "(step env)\<^sup>*\<^sup>* (in_task S a (rest s) (eff s)) (in_task S a (Ready x) t)"
    by (rule Piece.IH) (use Piece.prems in simp_all)
  ultimately show ?case by (rule converse_rtranclp_into_rtranclp)
qed simp

lemma op_ends:
  "step env (in_op S a (Ready (Some (r, fresh))) t) (at S (snd (run_state (reconcile_pipe a fresh) t)))"
  using op_end [of "in_op S a (Ready (Some (r, fresh))) t" _ "frames S" r fresh env] by simp

lemma task_ends:
  "step env (in_task S a (Ready (r, p)) t) (at S (snd (run_state (set_pipe a (Some p)) t)))"
  using task_returned [of "in_task S a (Ready (r, p)) t" "[]" _ "flying S" r p env] by simp

lemma call_ends:
  "case run_state (take_call_with_retry env a rpc params) (sys S) of
     (None, t) \<Rightarrow> True | (Some x, t) \<Rightarrow> (step env)\<^sup>*\<^sup>* S (at S t)"
proof (cases "pipe_of a (sys S)")
  case None
  then show ?thesis by (simp add: take_none)
next
  case (Some p)
  define s0 where "s0 = snd (run_state (set_pipe a None) (sys S))"
  let ?f = "call_or_reconnect_fut env (session_of a s0) p rpc params"
  have take: "run_state (take_pipe a) (sys S) = (Some p, s0)" using Some by (simp add: take_pipe_run s0_def)
  have begun: "(step env)\<^sup>*\<^sup>* S (in_op S a ?f s0)" using op_begin [OF take, of env rpc params] by blast
  obtain x t where run: "run_fut ?f s0 = (x, t)" by fastforce
  then have seq: "run_state (call_or_reconnect env (session_of a s0) p rpc params) s0 = (x, t)"
    by (simp add: run_call_or_reconnect)
  show ?thesis
  proof (cases x)
    case None
    with take seq show ?thesis by (simp add: take_call_with_retry_def)
  next
    case (Some y)
    obtain r fresh where y: "y = (r, fresh)" by fastforce
    have "(step env)\<^sup>*\<^sup>* S (at S (snd (run_state (reconcile_pipe a fresh) t)))"
      using rtranclp.rtrancl_into_rtrancl [OF rtranclp_trans [OF begun op_runs [OF run]]] op_ends Some y
      by blast
    with take seq Some y show ?thesis by (auto simp: take_call_with_retry_def split: prod.split)
  qed
qed

lemmas call_schedule = call_ends [folded scheduled_def]

lemma dispatch_schedule: "scheduled env S (dispatch_operation env a req rpc)"
proof -
  obtain u t1 where ver: "run_state (verify_user env req rpc) (sys S) = (u, t1)" by fastforce
  have answering: "scheduled env T (lift_m (answer_operation env rpc r))" for T r
  proof -
    obtain y t where run: "run_state (answer_operation env rpc r) (sys T) = (y, t)" by fastforce
    from answer [OF run] show ?thesis
      by (intro scheduled_step [of _ _ y t]) (simp_all add: run r_into_rtranclp)
  qed
  show ?thesis
    unfolding dispatch_operation_def
  proof (rule scheduled_first [OF ver verify [OF ver]], cases u)
    case (Inr x)
    then show "scheduled env (at S t1) (case u of Err hr \<Rightarrow> ret (Some (hr, None))
        | Ok (uv_sig_bytes, uv_tier) \<Rightarrow>
          or_abort (take_call_with_retry env a rpc (operation_params env req uv_sig_bytes uv_tier)) (\<lambda>r.
            (case r of None \<Rightarrow> ret (Some (E_FAIL, None))
             | Some result \<Rightarrow> lift_m (answer_operation env rpc result))))"
      by (auto intro!: scheduled_or_abort call_schedule scheduled_ret answering split: option.split prod.split)
  qed (simp add: scheduled_ret)
qed

lemma enumerate_schedule:
  assumes "a \<in> set (tasks (sys S))"
  shows "(step env)\<^sup>*\<^sup>* S (at S (snd (run_state (enumerate_vault env a) (sys S))))"
proof (cases "pipe_of a (sys S)")
  case None
  with enumerate_run [where a = a and s = "sys S" and env = env] show ?thesis by simp
next
  case (Some p)
  define s0 where "s0 = snd (run_state (set_pipe a None) (sys S))"
  obtain r p1 t where run: "run_fut (vault_fut env p) s0 = ((r, p1), t)" by (metis prod.collapse)
  then have "run_state (enumerate_vault env a) (sys S) =
      (case r of Ok v \<Rightarrow> as_array v | Err _ \<Rightarrow> None, snd (run_state (set_pipe a (Some p1)) t))"
    using enumerate_run [where a = a and s = "sys S" and env = env] Some
    by (simp add: s0_def vault_fut_def run_call)
  moreover have take: "run_state (take_pipe a) (sys S) = (Some p, s0)"
    using Some by (simp add: take_pipe_run s0_def)
  have "(step env)\<^sup>*\<^sup>* S (in_task S a (vault_fut env p) s0)"
    using task_begin [OF assms take, of env] by blast
  then have "(step env)\<^sup>*\<^sup>* S (at S (snd (run_state (set_pipe a (Some p1)) t)))"
    by (rule rtranclp.rtrancl_into_rtrancl [OF rtranclp_trans [OF _ task_runs [OF run]] task_ends])
  ultimately show ?thesis by simp
qed

lemma reconcile_schedule:
  assumes "a \<in> set (tasks (sys S))"
  shows "scheduled env S (reconcile_vault_with_os env a)"
proof -
  obtain v t where enum: "run_state (enumerate_vault env a) (sys S) = (v, t)" by fastforce
  have first: "(step env)\<^sup>*\<^sup>* S (at S t)" using enumerate_schedule [OF assms, of env] enum by simp
  have second: "step env (at S t) (at S t')" if "run_state (sync_os env vault) t = (Some u, t')" for vault u t'
    using task_sync [of env vault "at S t" u t'] that by simp
  show ?thesis
  proof (cases v)
    case None
    with enum first show ?thesis by (simp add: scheduled_def reconcile_vault_with_os_def)
  next
    case (Some vault)
    obtain u t' where sync: "run_state (sync_os env vault) t = (u, t')" by fastforce
    show ?thesis
    proof (cases u)
      case None
      with enum Some sync show ?thesis by (simp add: scheduled_def reconcile_vault_with_os_def)
    next
      case (Some w)
      with sync have "step env (at S t) (at S t')" by (intro second) simp
      with first have "(step env)\<^sup>*\<^sup>* S (at S t')" by (rule rtranclp.rtrancl_into_rtrancl)
      with enum \<open>v = Some vault\<close> sync Some show ?thesis
        by (simp add: scheduled_def reconcile_vault_with_os_def)
    qed
  qed
qed

text \<open>
  C25. The interleaving semantics leaves no run of the sequential program out: every run that
  does not abort - a \<open>MakeCredential\<close> or \<open>GetAssertion\<close>, the call of a \<open>CancelOperation\<close> or a
  \<open>GetLockStatus\<close>, a whole reconciliation task that was spawned - is one of its schedules, from
  any state, with whatever else is in flight left as it was.
\<close>

theorem sequential_schedule:
  "scheduled env S (dispatch_operation env a req rpc) \<and>
   scheduled env S (take_call_with_retry env a m ps) \<and>
   list_all (\<lambda>b. scheduled env S (reconcile_vault_with_os env b)) (tasks (sys S))"
  by (simp add: dispatch_schedule call_schedule reconcile_schedule list_all_iff)

subsection \<open>What is in flight can end\<close>

lemma frame_alone: "frames S = [f] \<Longrightarrow> S = in_op (S\<lparr>frames := []\<rparr>) (fr_state f) (fr_future f) (sys S)"
  by (cases S, cases f) simp

lemma task_alone: "flying S = [k] \<Longrightarrow> S = in_task (S\<lparr>flying := []\<rparr>) (tk_state k) (tk_future k) (sys S)"
  by (cases S, cases k) simp

lemma frame_settles:
  assumes "frames S = [f]"
  shows "\<exists>T. (step env)\<^sup>*\<^sup>* S T \<and> flying T = flying S \<and>
    (frames T = [] \<or> (\<exists>f'. frames T = [f'] \<and> fr_future f' = Ready None))"
proof -
  let ?S = "S\<lparr>frames := []\<rparr>"
  obtain x t where run: "run_fut (fr_future f) (sys S) = (x, t)" by fastforce
  have steps: "(step env)\<^sup>*\<^sup>* S (in_op ?S (fr_state f) (Ready x) t)"
    by (subst frame_alone [OF assms]) (rule op_runs [OF run])
  show ?thesis
  proof (cases x)
    case None
    with steps show ?thesis by (intro exI [of _ "in_op ?S (fr_state f) (Ready x) t"]) simp
  next
    case (Some y)
    obtain r fresh where "y = (r, fresh)" by fastforce
    with Some have x: "x = Some (r, fresh)" by simp
    from rtranclp.rtrancl_into_rtrancl [OF steps [unfolded x] op_ends] show ?thesis
      by (intro exI [of _ "at ?S (snd (run_state (reconcile_pipe (fr_state f) fresh) t))"]) simp
  qed
qed

lemma task_settles:
  assumes "flying S = [k]"
  shows "\<exists>T. (step env)\<^sup>*\<^sup>* S T \<and> frames T = frames S \<and> flying T = []"
proof -
  let ?S = "S\<lparr>flying := []\<rparr>"
  obtain r p t where run: "run_fut (tk_future k) (sys S) = ((r, p), t)" by (metis prod.collapse)
  have "(step env)\<^sup>*\<^sup>* S (in_task ?S (tk_state k) (Ready (r, p)) t)"
    by (subst task_alone [OF assms]) (rule task_runs [OF run])
  from rtranclp.rtrancl_into_rtrancl [OF this task_ends] show ?thesis
    by (intro exI [of _ "at ?S (snd (run_state (set_pipe (tk_state k) (Some p)) t))"]) simp
qed



end
