(* ===== verification/Authenticator_Info.thy ===== *)
theory Authenticator_Info
  imports World
begin

text \<open>
  \<open>com/authenticator_info.rs\<close>: the AAGUID of the provider and the CTAP2
  \<open>authenticatorGetInfo\<close> map it registers with. The map is the value handed to
  \<open>ciborium\<close>, whose encoder is a parameter of the model; the lemmas state what CTAP2 asks of the
  value and what the comments of the file promise.
\<close>

definition KEEPASSKEYWIN_AAGUID :: bytes where
  "KEEPASSKEYWIN_AAGUID =
     [0xa9, 0x7d, 0x1e, 0x2b, 0x4c, 0x8f, 0x4a, 0x3e,
      0x9b, 0xd6, 0x5f, 0x82, 0xc1, 0x47, 0x6e, 0x3d]"

definition get_info :: cbor where
  "get_info =
     (let versions = CArray [CText ''FIDO_2_0'', CText ''FIDO_2_1''];
          aaguid = CBytes KEEPASSKEYWIN_AAGUID;
          options = CMap [(CText ''rk'', CBool True), (CText ''up'', CBool True), (CText ''uv'', CBool True)];
          transports = CArray [CText ''internal''];
          algorithms = CArray
            [CMap [(CText ''alg'', CInteger (-7)), (CText ''type'', CText ''public-key'')],
             CMap [(CText ''alg'', CInteger (-257)), (CText ''type'', CText ''public-key'')]]
      in CMap [(CInteger 1, versions), (CInteger 3, aaguid), (CInteger 4, options),
               (CInteger 9, transports), (CInteger 10, algorithms)])"

definition authenticator_get_info_cbor :: "env \<Rightarrow> bytes" where
  "authenticator_get_info_cbor env = cbor_encode (lib env) get_info"

subsection \<open>Canonical CTAP2 CBOR\<close>

text \<open>
  The head of a data item: its major type in the high three bits and the shortest encoding of
  its argument. CTAP2 orders the keys of a map by major type, then by the length of their
  encoding, then bytewise; the comparison of two keys by their encodings is enough to state it.
\<close>

definition be_bytes :: "nat \<Rightarrow> nat \<Rightarrow> nat list" where
  "be_bytes w n = map (\<lambda>i. n div 256 ^ (w - 1 - i) mod 256) [0..<w]"

definition cbor_head :: "nat \<Rightarrow> nat \<Rightarrow> nat list" where
  "cbor_head major n =
     (if n < 24 then [32 * major + n]
      else if n < 0x100 then (32 * major + 24) # be_bytes 1 n
      else if n < 0x10000 then (32 * major + 25) # be_bytes 2 n
      else if n < 0x100000000 then (32 * major + 26) # be_bytes 4 n
      else (32 * major + 27) # be_bytes 8 n)"

fun enc :: "cbor \<Rightarrow> nat list" where
  "enc (CInteger i) = (if 0 \<le> i then cbor_head 0 (nat i) else cbor_head 1 (nat (- 1 - i)))"
| "enc (CBytes bs) = cbor_head 2 (length bs) @ map unat bs"
| "enc (CText s) = cbor_head 3 (length s) @ map of_char s"
| "enc (CArray xs) = cbor_head 4 (length xs) @ concat (map enc xs)"
| "enc (CMap kvs) = cbor_head 5 (length kvs) @ concat (map (\<lambda>(k, v). enc k @ enc v) kvs)"
| "enc (CBool b) = [if b then 0xf5 else 0xf4]"

definition key_less :: "cbor \<Rightarrow> cbor \<Rightarrow> bool" where
  "key_less a b =
     (hd (enc a) div 32 < hd (enc b) div 32 \<or>
      hd (enc a) div 32 = hd (enc b) div 32 \<and>
        (length (enc a) < length (enc b) \<or>
         length (enc a) = length (enc b) \<and> lexordp (<) (enc a) (enc b)))"

fun canonical :: "cbor \<Rightarrow> bool" where
  "canonical (CArray xs) = list_all canonical xs"
| "canonical (CMap kvs) =
     (sorted_wrt key_less (map fst kvs) \<and> list_all (\<lambda>(k, v). canonical k \<and> canonical v) kvs)"
| "canonical _ = True"

text \<open>Looking a key up in a CBOR map.\<close>

fun cbor_get :: "cbor \<Rightarrow> cbor \<Rightarrow> cbor option" where
  "cbor_get (CMap kvs) k = map_of kvs k"
| "cbor_get _ k = None"

text \<open>\<open>8-4-4-4-12\<close>, the text form of a UUID.\<close>

definition uuid_text :: "bytes \<Rightarrow> string" where
  "uuid_text bs =
     (let hex = (\<lambda>i n. concat (map (\<lambda>b. hex_digits False 2 (unat b)) (take n (drop i bs))))
      in join ''-'' [hex 0 4, hex 4 2, hex 6 2, hex 8 2, hex 10 6])"


end
