(* ===== verification/Registration.thy ===== *)
theory Registration
  imports Reconcile Authenticator_Info
begin

text \<open>
  \<open>cmd_register\<close> and \<open>cmd_unregister\<close> of \<open>com/exe_server.rs\<close>: telling Windows about the provider.
  Both initialise COM on the thread and uninitialise it on every way out, through a guard that
  is dropped when the function returns.
\<close>

subsection \<open>The code\<close>

definition AUTHENTICATOR_DISPLAY_NAME :: string where
  "AUTHENTICATOR_DISPLAY_NAME = ''KeePassKeyWin''"

definition PLUGIN_RP_ID :: string where
  "PLUGIN_RP_ID = ''keepasskeywin.local''"

definition THEME_LOGO_SVG_B64 :: string where
  "THEME_LOGO_SVG_B64 =
     ''PHN2ZyB4bWxucz0iaHR0cDovL3d3dy53My5vcmcvMjAwMC9zdmciIHdpZHRoPSIxNiIgaGVpZ2h0PSIxNiIvPg==''"

definition to_utf16_null :: "string \<Rightarrow> utf16" where
  "to_utf16_null s = encode_utf16 s @ [0]"

definition co_initialize :: "env \<Rightarrow> hresult m" where
  "co_initialize env = ask (oe_co_init (os env)) (\<lambda>r. Com (CoInitializeEx r))"

text \<open>\<open>ComUninitGuard\<close>: the body, then the drop of the guard, whatever the body returned.\<close>

definition with_co_guard :: "'a m \<Rightarrow> 'a m" where
  "with_co_guard body = do { r \<leftarrow> body; emit (Com CoUninitialize); ret r }"

definition register_options :: "env \<Rightarrow> WebauthnPluginAddAuthenticatorOptions" where
  "register_options env =
     (let name_w = to_utf16_null AUTHENTICATOR_DISPLAY_NAME;
          rp_id_w = to_utf16_null PLUGIN_RP_ID;
          logo_w = to_utf16_null THEME_LOGO_SVG_B64;
          info = authenticator_get_info_cbor env
      in \<lparr>pwsz_authenticator_name = name_w, rclsid = CLSID_GUID, pwsz_plugin_rp_id = rp_id_w,
          pwsz_light_theme_logo_svg = logo_w, pwsz_dark_theme_logo_svg = logo_w,
          cb_authenticator_info = of_nat (length info), pb_authenticator_info = info,
          c_supported_rp_ids = 0, ppwsz_supported_rp_ids = None\<rparr>)"

text \<open>One addition: the response is freed before the result is looked at.\<close>

definition add_once :: "env \<Rightarrow> WebauthnPluginAddAuthenticatorOptions \<Rightarrow> (string + hresult) m" where
  "add_once env opts = do {
     r \<leftarrow> add_authenticator env opts;
     (case r of
        Err e \<Rightarrow> ret (Err e)
      | Ok (hr, response) \<Rightarrow> do {
          free_add_authenticator_response env response;
          ret (Ok hr)
        })
   }"

definition registered :: "(string + unit) m" where
  "registered = do {
     emit (Stdout ''KeePassKeyWin registered as a passkey provider.'');
     ret (Ok ())
   }"

definition register_body :: "env \<Rightarrow> (string + unit) m" where
  "register_body env = do {
     let opts = register_options env;
     _ \<leftarrow> resolved_add_symbol_name env;
     r \<leftarrow> add_once env opts;
     (case r of
        Err e \<Rightarrow> ret (Err e)
      | Ok hr \<Rightarrow>
          if hr = HR_NTE_EXISTS then do {
            _ \<leftarrow> remove_authenticator env CLSID_GUID;
            retry \<leftarrow> add_once env opts;
            (case retry of
               Err e \<Rightarrow> ret (Err e)
             | Ok hr_retry \<Rightarrow>
                 if hr_is_err hr_retry
                 then ret (Err (''WebAuthNPluginAddAuthenticator failed after remove+retry: 0x'' @
                        hex08 hr_retry))
                 else registered)
          }
          else if hr_is_err hr
          then ret (Err (''WebAuthNPluginAddAuthenticator failed: 0x'' @ hex08 hr))
          else registered)
   }"

definition cmd_register :: "env \<Rightarrow> (string + unit) m" where
  "cmd_register env = do {
     co_init_hr \<leftarrow> co_initialize env;
     (if hr_is_err co_init_hr
      then ret (Err (''CoInitializeEx(STA) failed: 0x'' @ hex08 co_init_hr))
      else with_co_guard (register_body env))
   }"

definition unregister_body :: "env \<Rightarrow> (string + unit) m" where
  "unregister_body env = do {
     r \<leftarrow> remove_authenticator env CLSID_GUID;
     (case r of
        Err e \<Rightarrow> ret (Err e)
      | Ok hr \<Rightarrow>
          if hr = 0 then do {
            emit (Stdout ''KeePassKeyWin unregistered.'');
            ret (Ok ())
          }
          else if hr = HR_NOT_FOUND \<or> hr = HR_FILE_NOT_FOUND then ret (Ok ())
          else ret (Err (''EXPERIMENTAL_WebAuthNPluginRemoveAuthenticator failed: 0x'' @ hex08 hr)))
   }"

definition cmd_unregister :: "env \<Rightarrow> (string + unit) m" where
  "cmd_unregister env = do {
     co_init_hr \<leftarrow> co_initialize env;
     (if hr_is_err co_init_hr
      then ret (Err (''CoInitializeEx(STA) failed: 0x'' @ hex08 co_init_hr))
      else with_co_guard (unregister_body env))
   }"

subsection \<open>The calls of a registration\<close>

fun is_reg_call :: "event \<Rightarrow> bool" where
  "is_reg_call (Dll (AddAuthenticator _ _ _)) = True"
| "is_reg_call (Dll (RemoveAuthenticator _ _ _)) = True"
| "is_reg_call (Dll (FreeAddResponse _)) = True"
| "is_reg_call (Com (CoInitializeEx _)) = True"
| "is_reg_call (Com CoUninitialize) = True"
| "is_reg_call (Stdout _) = True"
| "is_reg_call _ = False"

lemma bindings_reg: "run_state (bindings env) s = (r, t) \<Longrightarrow> evs is_reg_call t = evs is_reg_call s"
proof -
  have "is_load e \<Longrightarrow> \<not> is_reg_call e" for e by (cases e rule: is_load.cases) auto
  then have "keeps (evs is_reg_call) (bindings env)" by (rule emits_only_evs [OF bindings_only])
  then show "run_state (bindings env) s = (r, t) \<Longrightarrow> evs is_reg_call t = evs is_reg_call s"
    by (rule keepsD)
qed

text \<open>An addition with its answer, and the release of what it returned.\<close>

definition add_calls ::
  "string \<Rightarrow> WebauthnPluginAddAuthenticatorOptions \<Rightarrow> hresult \<Rightarrow> nat option \<Rightarrow> event list" where
  "add_calls f opts hr p =
     Dll (AddAuthenticator f opts (hr, p)) #
       (case p of None \<Rightarrow> [] | Some q \<Rightarrow> [Dll (FreeAddResponse q)])"

lemma add_once_run:
  assumes "uv_cache s = Some (Ok b)"
  shows "\<exists>hr p. run_state (add_once env opts) s =
    (Ok hr, s\<lparr>trace := trace s @ add_calls (wb_add b) opts hr p\<rparr>)"
proof -
  obtain hr p where ans: "de_add_authenticator (dll env) (trace s) opts = (hr, p)" by fastforce
  have "run_state (add_once env opts) s = (Ok hr, s\<lparr>trace := trace s @ add_calls (wb_add b) opts hr p\<rparr>)"
    using assms ans
    by (auto simp: add_once_def add_authenticator_def free_add_authenticator_response_def
        bindings_cached add_calls_def split: option.splits)
  then show ?thesis by blast
qed

lemma add_once_error:
  "uv_cache s = Some (Err e) \<Longrightarrow> run_state (add_once env opts) s = (Err e, s)"
  by (simp add: add_once_def add_authenticator_def bindings_cached)

lemma remove_run:
  "uv_cache s = Some (Ok b) \<Longrightarrow> \<exists>hr. run_state (remove_authenticator env g) s =
     (Ok hr, s\<lparr>trace := trace s @ [Dll (RemoveAuthenticator (wb_remove b) g hr)]\<rparr>)"
  by (simp add: remove_authenticator_def bindings_cached)

text \<open>The ways a registration can go: its calls and what it returns.\<close>

inductive registration ::
  "WebauthnPluginAddAuthenticatorOptions \<Rightarrow> event list \<Rightarrow> string + unit \<Rightarrow> bool" for opts where
  unavailable: "registration opts [] (Err e)"
| first_ok:
    "\<not> hr_is_err hr \<Longrightarrow>
     registration opts (add_calls f opts hr p @
       [Stdout ''KeePassKeyWin registered as a passkey provider.'']) (Ok ())"
| first_failed:
    "hr_is_err hr \<Longrightarrow> hr \<noteq> HR_NTE_EXISTS \<Longrightarrow>
     registration opts (add_calls f opts hr p)
       (Err (''WebAuthNPluginAddAuthenticator failed: 0x'' @ hex08 hr))"
| refreshed:
    "\<not> hr_is_err hr \<Longrightarrow>
     registration opts (add_calls f opts HR_NTE_EXISTS p @
       [Dll (RemoveAuthenticator g CLSID_GUID hr1)] @ add_calls f opts hr q @
       [Stdout ''KeePassKeyWin registered as a passkey provider.'']) (Ok ())"
| refresh_failed:
    "hr_is_err hr \<Longrightarrow>
     registration opts (add_calls f opts HR_NTE_EXISTS p @
       [Dll (RemoveAuthenticator g CLSID_GUID hr1)] @ add_calls f opts hr q)
       (Err (''WebAuthNPluginAddAuthenticator failed after remove+retry: 0x'' @ hex08 hr))"

inductive_cases registration_OkE: "registration opts es (Ok u)"

lemma symbol_bindings:
  "run_state (resolved_add_symbol_name env) s = (x, t) \<Longrightarrow>
   \<exists>r. uv_cache t = Some r \<and> evs is_reg_call t = evs is_reg_call s"
  by (auto simp: resolved_add_symbol_name_def split: prod.splits
      dest: bindings_filled bindings_reg)

lemma filter_add_calls [simp]: "filter is_reg_call (add_calls f opts hr p) = add_calls f opts hr p"
  by (simp add: add_calls_def split: option.split)

text \<open>The second half of a registration, after the provider was found registered.\<close>

lemma refresh_run:
  assumes bound: "uv_cache s = Some (Ok b)"
  obtains hr1 hr2 q t where
    "run_state (remove_authenticator env CLSID_GUID) s =
       (Ok hr1, s\<lparr>trace := trace s @ [Dll (RemoveAuthenticator (wb_remove b) CLSID_GUID hr1)]\<rparr>)"
    "run_state (add_once env opts)
         (s\<lparr>trace := trace s @ [Dll (RemoveAuthenticator (wb_remove b) CLSID_GUID hr1)]\<rparr>) = (Ok hr2, t)"
    "t = s\<lparr>trace := trace s @ Dll (RemoveAuthenticator (wb_remove b) CLSID_GUID hr1) #
       add_calls (wb_add b) opts hr2 q\<rparr>"
proof -
  obtain hr1 where rem: "run_state (remove_authenticator env CLSID_GUID) s =
      (Ok hr1, s\<lparr>trace := trace s @ [Dll (RemoveAuthenticator (wb_remove b) CLSID_GUID hr1)]\<rparr>)"
    using remove_run [of s b] bound by auto
  let ?s = "s\<lparr>trace := trace s @ [Dll (RemoveAuthenticator (wb_remove b) CLSID_GUID hr1)]\<rparr>"
  have "uv_cache ?s = Some (Ok b)" using bound by simp
  from add_once_run [OF this, of env opts] obtain hr2 q where
    "run_state (add_once env opts) ?s = (Ok hr2, ?s\<lparr>trace := trace ?s @ add_calls (wb_add b) opts hr2 q\<rparr>)"
    by blast
  then show thesis by (intro that [OF rem]) simp_all
qed

lemma register_body_run:
  "\<exists>r t es. run_state (register_body env) s = (r, t) \<and>
     evs is_reg_call t = evs is_reg_call s @ es \<and> registration (register_options env) es r"
proof -
  let ?opts = "register_options env"
  obtain x s1 where s1: "run_state (resolved_add_symbol_name env) s = (x, s1)" by fastforce
  obtain c where c: "uv_cache s1 = Some c" and evs1: "evs is_reg_call s1 = evs is_reg_call s"
    using symbol_bindings [OF s1] by blast
  show ?thesis
  proof (cases c)
    case (Inl e)
    with s1 c have "run_state (register_body env) s = (Err e, s1)"
      by (simp add: register_body_def Let_def add_once_error)
    with evs1 show ?thesis by (auto intro: registration.unavailable)
  next
    case (Inr b)
    with c have bound: "uv_cache s1 = Some (Ok b)" by simp
    obtain hr p where add: "run_state (add_once env ?opts) s1 =
        (Ok hr, s1\<lparr>trace := trace s1 @ add_calls (wb_add b) ?opts hr p\<rparr>)"
      using add_once_run [OF bound] by blast
    let ?s2 = "s1\<lparr>trace := trace s1 @ add_calls (wb_add b) ?opts hr p\<rparr>"
    show ?thesis
    proof (cases "hr = HR_NTE_EXISTS")
      case False
      with s1 add evs1 registration.first_failed [OF _ False, of ?opts "wb_add b" p]
        registration.first_ok [of hr ?opts "wb_add b" p]
      show ?thesis by (auto simp: register_body_def Let_def registered_def evs_def)
    next
      case True
      have "uv_cache ?s2 = Some (Ok b)" using bound by simp
      then obtain hr1 hr2 q t where again:
          "run_state (remove_authenticator env CLSID_GUID) ?s2 =
             (Ok hr1, ?s2\<lparr>trace := trace ?s2 @ [Dll (RemoveAuthenticator (wb_remove b) CLSID_GUID hr1)]\<rparr>)"
          "run_state (add_once env ?opts)
             (?s2\<lparr>trace := trace ?s2 @ [Dll (RemoveAuthenticator (wb_remove b) CLSID_GUID hr1)]\<rparr>) = (Ok hr2, t)"
          "t = ?s2\<lparr>trace := trace ?s2 @ Dll (RemoveAuthenticator (wb_remove b) CLSID_GUID hr1) #
             add_calls (wb_add b) ?opts hr2 q\<rparr>"
        by (rule refresh_run)
      have run: "run_state (register_body env) s =
          (if hr_is_err hr2
           then (Err (''WebAuthNPluginAddAuthenticator failed after remove+retry: 0x'' @ hex08 hr2), t)
           else run_state registered t)"
        using s1 add again(1,2) True by (simp add: register_body_def Let_def)
      show ?thesis
        unfolding run using True evs1 registration.refresh_failed [of hr2 ?opts "wb_add b" p "wb_remove b" hr1 q]
          registration.refreshed [of hr2 ?opts "wb_add b" p "wb_remove b" hr1 q]
        by (auto simp: again(3) registered_def evs_def)
    qed
  qed
qed


text \<open>
  C32. Unregistering is idempotent as far as the API allows: with COM initialised it makes at most
  one call, and it succeeds exactly when that call removed the registration or said, in one of
  the two known ways, that there was none; only a removal is announced. COM is uninitialised
  last on every way out.
\<close>

theorem unregister_idempotent:
  "case run_state (cmd_unregister env) s of
     (r, t) \<Rightarrow>
       \<exists>hr es. evs is_reg_call t = evs is_reg_call s @ Com (CoInitializeEx hr) # es \<and>
         (if hr_is_err hr then es = [] \<and> \<not> is_ok r
          else (es = [Com CoUninitialize] \<and> \<not> is_ok r) \<or>
            (\<exists>f code out. es = Dll (RemoveAuthenticator f CLSID_GUID code) # out @ [Com CoUninitialize] \<and>
               (is_ok r \<longleftrightarrow> code = 0 \<or> code = HR_NOT_FOUND \<or> code = HR_FILE_NOT_FOUND) \<and>
               out = (if code = 0 then [Stdout ''KeePassKeyWin unregistered.''] else [])))"
proof -
  define hr where "hr = oe_co_init (os env) (trace s)"
  let ?s = "s\<lparr>trace := trace s @ [Com (CoInitializeEx hr)]\<rparr>"
  show ?thesis
  proof (cases "hr_is_err hr")
    case True
    then show ?thesis by (simp add: cmd_unregister_def co_initialize_def hr_def evs_def)
  next
    case False
    obtain c s1 where b: "run_state (bindings env) ?s = (c, s1)" by fastforce
    from bindings_reg [OF b] have evs1: "evs is_reg_call s1 = evs is_reg_call ?s" .
    show ?thesis
    proof (cases c)
      case (Inl e)
      with False b evs1 show ?thesis
        by (auto simp: cmd_unregister_def co_initialize_def hr_def [symmetric] with_co_guard_def
            unregister_body_def remove_authenticator_def evs_def)
    next
      case (Inr b')
      define code where "code = de_remove_authenticator (dll env) (trace s1) CLSID_GUID"
      let ?out = "if code = 0 then [Stdout ''KeePassKeyWin unregistered.''] else []"
      obtain r t where run: "run_state (cmd_unregister env) s = (r, t)" by fastforce
      have "is_ok r \<longleftrightarrow> code = 0 \<or> code = HR_NOT_FOUND \<or> code = HR_FILE_NOT_FOUND"
        "evs is_reg_call t = evs is_reg_call s @ Com (CoInitializeEx hr) #
           Dll (RemoveAuthenticator (wb_remove b') CLSID_GUID code) # ?out @ [Com CoUninitialize]"
        using run False b evs1 Inr
        by (auto simp: cmd_unregister_def co_initialize_def hr_def [symmetric] with_co_guard_def
            unregister_body_def remove_authenticator_def code_def evs_def split: if_splits)
      with run False show ?thesis by (auto intro!: exI [of _ hr] exI [of _ code])
    qed
  qed
qed

end
