(* ===== verification/Log_Filter.thy ===== *)
theory Log_Filter
  imports World
begin

text \<open>
  \<open>log_filter.rs\<close>: the comma-separated log directives of the environment variable, split into
  those that \<open>tracing_subscriber\<close> accepts, joined again, and a warning for each that it
  rejects. The parser of one directive is a parameter of the model.
\<close>

record LogFilterParse =
  good_directives :: string
  warnings :: "string list"

abbreviation "COMMA \<equiv> CHR '',''"

definition parts :: "string \<Rightarrow> string list" where
  "parts raw = filter (\<lambda>s. s \<noteq> []) (map trim (split_on COMMA raw))"

definition warning :: "env \<Rightarrow> string \<Rightarrow> string \<Rightarrow> string \<Rightarrow> string" where
  "warning env env_var_name part e =
     env_var_name @ '': rejected directive '' @ debug_str (escaped_debug (lib env)) part @ '': '' @ e"

fun partition_parts ::
  "env \<Rightarrow> string \<Rightarrow> string list \<Rightarrow> string list \<Rightarrow> string list \<Rightarrow> string list \<times> string list" where
  "partition_parts env v [] good ws = (good, ws)"
| "partition_parts env v (part # ps) good ws =
     (case directive_error (lib env) part of
        None \<Rightarrow> partition_parts env v ps (good @ [part]) ws
      | Some e \<Rightarrow> partition_parts env v ps good (ws @ [warning env v part e]))"

definition parse :: "env \<Rightarrow> string \<Rightarrow> string \<Rightarrow> LogFilterParse" where
  "parse env raw env_var_name =
     (case partition_parts env env_var_name (parts raw) [] [] of
        (good, ws) \<Rightarrow> \<lparr>good_directives = join [COMMA] good, warnings = ws\<rparr>)"

subsection \<open>The partition\<close>

definition accepted :: "env \<Rightarrow> string \<Rightarrow> bool" where
  "accepted env part = (directive_error (lib env) part = None)"

lemma partition_parts_run:
  "partition_parts env v ps good ws =
     (good @ filter (accepted env) ps,
      ws @ map (\<lambda>p. warning env v p (the (directive_error (lib env) p)))
             (filter (\<lambda>p. \<not> accepted env p) ps))"
  by (induction ps arbitrary: good ws) (auto simp: accepted_def split: option.splits)

lemma parse_run:
  "good_directives (parse env raw v) = join [COMMA] (filter (accepted env) (parts raw))"
  "warnings (parse env raw v) =
     map (\<lambda>p. warning env v p (the (directive_error (lib env) p)))
       (filter (\<lambda>p. \<not> accepted env p) (parts raw))"
  by (simp_all add: parse_def partition_parts_run)

lemma comma_char: "COMMA = char_of (44::nat)"
  by (simp add: char_of_def bit_Suc_0_iff)

lemma parts_wf:
  assumes "is_str raw" and "p \<in> set (parts raw)"
  shows "is_str p \<and> p \<noteq> [] \<and> COMMA \<notin> set p \<and> trim p = p"
proof -
  obtain q where q: "q \<in> set (split_on COMMA raw)" "p = trim q" "p \<noteq> []"
    using assms(2) by (auto simp: parts_def)
  have str: "is_str q" using split_on_is_str [of raw q 44] assms(1) q(1) by (simp add: comma_char)
  have "COMMA \<notin> set q" using split_on_no_sep [OF q(1)] .
  then have "COMMA \<notin> set (trim q)" using trim_no_char [OF str, of 44] by (simp add: comma_char)
  with str q show ?thesis by simp
qed

lemma parts_join:
  assumes "\<forall>p\<in>set ps. p \<noteq> [] \<and> COMMA \<notin> set p \<and> trim p = p"
  shows "parts (join [COMMA] ps) = ps"
proof (cases "ps = []")
  case True
  then show ?thesis by (simp add: parts_def trim_def chars_def strip_ws_def str_of_def)
next
  case False
  with assms have "split_on COMMA (join [COMMA] ps) = ps" by (intro split_on_join) auto
  moreover have "map trim ps = ps" using assms by (intro map_idI) auto
  moreover have "filter (\<lambda>s. s \<noteq> []) ps = ps" using assms by (auto simp: filter_id_conv)
  ultimately show ?thesis by (simp add: parts_def)
qed


text \<open>An environment that rejects one directive.\<close>

definition picky_env :: env where
  "picky_env = sample_env\<lparr>lib := (lib sample_env)
     \<lparr>directive_error := (\<lambda>d. if d = ''a=x'' then Some ''invalid'' else None)\<rparr>\<rparr>"

lemma picky_parts: "parts '' a=x,,info'' = [''a=x'', ''info'']"
  by (simp add: parts_def trim_def chars_ascii is_ascii_def strip_ws_def is_whitespace_def
      str_of_def utf8_char_def char_of_def bit_Suc_0_iff)

lemma picky_accepted: "accepted picky_env d \<longleftrightarrow> d \<noteq> ''a=x''"
  by (simp add: accepted_def picky_env_def)


end
