(* ===== verification/Cli.thy ===== *)
theory Cli
  imports Registration Log_Filter
begin

text \<open>
  \<open>main.rs\<close>: the entry point. \<open>init_tracing\<close> decides where log lines go, \<open>main\<close> picks the
  subcommand and ends the process with its exit code, \<open>smoke\<close> and \<open>make-credential\<close> drive the
  pipe from the command line. A program that can end the process early, by
  \<open>process::exit\<close> or by a panic, returns an option, \<open>None\<close> when it did; an \<open>ExitProcess\<close> event
  tells the two apart. The command line is the argument \<open>args\<close>, the program name included.
\<close>

subsection \<open>Subcommands\<close>

datatype Subcommand = PluginActivated | Register | Unregister | Smoke | MakeCredential | Unknown

definition parse_subcommand :: "string \<Rightarrow> Subcommand" where
  "parse_subcommand s =
     (if s = ''-PluginActivated'' then PluginActivated
      else if s = ''register'' then Register
      else if s = ''unregister'' then Unregister
      else if s = ''smoke'' then Smoke
      else if s = ''make-credential'' then MakeCredential
      else Unknown)"

definition PKG_FAMILY :: string where
  "PKG_FAMILY = ''KeePassKeyWin.Provider_4fv17arhjxxvg''"

subsection \<open>Tracing\<close>

definition KKW_LOG_LEVEL_ENV :: string where
  "KKW_LOG_LEVEL_ENV = ''KEEPASSKEYWIN_LOG_LEVEL''"

datatype FileRouteOutcome =
    NotRequested
  | Active string
  | FailedOpen string string
  | SubscriberAlreadyInstalled "string option"

text \<open>\<open>fmt()...try_init()\<close> with the filter built from the accepted directives.\<close>

definition try_init :: "env \<Rightarrow> log_sink \<Rightarrow> string \<Rightarrow> bool m" where
  "try_init env sink directives =
     ask (oe_install (os env)) (\<lambda>ok. Cli (InstallSubscriber sink directives ok))"

definition open_route :: "env \<Rightarrow> string \<Rightarrow> FileRouteOutcome m" where
  "open_route env directives =
     (case oe_var (os env) ''KEEPASSKEYWIN_LOG_FILE'' of
        Some path \<Rightarrow>
          if trim path \<noteq> [] then do {
            opened \<leftarrow> ask (\<lambda>h. oe_open_log (os env) h path) (\<lambda>r. Cli (OpenLogFile path r));
            (case opened of
               None \<Rightarrow> do {
                 ok \<leftarrow> try_init env (LogToFile path) directives;
                 ret (if ok then Active path else SubscriberAlreadyInstalled (Some path))
               }
             | Some e \<Rightarrow> do {
                 ok \<leftarrow> try_init env LogToStderr directives;
                 ret (if ok then FailedOpen path (io_error_text e)
                      else SubscriberAlreadyInstalled (Some path))
               })
          } else do {
            ok \<leftarrow> try_init env LogToStderr directives;
            ret (if ok then NotRequested else SubscriberAlreadyInstalled None)
          }
      | None \<Rightarrow> do {
          ok \<leftarrow> try_init env LogToStderr directives;
          ret (if ok then NotRequested else SubscriberAlreadyInstalled None)
        })"

definition debug_path :: "env \<Rightarrow> string option \<Rightarrow> string" where
  "debug_path env p =
     (case p of
        None \<Rightarrow> ''None''
      | Some s \<Rightarrow> ''Some('' @ debug_str (escaped_debug (lib env)) s @ '')'')"

fun outcome_lines :: "env \<Rightarrow> FileRouteOutcome \<Rightarrow> string list" where
  "outcome_lines env (Active path) =
     [''[trace] file logging enabled '' @ em_dash @ '' KEEPASSKEYWIN_LOG_FILE='' @ path]"
| "outcome_lines env (FailedOpen path error) =
     [''[trace] failed to open KEEPASSKEYWIN_LOG_FILE='' @ path @ '': '' @ error @ '' '' @ em_dash @
      '' falling back to stderr (closed handle under windows_subsystem=windows)'']"
| "outcome_lines env (SubscriberAlreadyInstalled p) =
     [''[trace] tracing subscriber was already installed; init_tracing is a no-op. '' @
      ''Intended file path: '' @ debug_path env p @ ''. Existing subscriber stays in effect.'']"
| "outcome_lines env NotRequested = []"

fun log_lines :: "string list \<Rightarrow> unit m" where
  "log_lines [] = ret ()"
| "log_lines (l # ls) = do { emit (Cli (LogLine l)); log_lines ls }"

definition init_tracing :: "env \<Rightarrow> unit m" where
  "init_tracing env = do {
     let raw = (case oe_var (os env) KKW_LOG_LEVEL_ENV of Some v \<Rightarrow> v | None \<Rightarrow> []);
     let parsed = parse env raw KKW_LOG_LEVEL_ENV;
     outcome \<leftarrow> open_route env (good_directives parsed);
     log_lines (outcome_lines env outcome);
     log_lines (warnings parsed)
   }"

subsection \<open>Arguments\<close>

fun flag :: "string list \<Rightarrow> string \<Rightarrow> string option" where
  "flag (a # b # rest) name = (if a = name then Some b else flag (b # rest) name)"
| "flag _ name = None"

text \<open>\<open>&buf[..len]\<close> panics when the reported size exceeds the buffer of 256 code units.\<close>

definition read_nonce_from_registry :: "env \<Rightarrow> string option option m" where
  "read_nonce_from_registry env = do {
     rc \<leftarrow> ask (oe_reg_open (os env)) (\<lambda>r. Cli (RegOpenKey r));
     (if rc \<noteq> 0 then ret (Some None)
      else do {
        r \<leftarrow> ask (oe_reg_sz (os env)) (\<lambda>r. Cli (RegGetSz r));
        emit (Cli RegCloseKey);
        (if rr_status r \<noteq> 0 then ret (Some None)
         else
           let buf = take 256 (rr_data r @ replicate 256 0);
               len = unat (rr_cb r) div 2 - 1
           in (if length buf < len then ret None
               else ret (Some (Some (from_utf16_lossy (take len buf))))))
      })
   }"

definition exit_process :: "int \<Rightarrow> 'a option m" where
  "exit_process code = do { emit (Com (ExitProcess code)); ret None }"

definition parse_session_nonce :: "env \<Rightarrow> string list \<Rightarrow> (u32 \<times> string) option m" where
  "parse_session_nonce env args =
     (let sid = (case flag args ''--session'' of
                   None \<Rightarrow> 1
                 | Some s \<Rightarrow> (case parse_u32 s of None \<Rightarrow> 1 | Some n \<Rightarrow> n))
      in (case flag args ''--nonce'' of
            Some nonce \<Rightarrow> ret (Some (sid, nonce))
          | None \<Rightarrow>
              or_abort (read_nonce_from_registry env) (\<lambda>r.
                (case r of
                   Some nonce \<Rightarrow> ret (Some (sid, nonce))
                 | None \<Rightarrow> do {
                     emit (Stderr ''ERROR: --nonce required (registry read failed)'');
                     exit_process 1
                   }))))"

subsection \<open>Driving the pipe\<close>

definition base64_encode :: "env \<Rightarrow> bytes \<Rightarrow> string" where
  "base64_encode env data = b64_encode (lib env) data"

definition base64_decode :: "env \<Rightarrow> string \<Rightarrow> bytes" where
  "base64_decode env s = (case b64_decode (lib env) s of Some bs \<Rightarrow> bs | None \<Rightarrow> [])"

definition sha2_hash :: "env \<Rightarrow> bytes \<Rightarrow> bytes" where
  "sha2_hash env data = sha256 (lib env) data"

definition as_bytes :: "string \<Rightarrow> bytes" where
  "as_bytes s = map (\<lambda>c. of_nat (of_char c)) s"

definition rp_id_hash :: "env \<Rightarrow> string \<Rightarrow> bytes" where
  "rp_id_hash env rp = sha256 (lib env) (as_bytes rp)"

text \<open>\<open>.map_err(|e| format!("<what> failed: {e}"))?\<close>, dropping the client on the way out.\<close>

definition failed :: "string \<Rightarrow> ClientError \<Rightarrow> string" where
  "failed what e = what @ '' failed: '' @ client_error_display e"

definition try_step ::
  "string \<Rightarrow> (ClientError + 'r) \<times> PipeClient \<Rightarrow>
   ('r \<Rightarrow> PipeClient \<Rightarrow> (string + unit) option m) \<Rightarrow> (string + unit) option m" where
  "try_step what r k =
     (case r of
        (Err e, client) \<Rightarrow> do { drop_client client; ret (Some (Err (failed what e))) }
      | (Ok x, client) \<Rightarrow> k x client)"

definition say :: "string \<Rightarrow> string \<Rightarrow> unit m" where
  "say tag text = emit (Stderr (''['' @ tag @ ''] '' @ text))"

definition connecting :: "string \<Rightarrow> u32 \<Rightarrow> unit m" where
  "connecting tag sid =
     say tag (''Connecting to pipe KeePassKeyWin.'' @ show_nat (unat sid) @ ''...'')"

definition smoke_session :: "env \<Rightarrow> u32 \<Rightarrow> string \<Rightarrow> (string + unit) option m" where
  "smoke_session env sid nonce = do {
     connecting ''smoke'' sid;
     r \<leftarrow> connect env sid;
     (case r of
        Err e \<Rightarrow> ret (Some (Err (failed ''connect'' e)))
      | Ok client \<Rightarrow> do {
          say ''smoke'' ''Connected. Performing handshake...'';
          pub_key \<leftarrow> get_op_sign_pub_key_bytes_for_hello env;
          r \<leftarrow> handshake env client PKG_FAMILY nonce pub_key;
          try_step ''handshake'' r (\<lambda>_ client. do {
            say ''smoke'' ''Handshake OK. Plugin is live.'';
            drop_client client;
            ret (Some (Ok ()))
          })
        })
   }"

definition cmd_smoke :: "env \<Rightarrow> string list \<Rightarrow> (string + unit) option m" where
  "cmd_smoke env args =
     or_abort (parse_session_nonce env args) (\<lambda>(sid, nonce). smoke_session env sid nonce)"

definition flag_or :: "string list \<Rightarrow> string \<Rightarrow> string \<Rightarrow> string" where
  "flag_or args name fallback = (case flag args name of Some v \<Rightarrow> v | None \<Rightarrow> fallback)"

definition check_rp_id_hash :: "env \<Rightarrow> string \<Rightarrow> bytes \<Rightarrow> unit m" where
  "check_rp_id_hash env rp auth_data =
     (if 32 \<le> length auth_data then
        (if take 32 auth_data = rp_id_hash env rp
         then say ''make-credential'' ''rpIdHash in authData: OK''
         else say ''make-credential'' ''WARNING: rpIdHash mismatch in authData'')
      else ret ())"

definition client_data :: string where
  "client_data =
     ''{'' @ [CHR 0x22] @ ''type'' @ [CHR 0x22] @ '':'' @ [CHR 0x22] @ ''webauthn.get'' @ [CHR 0x22] @
     '','' @ [CHR 0x22] @ ''challenge'' @ [CHR 0x22] @ '':'' @ [CHR 0x22] @ ''dGVzdA'' @ [CHR 0x22] @
     ''}''"

definition test_create_params :: "env \<Rightarrow> string \<Rightarrow> string \<Rightarrow> json" where
  "test_create_params env rp usr = create_passkey_json
     \<lparr>rp_id = rp, rp_name = rp, user_handle = base64_encode env (as_bytes ''test-user-handle''),
      user_name = usr, user_display_name = usr\<rparr>"

definition test_sign_params :: "env \<Rightarrow> string \<Rightarrow> json" where
  "test_sign_params env cid = sign_assertion_json
     \<lparr>sap_credential_id = cid, sap_auth_data = base64_encode env (replicate 37 0),
      sap_client_data_hash = base64_encode env (sha2_hash env (as_bytes client_data))\<rparr>"

text \<open>The four calls on an established session.\<close>

definition exercise :: "env \<Rightarrow> string \<Rightarrow> string \<Rightarrow> PipeClient \<Rightarrow> (string + unit) option m" where
  "exercise env rp usr client = do {
     r \<leftarrow> call env (from_create_passkey (lib env)) client ''keepasskeywin.createPasskey''
       (test_create_params env rp usr);
     try_step ''createPasskey'' r (\<lambda>result client. do {
       say ''make-credential'' (''Created credential: '' @ cpr_credential_id result);
       check_rp_id_hash env rp (base64_decode env (cpr_auth_data result));
       r \<leftarrow> call env (from_credentials (lib env)) client ''keepasskeywin.listCredentials''
         (list_credentials_json \<lparr>lcp_rp_id = rp\<rparr>);
       try_step ''listCredentials'' r (\<lambda>creds client. do {
         say ''make-credential''
           (''listCredentials returned '' @ show_nat (length creds) @ '' entry/entries'');
         r \<leftarrow> call env (from_sign_assertion (lib env)) client ''keepasskeywin.signAssertion''
           (test_sign_params env (cpr_credential_id result));
         try_step ''signAssertion'' r (\<lambda>sig client. do {
           say ''make-credential''
             (''Signature ('' @ show_nat (length (base64_decode env (sar_signature sig))) @
              '' bytes): OK'');
           r \<leftarrow> call env (from_delete_credential (lib env)) client ''keepasskeywin.deleteCredential''
             (delete_credential_json \<lparr>dcp_credential_id = cpr_credential_id result\<rparr>);
           try_step ''deleteCredential'' r (\<lambda>del client. do {
             say ''make-credential''
               (''deleteCredential: deleted='' @ (if dcr_deleted del then ''true'' else ''false''));
             say ''make-credential'' ''All steps PASSED.'';
             drop_client client;
             ret (Some (Ok ()))
           })
         })
       })
     })
   }"

definition make_credential_session ::
  "env \<Rightarrow> string list \<Rightarrow> u32 \<Rightarrow> string \<Rightarrow> (string + unit) option m" where
  "make_credential_session env args sid nonce = do {
     let rp = flag_or args ''--rp-id'' ''example.com'';
     let usr = flag_or args ''--user'' ''user@example.com'';
     connecting ''make-credential'' sid;
     r \<leftarrow> connect env sid;
     (case r of
        Err e \<Rightarrow> ret (Some (Err (failed ''connect'' e)))
      | Ok client \<Rightarrow> do {
          pub_key \<leftarrow> get_op_sign_pub_key_bytes_for_hello env;
          r \<leftarrow> handshake env client PKG_FAMILY nonce pub_key;
          try_step ''handshake'' r (\<lambda>_ client. do {
            say ''make-credential'' ''Handshake OK.'';
            exercise env rp usr client
          })
        })
   }"

definition cmd_make_credential :: "env \<Rightarrow> string list \<Rightarrow> (string + unit) option m" where
  "cmd_make_credential env args =
     or_abort (parse_session_nonce env args)
       (\<lambda>(sid, nonce). make_credential_session env args sid nonce)"

subsection \<open>The entry point\<close>

definition run_register :: "env \<Rightarrow> int m" where
  "run_register env = do {
     r \<leftarrow> cmd_register env;
     (case r of
        Ok _ \<Rightarrow> ret 0
      | Err e \<Rightarrow> do { emit (Stderr (''register failed: '' @ e)); ret 1 })
   }"

definition run_unregister :: "env \<Rightarrow> int m" where
  "run_unregister env = do {
     r \<leftarrow> cmd_unregister env;
     (case r of
        Ok _ \<Rightarrow> ret 0
      | Err e \<Rightarrow> do { emit (Stderr (''unregister failed: '' @ e)); ret 1 })
   }"

definition run_blocking_async :: "env \<Rightarrow> (string + unit) option m \<Rightarrow> int option m" where
  "run_blocking_async env f = do {
     rt \<leftarrow> ask (oe_runtime (os env)) (\<lambda>r. Cli (NewRuntime r));
     (case rt of
        Some e \<Rightarrow> do {
          emit (Stderr (''tokio runtime init failed: '' @ io_error_text e));
          ret (Some 1)
        }
      | None \<Rightarrow> or_abort f (\<lambda>r.
          (case r of
             Ok _ \<Rightarrow> ret (Some 0)
           | Err e \<Rightarrow> do { emit (Stderr (''error: '' @ e)); ret (Some 1) })))
   }"

definition usage_lines :: "string list" where
  "usage_lines =
     [''Usage: keepasskeywin-provider <subcommand> [options]'',
      [],
      ''Subcommands:'',
      ''  -PluginActivated              Run as COM ExeServer (Windows-only; launched by the OS)'',
      ''  register                      Register KeePassKeyWin with Windows WebAuthn (Windows-only)'',
      ''  unregister                    Unregister KeePassKeyWin from Windows WebAuthn (Windows-only)'',
      ''  smoke     --session <id> --nonce <nonce>                  Handshake smoke test'',
      ''  make-credential --session <id> --nonce <nonce> --rp-id <x> --user <y>'',
      ''                                Full makeCredential IPC flow'']"

fun print_lines :: "string list \<Rightarrow> unit m" where
  "print_lines [] = ret ()"
| "print_lines (l # ls) = do { emit (Stderr l); print_lines ls }"

definition print_usage :: "unit m" where
  "print_usage = print_lines usage_lines"

text \<open>The exit code of a subcommand other than \<open>-PluginActivated\<close>.\<close>

fun run_subcommand :: "env \<Rightarrow> string list \<Rightarrow> Subcommand \<Rightarrow> int option m" where
  "run_subcommand env args Register = lift_m (run_register env)"
| "run_subcommand env args Unregister = lift_m (run_unregister env)"
| "run_subcommand env args Smoke = run_blocking_async env (cmd_smoke env args)"
| "run_subcommand env args MakeCredential = run_blocking_async env (cmd_make_credential env args)"
| "run_subcommand env args _ = do { print_usage; ret (Some 1) }"

definition subcommand_of :: "string list \<Rightarrow> Subcommand" where
  "subcommand_of args = parse_subcommand (case args of _ # s # _ \<Rightarrow> s | _ \<Rightarrow> [])"

definition finish :: "int option m \<Rightarrow> unit option m" where
  "finish code = or_abort code (\<lambda>c. exit_process c)"

text \<open>\<open>None\<close>: the COM server runs forever. Otherwise the final state of the process.\<close>

definition main :: "env \<Rightarrow> unit m \<Rightarrow> string list \<Rightarrow> proc \<Rightarrow> proc option" where
  "main env dispatch args s =
     (let s0 = snd (run_state (init_tracing env) s)
      in if subcommand_of args = PluginActivated
         then map_option snd (run_com_server env dispatch s0)
         else Some (snd (run_state (finish (run_subcommand env args (subcommand_of args))) s0)))"

subsection \<open>The connection is closed on every way out\<close>

lemma linked_emit: "not_pipe e \<Longrightarrow> ensures (linked h) (emit e) (\<lambda>_. linked h)"
  by (rule linked_not_pipe) (rule emits_only_emit)

lemma linked_say: "ensures (linked h) (say tag l) (\<lambda>_. linked h)"
  unfolding say_def by (rule linked_emit) simp

lemma linked_check: "ensures (linked h) (check_rp_id_hash env rp d) (\<lambda>_. linked h)"
  unfolding check_rp_id_hash_def by (auto intro: linked_say ensures_return)

abbreviation "on_client c \<equiv> linked (Some (transport c))"

text \<open>Called with the client whose handle is open; it is open for the continuation, or closed.\<close>

lemma linked_step:
  assumes m: "ensures (on_client c) m (\<lambda>(r, c') s. on_client c' s \<and> transport c' = transport c)"
    and k: "\<And>x c'. transport c' = transport c \<Longrightarrow> ensures (on_client c') (k x c') (\<lambda>_. linked None)"
  shows "ensures (on_client c) (do { r \<leftarrow> m; try_step what r k }) (\<lambda>_. linked None)"
proof (rule ensures_bind [OF m])
  fix r :: "(ClientError + 'a) \<times> PipeClient"
  obtain x c' where r: "r = (x, c')" by fastforce
  have "ensures (\<lambda>s. on_client c' s \<and> transport c' = transport c) (try_step what (x, c') k) (\<lambda>_. linked None)"
  proof (cases x)
    case (Inl e)
    show ?thesis
      unfolding Inl try_step_def prod.case sum.case
      by (rule linked_drop_return [where p = c']) auto
  next
    case (Inr y)
    show ?thesis
    proof (cases "transport c' = transport c")
      case True
      then show ?thesis using k [OF True] by (simp add: Inr try_step_def)
    next
      case False
      then show ?thesis by (simp add: ensures_def)
    qed
  qed
  then show "ensures ((case r of (r, c') \<Rightarrow> \<lambda>s. on_client c' s \<and> transport c' = transport c))
      (try_step what r k) (\<lambda>_. linked None)"
    by (simp add: r)
qed

lemma linked_say_then:
  "ensures (linked h) m Q \<Longrightarrow> ensures (linked h) (do { say tag l; m }) Q"
  by (rule ensures_bind [OF linked_say])

lemma linked_done: "ensures (on_client c) (do { drop_client c; ret x }) (\<lambda>_. linked None)"
  by (rule linked_drop_return [where p = c]) auto

lemma linked_exercise: "ensures (on_client c) (exercise env rp usr c) (\<lambda>_. linked None)"
  unfolding exercise_def
  by (intro linked_step [OF linked_call] linked_say_then ensures_bind [OF linked_check] linked_done)

lemma linked_connected:
  assumes "\<And>c. ensures (on_client c) (k c) (\<lambda>_. linked None)"
  shows "ensures (linked None)
    (do { r \<leftarrow> connect env sid; (case r of Err e \<Rightarrow> ret (x e) | Ok c \<Rightarrow> k c) }) (\<lambda>_. linked None)"
  by (rule ensures_bind [OF linked_connect]) (auto intro!: ensures_return assms split: sum.split)

lemma nonce_registry_only: "emits_only not_pipe (read_nonce_from_registry env)"
  unfolding read_nonce_from_registry_def Let_def by (intro only) simp_all

lemma parse_only: "emits_only not_pipe (parse_session_nonce env args)"
  unfolding parse_session_nonce_def Let_def exit_process_def
  by (intro only nonce_registry_only) simp_all

lemma linked_parsed:
  assumes "\<And>x. ensures (linked None) (k x) (\<lambda>_. linked None)"
  shows "ensures (linked None) (or_abort (parse_session_nonce env args) k) (\<lambda>_. linked None)"
  by (rule ensures_or_abort [where R = "\<lambda>_. linked None"])
    (auto intro: assms ensures_weaken [OF linked_not_pipe [OF parse_only]] split: option.split)

text \<open>
  C22. The two commands that talk to the plugin leave no connection behind: started with none open,
  they write, read and close only the handle they opened, and whatever fails on the way, the
  arguments, the connection, the handshake or any of the calls, none is open when they return.
\<close>

theorem commands_close_pipe:
  "ensures (linked None) (cmd_smoke env args) (\<lambda>_. linked None) \<and>
   ensures (linked None) (cmd_make_credential env args) (\<lambda>_. linked None)"
  unfolding cmd_smoke_def cmd_make_credential_def smoke_session_def make_credential_session_def
    connecting_def Let_def
  by (auto intro!: linked_parsed linked_say_then linked_connected ensures_bind [OF linked_hello_key]
      linked_step [OF linked_handshake] linked_done linked_exercise)

subsection \<open>The self-test\<close>

text \<open>One call seen from outside: the events on the handle and what the caller receives.\<close>

definition attempt ::
  "env \<Rightarrow> (json \<Rightarrow> string + 'r) \<Rightarrow> PipeClient \<Rightarrow> string \<Rightarrow> json \<Rightarrow> pipe_event list \<Rightarrow> ClientError + 'r \<Rightarrow> bool"
where
  "attempt env fv c rpc params es r =
     (case ser_request (lib env) (request_of c rpc params) of
        Err e \<Rightarrow> es = [] \<and> r = Err (Json e)
      | Ok line \<Rightarrow> \<exists>out. exchange (transport c) line es out \<and> r = result_of env fv out)"

definition next_client :: "PipeClient \<Rightarrow> PipeClient" where
  "next_client c = c\<lparr>next_id := next_id c + 1\<rparr>"

fun is_pipe :: "event \<Rightarrow> bool" where
  "is_pipe (Pipe _) = True"
| "is_pipe _ = False"

lemma evs_pipe_map [simp]: "filter is_pipe (map Pipe es) = map Pipe es"
  by (induction es) simp_all

lemma call_attempt:
  "\<exists>r t es. run_state (call env fv c rpc params) s = ((r, next_client c), t) \<and>
     evs is_pipe t = evs is_pipe s @ map Pipe es \<and> attempt env fv c rpc params es r"
  by (rule call_run [of env c rpc params fv s])
    (auto simp: attempt_def next_client_def evs_def intro: exI [of _ "[]"])

definition delete_outcome :: "ClientError + 'a \<Rightarrow> string + unit" where
  "delete_outcome r = (case r of Err e \<Rightarrow> Err (failed ''deleteCredential'' e) | Ok _ \<Rightarrow> Ok ())"

text \<open>
  The ways a self-test can go on an established session: the four calls in order, as far as
  each one before succeeded, with the events of each.
\<close>

inductive self_test ::
  "env \<Rightarrow> string \<Rightarrow> string \<Rightarrow> PipeClient \<Rightarrow> pipe_event list \<Rightarrow> string + unit \<Rightarrow> bool"
  for env rp usr c where
  create_failed:
    "attempt env (from_create_passkey (lib env)) c ''keepasskeywin.createPasskey''
       (test_create_params env rp usr) es (Err e) \<Longrightarrow>
     self_test env rp usr c es (Err (failed ''createPasskey'' e))"
| list_failed:
    "attempt env (from_create_passkey (lib env)) c ''keepasskeywin.createPasskey''
       (test_create_params env rp usr) es1 (Ok made) \<Longrightarrow>
     attempt env (from_credentials (lib env)) (next_client c) ''keepasskeywin.listCredentials''
       (list_credentials_json \<lparr>lcp_rp_id = rp\<rparr>) es2 (Err e) \<Longrightarrow>
     self_test env rp usr c (es1 @ es2) (Err (failed ''listCredentials'' e))"
| sign_failed:
    "attempt env (from_create_passkey (lib env)) c ''keepasskeywin.createPasskey''
       (test_create_params env rp usr) es1 (Ok made) \<Longrightarrow>
     attempt env (from_credentials (lib env)) (next_client c) ''keepasskeywin.listCredentials''
       (list_credentials_json \<lparr>lcp_rp_id = rp\<rparr>) es2 (Ok creds) \<Longrightarrow>
     attempt env (from_sign_assertion (lib env)) (next_client (next_client c)) ''keepasskeywin.signAssertion''
       (test_sign_params env (cpr_credential_id made)) es3 (Err e) \<Longrightarrow>
     self_test env rp usr c (es1 @ es2 @ es3) (Err (failed ''signAssertion'' e))"
| deleted:
    "attempt env (from_create_passkey (lib env)) c ''keepasskeywin.createPasskey''
       (test_create_params env rp usr) es1 (Ok made) \<Longrightarrow>
     attempt env (from_credentials (lib env)) (next_client c) ''keepasskeywin.listCredentials''
       (list_credentials_json \<lparr>lcp_rp_id = rp\<rparr>) es2 (Ok creds) \<Longrightarrow>
     attempt env (from_sign_assertion (lib env)) (next_client (next_client c)) ''keepasskeywin.signAssertion''
       (test_sign_params env (cpr_credential_id made)) es3 (Ok sig) \<Longrightarrow>
     attempt env (from_delete_credential (lib env)) (next_client (next_client (next_client c)))
       ''keepasskeywin.deleteCredential''
       (delete_credential_json \<lparr>dcp_credential_id = cpr_credential_id made\<rparr>) es4 del \<Longrightarrow>
     self_test env rp usr c (es1 @ es2 @ es3 @ es4)
       (delete_outcome del)"

lemma transport_next [simp]: "transport (next_client c) = transport c"
  by (simp add: next_client_def)

lemma drop_pipe: "evs is_pipe (s\<lparr>trace := trace s @ [Pipe e]\<rparr>) = evs is_pipe s @ [Pipe e]"
  by (simp add: evs_def)

lemma say_pipe: "run_state (say tag l) s = ((), s\<lparr>trace := trace s @ [Stderr (''['' @ tag @ ''] '' @ l)]\<rparr>)"
  by (simp add: say_def)

lemma say_evs [simp]: "evs is_pipe (s\<lparr>trace := trace s @ [Stderr l]\<rparr>) = evs is_pipe s"
  by (simp add: evs_def)

lemma check_pipe: "evs is_pipe (snd (run_state (check_rp_id_hash env rp d) s)) = evs is_pipe s"
  by (simp add: check_rp_id_hash_def say_pipe)

text \<open>
  Running a call and a step on its result, with what the continuation \<open>k\<close> is known to do: it
  adds the events \<open>es\<close> and the closing of the handle.
\<close>

definition ends ::
  "(string + unit) option m \<Rightarrow> nat \<Rightarrow> (pipe_event list \<Rightarrow> string + unit \<Rightarrow> bool) \<Rightarrow> bool" where
  "ends m h P = (\<forall>s. \<exists>r t es. run_state m s = (Some r, t) \<and>
     evs is_pipe t = evs is_pipe s @ map Pipe es @ [Pipe (PipeDrop h)] \<and> P es r)"

lemma endsE:
  assumes "ends m h P"
  obtains r t es where "run_state m s = (Some r, t)"
    and "evs is_pipe t = evs is_pipe s @ map Pipe es @ [Pipe (PipeDrop h)]" and "P es r"
  using assms unfolding ends_def by blast

lemma ends_step:
  assumes failed: "\<And>es e. attempt env fv c rpc params es (Err e) \<Longrightarrow> P es (Err (failed what e))"
    and k: "\<And>es x. attempt env fv c rpc params es (Ok x) \<Longrightarrow>
              ends (k x (next_client c)) (transport c) (\<lambda>es'. P (es @ es'))"
  shows "ends (do { r \<leftarrow> call env fv c rpc params; try_step what r k }) (transport c) P"
  unfolding ends_def
proof
  fix s
  obtain r t es where run: "run_state (call env fv c rpc params) s = ((r, next_client c), t)"
      "evs is_pipe t = evs is_pipe s @ map Pipe es" "attempt env fv c rpc params es r"
    using call_attempt by blast
  show "\<exists>r t es. run_state (do { r \<leftarrow> call env fv c rpc params; try_step what r k }) s = (Some r, t) \<and>
      evs is_pipe t = evs is_pipe s @ map Pipe es @ [Pipe (PipeDrop (transport c))] \<and> P es r"
  proof (cases r)
    case (Inl e)
    with run failed show ?thesis
      by (intro exI [of _ "Err (failed what e)"] exI [of _ es])
        (auto simp: try_step_def drop_client_def drop_pipe)
  next
    case (Inr x)
    with run k [of es x] obtain r' t' es' where "run_state (k x (next_client c)) t = (Some r', t')"
        "evs is_pipe t' = evs is_pipe t @ map Pipe es' @ [Pipe (PipeDrop (transport c))]" "P (es @ es') r'"
      unfolding ends_def by blast
    with run Inr show ?thesis
      by (intro exI [of _ r'] exI [of _ t'] exI [of _ "es @ es'"]) (simp add: try_step_def)
  qed
qed

lemma ends_skip:
  assumes quiet: "\<And>s. evs is_pipe (snd (run_state q s)) = evs is_pipe s" and "ends m h P"
  shows "ends (do { q; m }) h P"
  unfolding ends_def
proof
  fix s
  obtain x u where u: "run_state q s = (x, u)" by fastforce
  with quiet [of s] have same: "evs is_pipe u = evs is_pipe s" by simp
  from assms(2) obtain r t es where "run_state m u = (Some r, t)"
      "evs is_pipe t = evs is_pipe u @ map Pipe es @ [Pipe (PipeDrop h)]" "P es r"
    unfolding ends_def by blast
  with u same show "\<exists>r t es. run_state (do { q; m }) s = (Some r, t) \<and>
      evs is_pipe t = evs is_pipe s @ map Pipe es @ [Pipe (PipeDrop h)] \<and> P es r"
    by auto
qed

lemma ends_done: "P [] (Ok ()) \<Longrightarrow> ends (do { drop_client c; ret (Some (Ok ())) }) (transport c) P"
  by (auto simp: ends_def drop_client_def drop_pipe intro: exI [of _ "[]"])

lemma say_quiet: "evs is_pipe (snd (run_state (say tag l) s)) = evs is_pipe s"
  by (simp add: say_pipe)

lemma exercise_ends: "ends (exercise env rp usr c) (transport c) (self_test env rp usr c)"
  unfolding exercise_def
proof (rule ends_step, goal_cases)
  case (1 es e)
  then show ?case by (rule self_test.create_failed)
next
  case create: (2 es1 made)
  note steps = ends_skip [OF say_quiet] ends_skip [OF check_pipe]
    ends_step [where c = "next_client c", simplified]
    ends_step [where c = "next_client (next_client c)", simplified]
    ends_step [where c = "next_client (next_client (next_client c))", simplified]
    ends_done [where c = "next_client (next_client (next_client (next_client c)))", simplified]
  show ?case
  proof (intro steps)
    fix es2 es3 es4 creds sig e
    assume l: "attempt env (from_credentials (lib env)) (next_client c) ''keepasskeywin.listCredentials''
       (list_credentials_json \<lparr>lcp_rp_id = rp\<rparr>) es2 (Ok creds)"
      and g: "attempt env (from_sign_assertion (lib env)) (next_client (next_client c))
       ''keepasskeywin.signAssertion'' (test_sign_params env (cpr_credential_id made)) es3 (Ok sig)"
    note del = self_test.deleted [OF create l g]
    { assume "attempt env (from_delete_credential (lib env)) (next_client (next_client (next_client c)))
       ''keepasskeywin.deleteCredential''
       (delete_credential_json \<lparr>dcp_credential_id = cpr_credential_id made\<rparr>) es4 (Err e)"
      from del [OF this] show "self_test env rp usr c
          (es1 @ es2 @ es3 @ es4) (Err (failed ''deleteCredential'' e))"
        by (simp add: delete_outcome_def) }
    { fix x assume "attempt env (from_delete_credential (lib env)) (next_client (next_client (next_client c)))
       ''keepasskeywin.deleteCredential''
       (delete_credential_json \<lparr>dcp_credential_id = cpr_credential_id made\<rparr>) es4 (Ok x)"
      from del [OF this] show "self_test env rp usr c (es1 @ es2 @ es3 @ es4 @ []) (Ok ())"
        by (simp add: delete_outcome_def) }
  qed (auto intro: self_test.list_failed [OF create] self_test.sign_failed [OF create])
qed

text \<open>
  C31. The self-test makes its calls strictly in order, each only after the one before succeeded,
  with consecutive request ids on the one connection, and closes it last. It passes exactly when
  all four succeeded, and then the credential it deleted is the one it created. But a failure
  to list or to sign ends it before the deletion: the created credential stays in the vault.
\<close>

theorem self_test_protocol:
  "case run_state (exercise env rp usr c) s of
     (r, t) \<Rightarrow>
       \<exists>es res. r = Some res \<and>
         evs is_pipe t = evs is_pipe s @ map Pipe es @ [Pipe (PipeDrop (transport c))] \<and>
         self_test env rp usr c es res"
proof -
  obtain r t es where run: "run_state (exercise env rp usr c) s = (Some r, t)"
      and "evs is_pipe t = evs is_pipe s @ map Pipe es @ [Pipe (PipeDrop (transport c))]"
      and "self_test env rp usr c es r"
    by (rule endsE [OF exercise_ends])
  then show ?thesis unfolding run prod.case by blast
qed

subsection \<open>Arguments\<close>

lemma flag_first:
  "flag args name = Some v \<longleftrightarrow>
     (\<exists>pre post. args = pre @ name # v # post \<and> name \<notin> set pre)"
proof (induction args name rule: flag.induct)
  case (1 a b rest name)
  show ?case
  proof (cases "a = name")
    case True
    then show ?thesis by (auto simp: Cons_eq_append_conv intro: exI [of _ "[]"])
  next
    case False
    then have "flag (a # b # rest) name = flag (b # rest) name" by simp
    also have "\<dots> = Some v \<longleftrightarrow> (\<exists>pre post. b # rest = pre @ name # v # post \<and> name \<notin> set pre)"
      using 1 [OF False] by simp
    also have "\<dots> \<longleftrightarrow> (\<exists>pre post. a # b # rest = pre @ name # v # post \<and> name \<notin> set pre)"
    proof (intro iffI; elim exE conjE)
      fix pre post assume "b # rest = pre @ name # v # post" and "name \<notin> set pre"
      with False show "\<exists>pre post. a # b # rest = pre @ name # v # post \<and> name \<notin> set pre"
        by (intro exI [of _ "a # pre"] exI [of _ post]) simp
    next
      fix pre post assume eq: "a # b # rest = pre @ name # v # post" and "name \<notin> set pre"
      with False show "\<exists>pre post. b # rest = pre @ name # v # post \<and> name \<notin> set pre"
        by (cases pre) auto
    qed
    finally show ?thesis .
  qed
qed (auto simp: Cons_eq_append_conv)

text \<open>
  C36. The options of the command line are read back as they were written: whatever the program is
  called, \<open>--session\<close> with the decimal form of a session id and \<open>--nonce\<close> give that id and that
  nonce, with no registry access. The value of an option is the word after its first
  occurrence, also when that word is itself the name of an option.
\<close>

theorem arguments_round_trip:
  assumes "prog \<notin> {''--session'', ''--nonce''}" and "sub \<notin> {''--session'', ''--nonce''}"
    and "n < 2 ^ 32"
  shows "run_state (parse_session_nonce env
      (prog # sub # ''--session'' # show_nat n # ''--nonce'' # nonce # rest)) s =
      (Some (of_nat n, nonce), s) \<and>
    (flag args name = Some v \<longleftrightarrow> (\<exists>pre post. args = pre @ name # v # post \<and> name \<notin> set pre))"
proof
  have "show_nat n \<noteq> ''--nonce''"
    using show_nat_digits [of n] by (auto simp: is_digit_def)
  then show "run_state (parse_session_nonce env
      (prog # sub # ''--session'' # show_nat n # ''--nonce'' # nonce # rest)) s =
      (Some (of_nat n, nonce), s)"
    using assms parse_show_nat [OF assms(3)] by (simp add: parse_session_nonce_def)
qed (rule flag_first)

theorem arguments_round_trip_witness:
  "fst (run_state (parse_session_nonce sample_env
      [''kkw'', ''smoke'', ''--session'', show_nat 7, ''--nonce'', ''abc'']) init_proc) =
     Some (7, ''abc'')"
  using arguments_round_trip [of "''kkw''" "''smoke''" 7 sample_env "''abc''" "[]" init_proc
      "[]" "[]" "[]"] by simp

subsection \<open>The nonce from the registry\<close>

text \<open>
  C35. The command line and the COM server read the same nonce. When both registry calls return the
  \<open>REG_SZ\<close> value of a string of at most 255 code units without a null, as the plugin writes
  it, the two readers, which are separate code with different checks, give this string.
\<close>

theorem nonce_readers_agree:
  assumes reply: "r = \<lparr>rr_status = 0, rr_type = REG_SZ, rr_data = encode_utf16 n @ [0],
              rr_cb = of_nat (2 * Suc (length (encode_utf16 n)))\<rparr>"
    and server: "oe_reg (os env) (trace s) = r"
    and cli: "oe_reg_open (os env) (trace s) = 0" "oe_reg_sz (os env) (trace s @ [Cli (RegOpenKey 0)]) = r"
    and n: "is_str n" "0 \<notin> set (chars n)" "length (encode_utf16 n) < nonce_buf_len"
  shows "fst (run_state (read_nonce_from_registry env) s) = Some (Some n) \<and>
    fst (run_state (read_handshake_nonce env) s) = Some (Ok n)"
proof
  have cb: "unat (of_nat (2 * Suc (length (encode_utf16 n))) :: u32) = 2 * Suc (length (encode_utf16 n))"
    by (rule unat_of_nat_u32) (use n(3) in \<open>simp add: nonce_buf_len_def\<close>)
  have len: "length (encode_utf16 n) \<le> 256" using n(3) by (simp add: nonce_buf_len_def)
  show "fst (run_state (read_handshake_nonce env) s) = Some (Ok n)"
    using server reply cb n by (subst nonce_data [OF refl]) auto
  show "fst (run_state (read_nonce_from_registry env) s) = Some (Some n)"
    using cli reply cb len n(1)
    by (simp add: read_nonce_from_registry_def Let_def min_absorb1 min_absorb2)
qed

theorem nonce_readers_agree_witness:
  "let r = \<lparr>rr_status = 0, rr_type = REG_SZ, rr_data = [0x37, 0x66, 0], rr_cb = 6\<rparr>;
       env = sample_env\<lparr>os := (os sample_env)
         \<lparr>oe_reg := (\<lambda>_. r), oe_reg_open := (\<lambda>_. 0), oe_reg_sz := (\<lambda>_. r)\<rparr>\<rparr>
   in fst (run_state (read_nonce_from_registry env) init_proc) = Some (Some ''7f'') \<and>
      fst (run_state (read_handshake_nonce env) init_proc) = Some (Ok ''7f'')"
  unfolding Let_def
proof (rule nonce_readers_agree)
  have c: "chars ''7f'' = [0x37, 0x66]"
    by (subst chars_ascii) (simp_all add: is_ascii_def)
  then have u: "encode_utf16 ''7f'' = [0x37, 0x66]"
    by (simp add: encode_utf16_def utf16_char_def)
  show "\<lparr>rr_status = 0, rr_type = REG_SZ, rr_data = [0x37, 0x66, 0], rr_cb = 6\<rparr> =
      \<lparr>rr_status = 0, rr_type = REG_SZ, rr_data = encode_utf16 ''7f'' @ [0],
       rr_cb = of_nat (2 * Suc (length (encode_utf16 ''7f'')))\<rparr>"
    by (simp add: u)
  show "is_str ''7f''" by (rule ascii_is_str) (simp add: is_ascii_def)
  show "0 \<notin> set (chars ''7f'')" by (simp add: c)
  show "length (encode_utf16 ''7f'') < nonce_buf_len" by (simp add: u nonce_buf_len_def)
qed simp_all

subsection \<open>What tracing does at the start\<close>

lemma log_lines_run:
  "run_state (log_lines ls) s = ((), s\<lparr>trace := trace s @ map (\<lambda>l. Cli (LogLine l)) ls\<rparr>)"
  by (induction ls arbitrary: s) simp_all

lemma open_route_run:
  obtains outcome opened sink ok where
    "run_state (open_route env good) s = (outcome,
       s\<lparr>trace := trace s @ map Cli (opened @ [InstallSubscriber sink good ok])\<rparr>)"
    "case oe_var (os env) ''KEEPASSKEYWIN_LOG_FILE'' of
       Some p \<Rightarrow>
         if trim p \<noteq> []
         then \<exists>r. opened = [OpenLogFile p r] \<and>
                sink = (case r of None \<Rightarrow> LogToFile p | Some _ \<Rightarrow> LogToStderr)
         else opened = [] \<and> sink = LogToStderr
     | None \<Rightarrow> opened = [] \<and> sink = LogToStderr"
    "outcome_lines env outcome = [] \<longleftrightarrow> ok \<and> opened = []"
proof (cases "\<exists>p. oe_var (os env) ''KEEPASSKEYWIN_LOG_FILE'' = Some p \<and> trim p \<noteq> []")
  case False
  define ok where "ok = oe_install (os env) (trace s)"
  from False show thesis
    by (intro that [where outcome = "if ok then NotRequested else SubscriberAlreadyInstalled None"
          and opened = "[]" and sink = LogToStderr and ok = ok])
      (auto simp: open_route_def try_init_def ok_def split: option.splits)
next
  case True
  then obtain p where p: "oe_var (os env) ''KEEPASSKEYWIN_LOG_FILE'' = Some p" "trim p \<noteq> []" by blast
  define r where "r = oe_open_log (os env) (trace s) p"
  define ok where "ok = oe_install (os env) (trace s @ [Cli (OpenLogFile p r)])"
  show thesis
    using p
    by (intro that [where outcome = "if ok then (case r of None \<Rightarrow> Active p | Some e \<Rightarrow>
            FailedOpen p (io_error_text e)) else SubscriberAlreadyInstalled (Some p)"
          and opened = "[OpenLogFile p r]" and ok = ok
          and sink = "case r of None \<Rightarrow> LogToFile p | Some _ \<Rightarrow> LogToStderr"])
      (auto simp: open_route_def try_init_def ok_def r_def split: option.split)
qed

text \<open>
  C33. Tracing is set up by exactly one installation, of the accepted directives. It writes to the
  file exactly when the variable names a non-blank path that could be opened, to stderr
  otherwise; every line about it comes after the installation, so none is lost in a closed
  stderr; and the only silent outcome is the successful one nobody asked a file for. The
  rejected directives follow, all of them, in order.
\<close>

theorem tracing_setup:
  "let path = oe_var (os env) ''KEEPASSKEYWIN_LOG_FILE'';
       parsed = parse env (case oe_var (os env) KKW_LOG_LEVEL_ENV of Some v \<Rightarrow> v | None \<Rightarrow> [])
                  KKW_LOG_LEVEL_ENV
   in \<exists>opened sink ok ls.
        trace (snd (run_state (init_tracing env) s)) = trace s @
          map Cli (opened @ [InstallSubscriber sink (good_directives parsed) ok] @
            map LogLine (ls @ warnings parsed)) \<and>
        (case path of
           Some p \<Rightarrow>
             if trim p \<noteq> []
             then \<exists>r. opened = [OpenLogFile p r] \<and>
                    sink = (case r of None \<Rightarrow> LogToFile p | Some _ \<Rightarrow> LogToStderr)
             else opened = [] \<and> sink = LogToStderr
         | None \<Rightarrow> opened = [] \<and> sink = LogToStderr) \<and>
        (ls = [] \<longleftrightarrow> ok \<and> opened = [])"
proof -
  define parsed where "parsed = parse env
    (case oe_var (os env) KKW_LOG_LEVEL_ENV of Some v \<Rightarrow> v | None \<Rightarrow> []) KKW_LOG_LEVEL_ENV"
  show ?thesis
  proof (rule open_route_run [of env "good_directives parsed" s])
    fix outcome opened sink ok
    assume "run_state (open_route env (good_directives parsed)) s = (outcome,
        s\<lparr>trace := trace s @ map Cli (opened @ [InstallSubscriber sink (good_directives parsed) ok])\<rparr>)"
    then have "trace (snd (run_state (init_tracing env) s)) = trace s @
        map Cli (opened @ [InstallSubscriber sink (good_directives parsed) ok] @
          map LogLine (outcome_lines env outcome @ warnings parsed))"
      by (simp add: init_tracing_def Let_def parsed_def [symmetric] log_lines_run)
    moreover assume "case oe_var (os env) ''KEEPASSKEYWIN_LOG_FILE'' of
         Some p \<Rightarrow>
           if trim p \<noteq> []
           then \<exists>r. opened = [OpenLogFile p r] \<and>
                  sink = (case r of None \<Rightarrow> LogToFile p | Some _ \<Rightarrow> LogToStderr)
           else opened = [] \<and> sink = LogToStderr
       | None \<Rightarrow> opened = [] \<and> sink = LogToStderr"
      and "outcome_lines env outcome = [] \<longleftrightarrow> ok \<and> opened = []"
    ultimately show ?thesis unfolding Let_def parsed_def [symmetric] by blast
  qed
qed

subsection \<open>How the process ends\<close>

fun not_exit :: "event \<Rightarrow> bool" where
  "not_exit (Com (ExitProcess _)) = False"
| "not_exit _ = True"

fun is_stderr :: "event \<Rightarrow> bool" where
  "is_stderr (Stderr _) = True"
| "is_stderr _ = False"

lemma not_exit_mono:
  "is_load e \<Longrightarrow> not_exit e" "is_key_event e \<Longrightarrow> not_exit e" "on_pipe c e \<Longrightarrow> not_exit e"
  by (cases e rule: not_exit.cases; simp)+

lemma bindings_not_exit: "emits_only not_exit (bindings env)"
  by (rule emits_only_mono [OF bindings_only not_exit_mono(1)])

lemma add_once_not_exit: "emits_only not_exit (add_once env opts)"
  unfolding add_once_def add_authenticator_def free_add_authenticator_response_def
  by (intro only bindings_not_exit) simp_all

lemma remove_not_exit: "emits_only not_exit (remove_authenticator env g)"
  unfolding remove_authenticator_def by (intro only bindings_not_exit) simp_all

lemma register_not_exit: "emits_only not_exit (cmd_register env)"
  unfolding cmd_register_def co_initialize_def with_co_guard_def register_body_def Let_def
    resolved_add_symbol_name_def registered_def
  by (intro only bindings_not_exit add_once_not_exit remove_not_exit) simp_all

lemma unregister_not_exit: "emits_only not_exit (cmd_unregister env)"
  unfolding cmd_unregister_def co_initialize_def with_co_guard_def unregister_body_def
  by (intro only remove_not_exit) simp_all

lemma connect_loop_not_exit: "emits_only not_exit (connect_loop env sid ds e)"
proof (induction ds arbitrary: e)
  case Nil
  show ?case by (simp only: connect_loop.simps try_connect_def) (intro only; simp)
next
  case (Cons d ds)
  show ?case
    by (simp only: connect_loop.simps try_connect_def) (intro only Cons.IH; simp)
qed

lemma session_not_exit:
  "emits_only not_exit (connect env sid)"
  "emits_only not_exit (get_op_sign_pub_key_bytes_for_hello env)"
  "emits_only not_exit (call env fv c rpc params)"
  "emits_only not_exit (say tag l)"
  by (simp_all add: connect_def connect_loop_not_exit say_def emits_only_emit
      emits_only_mono [OF hello_key_only not_exit_mono(2)] emits_only_mono [OF call_only not_exit_mono(3)])

lemma handshake_not_exit: "emits_only not_exit (handshake env c pkg n key)"
  unfolding handshake_def by (intro only session_not_exit)

lemma check_not_exit: "emits_only not_exit (check_rp_id_hash env rp d)"
  unfolding check_rp_id_hash_def by (intro only session_not_exit)

text \<open>
  A command that returns its result, does not end the process, and whose last event is not a
  line on stderr when it succeeds.
\<close>

definition reports :: "(string + unit) option m \<Rightarrow> bool" where
  "reports m = (\<forall>s. \<exists>r t es. run_state m s = (Some r, t) \<and> trace t = trace s @ es \<and>
     list_all not_exit es \<and> (is_ok r \<longrightarrow> es \<noteq> [] \<and> \<not> is_stderr (last es)))"

lemma reportsE:
  assumes "reports m"
  obtains r t es where "run_state m s = (Some r, t)" and "trace t = trace s @ es"
    and "list_all not_exit es" and "is_ok r \<Longrightarrow> es \<noteq> [] \<and> \<not> is_stderr (last es)"
  using assms unfolding reports_def by blast

lemma reports_bind:
  assumes "emits_only not_exit m" and "\<And>x. reports (k x)"
  shows "reports (do { x \<leftarrow> m; k x })"
  unfolding reports_def
proof
  fix s
  obtain x u where u: "run_state m s = (x, u)" by fastforce
  obtain es where es: "trace u = trace s @ es" "list_all not_exit es"
    using emits_onlyD [OF assms(1) u] by blast
  obtain r t es' where t: "run_state (k x) u = (Some r, t)" "trace t = trace u @ es'"
      "list_all not_exit es'" "is_ok r \<Longrightarrow> es' \<noteq> [] \<and> \<not> is_stderr (last es')"
    using assms(2) [of x] unfolding reports_def by blast
  with u es show "\<exists>r t es. run_state (do { x \<leftarrow> m; k x }) s = (Some r, t) \<and> trace t = trace s @ es \<and>
     list_all not_exit es \<and> (is_ok r \<longrightarrow> es \<noteq> [] \<and> \<not> is_stderr (last es))"
    by (intro exI [of _ r] exI [of _ t] exI [of _ "es @ es'"]) auto
qed

lemma reports_error: "reports (ret (Some (Err e)))"
  by (auto simp: reports_def)

lemma reports_done: "reports (do { drop_client c; ret (Some (Ok ())) })"
  by (auto simp: reports_def drop_client_def)

lemma reports_step:
  assumes "\<And>x c. reports (k x c)"
  shows "reports (try_step what r k)"
proof -
  have "emits_only not_exit (drop_client c)" for c
    unfolding drop_client_def by (rule emits_only_emit) simp
  then show ?thesis
    unfolding try_step_def
    by (auto intro: assms reports_bind reports_error split: prod.split sum.split)
qed

lemma reports_connect:
  assumes "\<And>c. reports (k c)"
  shows "reports (case r of Err e \<Rightarrow> ret (Some (Err (g e))) | Ok c \<Rightarrow> k c)"
  using assms by (auto intro: reports_error split: sum.split)

lemma smoke_reports: "reports (smoke_session env sid nonce)"
  unfolding smoke_session_def connecting_def
  by (intro reports_bind reports_connect reports_step reports_done session_not_exit handshake_not_exit)

lemma make_credential_reports: "reports (make_credential_session env args sid nonce)"
  unfolding make_credential_session_def exercise_def connecting_def Let_def
  by (intro reports_bind reports_connect reports_step reports_done session_not_exit
      handshake_not_exit check_not_exit)

text \<open>
  The ways the process ends: with an exit code, which is 1 exactly when the last thing it did
  was to write to stderr, or by the panic of the slice in the registry read.
\<close>

definition exits :: "event list \<Rightarrow> bool" where
  "exits es = (\<exists>pre c. es = pre @ [Com (ExitProcess c)] \<and> list_all not_exit pre \<and>
     c = (if pre \<noteq> [] \<and> is_stderr (last pre) then 1 else 0))"

definition overruns :: "event list \<Rightarrow> bool" where
  "overruns es = (list_all not_exit es \<and>
     (\<exists>r. Cli (RegGetSz r) \<in> set es \<and> rr_status r = 0 \<and> 257 < unat (rr_cb r) div 2))"

text \<open>A program that gives the exit code, or ends the process itself.\<close>

definition ends_process :: "int option m \<Rightarrow> bool" where
  "ends_process m = (\<forall>s. \<exists>r t es. run_state m s = (r, t) \<and> trace t = trace s @ es \<and>
     (case r of
        None \<Rightarrow> exits es \<or> overruns es
      | Some c \<Rightarrow> list_all not_exit es \<and> c = (if es \<noteq> [] \<and> is_stderr (last es) then 1 else 0)))"

lemma exits_prefix:
  assumes xs: "list_all not_exit xs" "xs = [] \<or> \<not> is_stderr (last xs)" and "exits es"
  shows "exits (xs @ es)"
proof -
  obtain pre c where es: "es = pre @ [Com (ExitProcess c)]" "list_all not_exit pre"
      "c = (if pre \<noteq> [] \<and> is_stderr (last pre) then 1 else 0)"
    using assms(3) unfolding exits_def by blast
  with xs show ?thesis
    unfolding exits_def
    by (intro exI [of _ "xs @ pre"] exI [of _ c]) (auto simp: last_append split: if_splits)
qed

lemma overruns_prefix: "list_all not_exit xs \<Longrightarrow> overruns es \<Longrightarrow> overruns (xs @ es)"
  by (auto simp: overruns_def)

lemma parse_ends:
  "\<exists>r t es. run_state (parse_session_nonce env args) s = (r, t) \<and> trace t = trace s @ es \<and>
     (case r of None \<Rightarrow> exits es \<or> overruns es | Some _ \<Rightarrow> list_all not_exit es)"
proof (cases "flag args ''--nonce''")
  case (Some nonce)
  then show ?thesis by (simp add: parse_session_nonce_def)
next
  case None
  define msg where "msg = Stderr ''ERROR: --nonce required (registry read failed)''"
  have exits: "exits (pre @ [msg, Com (ExitProcess 1)])" if "list_all not_exit pre" for pre
    using that unfolding exits_def
    by (intro exI [of _ "pre @ [msg]"] exI [of _ 1]) (simp add: msg_def)
  obtain n t es where n: "run_state (read_nonce_from_registry env) s = (n, t)" "trace t = trace s @ es"
      "list_all not_exit es" "n = None \<Longrightarrow> overruns es"
  proof (cases "oe_reg_open (os env) (trace s) = 0")
    case False
    let ?es = "[Cli (RegOpenKey (oe_reg_open (os env) (trace s)))]"
    from False show thesis
      by (intro that [of "Some None" "s\<lparr>trace := trace s @ ?es\<rparr>" ?es])
        (simp_all add: read_nonce_from_registry_def)
  next
    case True
    define r where "r = oe_reg_sz (os env) (trace s @ [Cli (RegOpenKey 0)])"
    let ?es = "[Cli (RegOpenKey 0), Cli (RegGetSz r), Cli RegCloseKey]"
    let ?len = "unat (rr_cb r) div 2 - 1"
    have buf: "length (take 256 (rr_data r @ replicate 256 (0::u16))) = 256" by simp
    define n where "n = (if rr_status r \<noteq> 0 then Some None else if 256 < ?len then None
      else Some (Some (from_utf16_lossy (take ?len (take 256 (rr_data r @ replicate 256 0))))))"
    have "run_state (read_nonce_from_registry env) s = (n, s\<lparr>trace := trace s @ ?es\<rparr>)"
      using True buf
      by (simp add: read_nonce_from_registry_def Let_def r_def n_def del: take_append length_take)
    moreover have "n = None \<Longrightarrow> rr_status r = 0 \<and> 257 < unat (rr_cb r) div 2"
      by (simp add: n_def split: if_splits)
    ultimately show thesis
      by (intro that [of n "s\<lparr>trace := trace s @ ?es\<rparr>" ?es]) (auto simp: overruns_def)
  qed
  show ?thesis
  proof (cases n)
    case overrun: None
    with None n show ?thesis by (auto simp: parse_session_nonce_def)
  next
    case (Some m)
    show ?thesis
    proof (cases m)
      case unread: None
      with None n Some exits [OF n(3)] show ?thesis
        by (auto simp: parse_session_nonce_def exit_process_def msg_def)
    next
      case (Some nonce)
      with None n \<open>n = Some m\<close> show ?thesis by (auto simp: parse_session_nonce_def)
    qed
  qed
qed

lemma async_ends:
  assumes "\<And>x. reports (k x)"
  shows "ends_process (run_blocking_async env (or_abort (parse_session_nonce env args) k))"
  unfolding ends_process_def
proof
  fix s :: proc
  let ?m = "run_blocking_async env (or_abort (parse_session_nonce env args) k)"
  define rt where "rt = oe_runtime (os env) (trace s)"
  let ?s = "s\<lparr>trace := trace s @ [Cli (NewRuntime rt)]\<rparr>"
  obtain p t es where parsed: "run_state (parse_session_nonce env args) ?s = (p, t)"
      "trace t = trace ?s @ es"
      "case p of None \<Rightarrow> exits es \<or> overruns es | Some _ \<Rightarrow> list_all not_exit es"
    using parse_ends by blast
  show "\<exists>r t es. run_state ?m s = (r, t) \<and> trace t = trace s @ es \<and>
     (case r of
        None \<Rightarrow> exits es \<or> overruns es
      | Some c \<Rightarrow> list_all not_exit es \<and> c = (if es \<noteq> [] \<and> is_stderr (last es) then 1 else 0))"
  proof (cases rt)
    case (Some e)
    then show ?thesis by (simp add: run_blocking_async_def rt_def)
  next
    case rt: None
    show ?thesis
    proof (cases p)
      case None
      with parsed have "exits ([Cli (NewRuntime rt)] @ es) \<or> overruns ([Cli (NewRuntime rt)] @ es)"
        using exits_prefix [of "[Cli (NewRuntime rt)]" es]
          overruns_prefix [of "[Cli (NewRuntime rt)]" es] by auto
      with None rt parsed show ?thesis by (auto simp: run_blocking_async_def rt_def)
    next
      case (Some x)
      obtain r u es' where r: "run_state (k x) t = (Some r, u)" "trace u = trace t @ es'"
          "list_all not_exit es'" "is_ok r \<Longrightarrow> es' \<noteq> [] \<and> \<not> is_stderr (last es')"
        using assms [of x] unfolding reports_def by blast
      with Some rt parsed show ?thesis
        by (cases r) (auto simp: run_blocking_async_def rt_def)
    qed
  qed
qed

lemma guarded_command:
  assumes "emits_only not_exit body"
  shows "\<exists>r t es. run_state (do { hr \<leftarrow> co_initialize env;
      (if hr_is_err hr then ret (Err (e hr)) else with_co_guard body) }) s = (r, t) \<and>
    trace t = trace s @ es \<and> list_all not_exit es \<and> (is_ok r \<longrightarrow> es \<noteq> [] \<and> \<not> is_stderr (last es))"
proof -
  define hr where "hr = oe_co_init (os env) (trace s)"
  let ?s = "s\<lparr>trace := trace s @ [Com (CoInitializeEx hr)]\<rparr>"
  obtain r t where run: "run_state body ?s = (r, t)" by fastforce
  obtain es where "trace t = trace ?s @ es" "list_all not_exit es"
    using emits_onlyD [OF assms run] by blast
  with run show ?thesis
    by (auto simp: co_initialize_def hr_def [symmetric] with_co_guard_def)
qed

lemma body_not_exit: "emits_only not_exit (register_body env)" "emits_only not_exit (unregister_body env)"
  unfolding register_body_def unregister_body_def Let_def resolved_add_symbol_name_def registered_def
  by (intro only bindings_not_exit add_once_not_exit remove_not_exit; simp)+

lemma lifted_ends:
  assumes "\<And>s. \<exists>r t es. run_state cmd s = (r, t) \<and> trace t = trace s @ es \<and> list_all not_exit es \<and>
    (is_ok r \<longrightarrow> es \<noteq> [] \<and> \<not> is_stderr (last es))"
  shows "ends_process (lift_m (do { r \<leftarrow> cmd;
     (case r of Ok _ \<Rightarrow> ret 0 | Err e \<Rightarrow> do { emit (Stderr (what @ e)); ret 1 }) }))"
  unfolding ends_process_def
proof
  fix s :: proc
  obtain r t es where "run_state cmd s = (r, t)" "trace t = trace s @ es" "list_all not_exit es"
      "is_ok r \<longrightarrow> es \<noteq> [] \<and> \<not> is_stderr (last es)"
    using assms by blast
  then show "\<exists>r t es. run_state (lift_m (do { r \<leftarrow> cmd;
       (case r of Ok _ \<Rightarrow> ret 0 | Err e \<Rightarrow> do { emit (Stderr (what @ e)); ret 1 }) })) s = (r, t) \<and>
     trace t = trace s @ es \<and>
     (case r of
        None \<Rightarrow> exits es \<or> overruns es
      | Some c \<Rightarrow> list_all not_exit es \<and> c = (if es \<noteq> [] \<and> is_stderr (last es) then 1 else 0))"
    by (cases r) auto
qed

lemma print_lines_run:
  "run_state (print_lines ls) s = ((), s\<lparr>trace := trace s @ map Stderr ls\<rparr>)"
  by (induction ls arbitrary: s) simp_all

lemma usage_ends: "ends_process (do { print_usage; ret (Some 1) })"
proof -
  have "map Stderr usage_lines \<noteq> []" "is_stderr (last (map Stderr usage_lines))"
    by (simp_all add: usage_lines_def)
  moreover have "list_all not_exit (map Stderr usage_lines)" by (simp add: list_all_iff)
  ultimately show ?thesis by (simp add: ends_process_def print_usage_def print_lines_run)
qed

lemma subcommand_ends: "ends_process (run_subcommand env args sub)"
proof (cases sub)
  case Register
  then show ?thesis
    by (simp only: run_subcommand.simps run_register_def cmd_register_def)
      (rule lifted_ends [OF guarded_command [OF body_not_exit(1)]])
next
  case Unregister
  then show ?thesis
    by (simp only: run_subcommand.simps run_unregister_def cmd_unregister_def)
      (rule lifted_ends [OF guarded_command [OF body_not_exit(2)]])
next
  case Smoke
  then show ?thesis
    by (auto simp: cmd_smoke_def intro!: async_ends smoke_reports split: prod.split)
next
  case MakeCredential
  then show ?thesis
    by (auto simp: cmd_make_credential_def intro!: async_ends make_credential_reports split: prod.split)
qed (simp_all add: usage_ends)

text \<open>
  C21. Every command but \<open>-PluginActivated\<close> ends the process: it exits once, as its last act,
  with code 1 exactly when the last thing before was an error line on stderr and with 0
  otherwise. The one exception is a panic, and only when the registry reports, with success, a
  value longer than the buffer it was given.
\<close>

theorem main_exits:
  "case subcommand_of args of
     PluginActivated \<Rightarrow> True
   | _ \<Rightarrow> \<exists>t es. main env d args s = Some t \<and> trace t = trace s @ es \<and> (exits es \<or> overruns es)"
proof -
  obtain s0 es0 where start: "snd (run_state (init_tracing env) s) = s0" "trace s0 = trace s @ map Cli es0"
  proof -
    have "emits_only (\<lambda>e. \<exists>x. e = Cli x) (log_lines ls)" for ls
      by (induction ls) (auto intro!: only)
    then have "emits_only (\<lambda>e. \<exists>x. e = Cli x) (init_tracing env)"
      unfolding init_tracing_def open_route_def try_init_def Let_def by (intro only) auto
    then obtain es where "trace (snd (run_state (init_tracing env) s)) = trace s @ es"
        "list_all (\<lambda>e. \<exists>x. e = Cli x) es" unfolding emits_only_def by blast
    moreover from this(2) have "\<exists>xs. es = map Cli xs"
      by (induction es) (auto, metis list.simps(9))
    ultimately show thesis using that by blast
  qed
  have pre: "list_all not_exit (map Cli es0)" "map Cli es0 = [] \<or> \<not> is_stderr (last (map Cli es0))"
    by (simp add: list_all_iff, cases "es0 = []", simp_all add: last_map)
  obtain r u es where run: "run_state (run_subcommand env args (subcommand_of args)) s0 = (r, u)"
      "trace u = trace s0 @ es"
      "case r of
        None \<Rightarrow> exits es \<or> overruns es
      | Some c \<Rightarrow> list_all not_exit es \<and> c = (if es \<noteq> [] \<and> is_stderr (last es) then 1 else 0)"
    using subcommand_ends [of env args "subcommand_of args"] unfolding ends_process_def by blast
  have "\<exists>t es. snd (run_state (finish (run_subcommand env args (subcommand_of args))) s0) = t \<and>
      trace t = trace s @ es \<and> (exits es \<or> overruns es)"
  proof (cases r)
    case None
    with run start pre show ?thesis
      using exits_prefix [OF pre, of es] overruns_prefix [OF pre(1), of es]
      by (auto simp: finish_def)
  next
    case (Some c)
    with run have "exits (es @ [Com (ExitProcess c)])" by (auto simp: exits_def)
    from exits_prefix [OF pre this] Some run start show ?thesis
      by (auto simp: finish_def exit_process_def intro!: exI [of _ "map Cli es0 @ es @ [Com (ExitProcess c)]"])
  qed
  then show ?thesis using start by (auto simp: main_def Let_def split: Subcommand.split)
qed

end
