(* ===== verification/Unit_Tests.thy ===== *)
theory Unit_Tests
  imports Cli
begin

text \<open>
  The unit tests of the crate, run on the model. Each \<open>#[test]\<close> function becomes the list of the
  conditions it asserts, in order, and the test passes when all of them hold. A test that only
  exercises a crate (a hash vector, a derived deserialiser) has no counterpart; what the others
  need of a crate is a hypothesis. The tests are
  the developers' own record of what the functions are to do, so passing them checks the
  definitions of the model from outside; they are not counted among its properties.
\<close>

definition pass :: "bool list \<Rightarrow> bool" where
  "pass asserts = list_all id asserts"

lemma pass_simps [simp]: "pass []" "pass (b # bs) \<longleftrightarrow> b \<and> pass bs"
  by (simp_all add: pass_def)

text \<open>\<open>#[cfg(target_pointer_width = ...)]\<close>: assertions that only one target compiles.\<close>

definition cfg :: "target \<Rightarrow> target \<Rightarrow> bool list \<Rightarrow> bool list" where
  "cfg p q asserts = (if p = q then asserts else [])"

subsection \<open>com/types.rs\<close>

definition abi_tests :: "target \<Rightarrow> (string \<times> bool list) list" where
  "abi_tests p =
     [(''guid_size'', [size_of p Guid_struct = 16]),
      (''operation_request_field_offsets'',
        [offset_of p WebauthNPluginOperationRequest_struct ''hwnd'' = Some 0,
         offset_of p WebauthNPluginOperationRequest_struct ''transaction_id'' = Some 8,
         offset_of p WebauthNPluginOperationRequest_struct ''cb_request_signature'' = Some 24]),
      (''operation_response_size'',
        cfg p X64 [size_of p WebauthNPluginOperationResponse_struct = 16] @
        cfg p X86 [size_of p WebauthNPluginOperationResponse_struct = 8]),
      (''operation_response_field_offsets'',
        [offset_of p WebauthNPluginOperationResponse_struct ''cb_encoded_response'' = Some 0] @
        cfg p X64 [offset_of p WebauthNPluginOperationResponse_struct ''pb_encoded_response'' = Some 8] @
        cfg p X86 [offset_of p WebauthNPluginOperationResponse_struct ''pb_encoded_response'' = Some 4]),
      (''iid_constants_agree'',
        [data1 IID_IPLUGIN_AUTHENTICATOR = 0xd26bcf6f, data2 IID_IPLUGIN_AUTHENTICATOR = 0xb54c,
         data3 IID_IPLUGIN_AUTHENTICATOR = 0x43ff,
         data4 IID_IPLUGIN_AUTHENTICATOR = [0x9f, 0x06, 0xd5, 0xbf, 0x14, 0x86, 0x25, 0xf7]] @
        (let w = guid_u128 IID_IPLUGIN_AUTHENTICATOR
         in [ucast (drop_bit 96 w) = data1 IID_IPLUGIN_AUTHENTICATOR,
             ucast (drop_bit 80 w) = data2 IID_IPLUGIN_AUTHENTICATOR,
             ucast (drop_bit 64 w) = data3 IID_IPLUGIN_AUTHENTICATOR,
             map (\<lambda>i. ucast (drop_bit (56 - 8 * i) w)) [0..<8] = data4 IID_IPLUGIN_AUTHENTICATOR])),
      (''lock_status_values'', [lock_status_u32 Locked = 0, lock_status_u32 Unlocked = 1]),
      (''request_type_value'', [request_type_u32 Ctap2Cbor = 1]),
      (''add_authenticator_options_size'',
        cfg p X64 [size_of p WebauthnPluginAddAuthenticatorOptions_struct = 72]),
      (''add_authenticator_options_field_offsets'',
        (let at = offset_of p WebauthnPluginAddAuthenticatorOptions_struct
         in [at ''pwsz_authenticator_name'' = Some 0] @
            cfg p X64
              [at ''rclsid'' = Some 8, at ''pwsz_plugin_rp_id'' = Some 16,
               at ''pwsz_light_theme_logo_svg'' = Some 24, at ''pwsz_dark_theme_logo_svg'' = Some 32,
               at ''cb_authenticator_info'' = Some 40, at ''pb_authenticator_info'' = Some 48,
               at ''c_supported_rp_ids'' = Some 56, at ''ppwsz_supported_rp_ids'' = Some 64]))]"

definition abi_tests_2 :: "target \<Rightarrow> (string \<times> bool list) list" where
  "abi_tests_2 p =
     [(''add_authenticator_response_size'',
        cfg p X64 [size_of p WebauthnPluginAddAuthenticatorResponse_struct = 16] @
        cfg p X86 [size_of p WebauthnPluginAddAuthenticatorResponse_struct = 8]),
      (''add_authenticator_response_field_offsets'',
        (let at = offset_of p WebauthnPluginAddAuthenticatorResponse_struct
         in [at ''cb_op_sign_pub_key'' = Some 0] @
            cfg p X64 [at ''pb_op_sign_pub_key'' = Some 8] @
            cfg p X86 [at ''pb_op_sign_pub_key'' = Some 4])),
      (''user_verification_request_size'',
        cfg p X64 [size_of p WebauthnPluginUserVerificationRequest_struct = 32] @
        cfg p X86 [size_of p WebauthnPluginUserVerificationRequest_struct = 16]),
      (''user_verification_request_field_offsets'',
        (let at = offset_of p WebauthnPluginUserVerificationRequest_struct
         in [at ''hwnd'' = Some 0] @
            cfg p X64 [at ''p_transaction_id'' = Some 8, at ''pwsz_username'' = Some 16,
                       at ''pwsz_display_hint'' = Some 24])),
      (''user_verification_request_2_size'',
        cfg p X64 [size_of p WebauthnPluginUserVerificationRequest2_struct = 48] @
        cfg p X86 [size_of p WebauthnPluginUserVerificationRequest2_struct = 24]),
      (''user_verification_request_2_field_offsets'',
        (let at = offset_of p WebauthnPluginUserVerificationRequest2_struct
         in [at ''hwnd'' = Some 0] @
            cfg p X64 [at ''p_transaction_id'' = Some 8, at ''pwsz_username'' = Some 16,
                       at ''pwsz_display_hint'' = Some 24, at ''cb_buffer_to_sign'' = Some 32,
                       at ''pb_buffer_to_sign'' = Some 40])),
      (''credential_details_size'',
        cfg p X64 [size_of p WebauthnPluginCredentialDetails_struct = 64] @
        cfg p X86 [size_of p WebauthnPluginCredentialDetails_struct = 32] @
        [struct_align p WebauthnPluginCredentialDetails_struct = ft_align p POINTER]),
      (''credential_details_field_offsets'',
        (let at = offset_of p WebauthnPluginCredentialDetails_struct
         in [at ''cb_credential_id'' = Some 0] @
            cfg p X64
              [at ''pb_credential_id'' = Some 8, at ''pwsz_rp_id'' = Some 16,
               at ''pwsz_rp_name'' = Some 24, at ''cb_user_id'' = Some 32,
               at ''pb_user_id'' = Some 40, at ''pwsz_user_name'' = Some 48,
               at ''pwsz_user_display_name'' = Some 56]))]"

definition failing :: "(string \<times> bool list) list \<Rightarrow> string list" where
  "failing tests = map fst (filter (\<lambda>(n, asserts). \<not> pass asserts) tests)"

lemma failing_simps [simp]:
  "failing [] = []"
  "failing ((n, asserts) # ts) = (if pass asserts then failing ts else n # failing ts)"
  by (simp_all add: failing_def)

lemma abi_tests_pass: "failing (abi_tests X64 @ abi_tests_2 X64) = []"
  by code_simp

text \<open>
  On a 32-bit target one test fails: unlike its neighbours, \<open>operation_request_field_offsets\<close>
  asserts the offsets of x64 without a \<open>cfg\<close>. The fields lie at 4 and 20 there.
\<close>

lemma abi_tests_32_bit:
  "failing (abi_tests X86 @ abi_tests_2 X86) = [''operation_request_field_offsets'']"
  "offsets X86 WebauthNPluginOperationRequest_struct = [0, 4, 20, 24, 28, 32, 36]"
  by code_simp+

subsection \<open>com/classify_rpc_error.rs, com/reg_read_error.rs, ipc/mod.rs, main.rs\<close>

definition classify_rpc_error_tests :: "(string \<times> bool list) list" where
  "classify_rpc_error_tests =
     [(''broken_pipe_is_stale'',
        [classify_rpc_error (Io (IoError BrokenPipe ''broken'')) = Stale]),
      (''connection_aborted_is_stale'',
        [classify_rpc_error (Io (IoError ConnectionAborted ''aborted'')) = Stale]),
      (''unexpected_eof_is_other_for_v1'',
        [classify_rpc_error (Io (IoError UnexpectedEof ''eof'')) = Other]),
      (''not_connected_is_other_for_v1'',
        [classify_rpc_error (Io (IoError NotConnected ''no'')) = Other]),
      (''other_io_kinds_are_other'',
        map (\<lambda>kind. classify_rpc_error (Io (IoError kind ''x'')) = Other)
          [PermissionDenied, TimedOut, WouldBlock, InvalidData, Interrupted]),
      (''vault_locked_is_other'', [classify_rpc_error VaultLocked = Other]),
      (''no_credentials_is_other'', [classify_rpc_error NoCredentials = Other]),
      (''timeout_is_other'', [classify_rpc_error Timeout = Other]),
      (''rpc_error_is_other'', [classify_rpc_error (RpcError (-99) ''x'') = Other]),
      (''unsupported_algorithm_is_other'', [classify_rpc_error UnsupportedAlgorithm = Other])]"

text \<open>
  An \<open>Arc\<close> is an address here. Its count is the number of handles to it, in the test's variables
  and in the slot; a cell without a handle is freed.
\<close>

definition strong_count :: "nat list \<Rightarrow> nat option \<Rightarrow> nat \<Rightarrow> nat" where
  "strong_count handles slot a = count_list handles a + (if slot = Some a then 1 else 0)"

definition cell :: "(nat \<rightharpoonup> i32) \<Rightarrow> nat list \<Rightarrow> nat option \<Rightarrow> nat \<Rightarrow> i32 option" where
  "cell mem handles slot a = (if strong_count handles slot a = 0 then None else mem a)"

definition clear_slot_tests :: "(string \<times> bool list) list" where
  "clear_slot_tests =
     [(''clear_slot_drops_inner_arc'',
        (let inner = 0; slot = Some inner; slot' = clear_slot slot
         in [strong_count [inner] slot inner = 2, strong_count [inner] slot' inner = 1, slot' = None])),
      (''clear_slot_idempotent_on_empty'', [clear_slot (None :: nat option) = None]),
      (''clear_slot_does_not_invalidate_other_arc_clones'',
        (let in_flight_clone = 0; mem = [0 \<mapsto> 7]; slot = clear_slot (Some 0);
             mem' = mem(in_flight_clone \<mapsto> 42)
         in [cell mem [in_flight_clone] slot in_flight_clone = Some 7,
             cell mem' [in_flight_clone] slot in_flight_clone = Some 42]))]"

definition reg_read_error_tests :: "(string \<times> bool list) list" where
  "reg_read_error_tests =
     [(''error_file_not_found_maps_to_not_found'', [lstatus_to_reg_read_error 2 = NotFound]),
      (''error_path_not_found_maps_to_not_found'', [lstatus_to_reg_read_error 3 = NotFound]),
      (''error_access_denied_maps_to_access_denied'', [lstatus_to_reg_read_error 5 = AccessDenied]),
      (''error_more_data_maps_to_buffer_too_small'',
        [lstatus_to_reg_read_error 234 = BufferTooSmall]),
      (''unknown_status_maps_to_other'',
        [lstatus_to_reg_read_error 6 = OtherStatus 6, lstatus_to_reg_read_error 87 = OtherStatus 87]),
      (''negative_status_maps_to_other'',
        [lstatus_to_reg_read_error (-1) = OtherStatus (-1)])]"

definition error_mapping_tests :: "(string \<times> bool list) list" where
  "error_mapping_tests =
     [(''error_mapping_vault_locked'', [from_rpc (-32010) ''locked'' = VaultLocked]),
      (''error_mapping_no_credentials'', [from_rpc (-32020) ''not found'' = NoCredentials]),
      (''error_mapping_unauthorized'', [from_rpc (-32001) ''bad nonce'' = ClientUnauthorized]),
      (''error_mapping_unknown'',
        [case from_rpc (-99) ''custom'' of RpcError code _ \<Rightarrow> code = -99 | _ \<Rightarrow> False]),
      (''error_mapping_unsupported_algorithm'',
        [from_rpc (-32030) ''alg not supported'' = UnsupportedAlgorithm]),
      (''error_mapping_credential_excluded'',
        [from_rpc (-32031) ''already registered'' = CredentialExcluded]),
      (''error_mapping_invalid_option'',
        [from_rpc (-32041) ''options.up=false not supported'' = InvalidOption])]"

definition parse_subcommand_tests :: "(string \<times> bool list) list" where
  "parse_subcommand_tests =
     [(''parse_plugin_activated'', [parse_subcommand ''-PluginActivated'' = PluginActivated]),
      (''parse_register'', [parse_subcommand ''register'' = Register]),
      (''parse_unregister'', [parse_subcommand ''unregister'' = Unregister]),
      (''parse_smoke'', [parse_subcommand ''smoke'' = Smoke]),
      (''parse_make_credential'', [parse_subcommand ''make-credential'' = MakeCredential]),
      (''parse_empty_is_unknown'', [parse_subcommand [] = Unknown]),
      (''parse_garbage_is_unknown'', [parse_subcommand ''garbage'' = Unknown]),
      (''parse_case_sensitive'',
        [parse_subcommand ''Smoke'' = Unknown, parse_subcommand ''REGISTER'' = Unknown])]"

lemma classifier_tests_pass:
  "failing classify_rpc_error_tests = []" "failing reg_read_error_tests = []"
  "failing error_mapping_tests = []" "failing parse_subcommand_tests = []"
  "failing clear_slot_tests = []"
  by (simp_all add: clear_slot_tests_def clear_slot_def strong_count_def cell_def classify_rpc_error_tests_def reg_read_error_tests_def error_mapping_tests_def
      parse_subcommand_tests_def classify_rpc_error_def lstatus_to_reg_read_error_def from_rpc_def
      parse_subcommand_def)

text \<open>The error of a handshake without a key, and that nothing was sent or received before it.\<close>

definition contains :: "string \<Rightarrow> string \<Rightarrow> bool" where
  "contains s pat = list_ex (\<lambda>i. take (length pat) (drop i s) = pat) [0..<Suc (length s)]"

definition handshake_none_pubkey_returns_err :: "env \<Rightarrow> PipeClient \<Rightarrow> proc \<Rightarrow> bool list" where
  "handshake_none_pubkey_returns_err env client s =
     (let ((result, _), t) =
        run_state (handshake env client ''KeePassKeyWin.Provider_4fv17arhjxxvg'' ''test-nonce'' None) s
      in [case result of Err (InvalidRequest msg) \<Rightarrow> contains msg ''op-sign public key'' | _ \<Rightarrow> False])"

lemma handshake_test_passes: "pass (handshake_none_pubkey_returns_err env client s)"
proof -
  have "contains no_key_message ''op-sign public key''" by code_simp
  then show ?thesis by (simp add: handshake_none_pubkey_returns_err_def handshake_def)
qed

subsection \<open>com/uv_fallback.rs and com/uv_override.rs\<close>

definition should_fallback_tests :: "(string \<times> bool list) list" where
  "should_fallback_tests =
     [(''e_notimpl_triggers_fallback'', [should_fallback_to_v1 0x80004001]),
      (''s_ok_does_not_trigger_fallback'', [\<not> should_fallback_to_v1 0]),
      (''e_abort_does_not_trigger_fallback'', [\<not> should_fallback_to_v1 0x80004004]),
      (''other_errors_do_not_trigger_fallback'',
        [\<not> should_fallback_to_v1 0x80004005, \<not> should_fallback_to_v1 0x80070057,
         \<not> should_fallback_to_v1 0x8007000E])]"

text \<open>
  The test has a cache of its own; in the model the cache is the flag of the loaded bindings, so
  the test runs in a process that has loaded them.
\<close>

definition cache_load :: "proc \<Rightarrow> bool" where
  "cache_load s = (case uv_cache s of Some (Ok b) \<Rightarrow> v2_unimplemented b | _ \<Rightarrow> False)"

fun observe_results :: "hresult list \<Rightarrow> proc \<Rightarrow> bool list" where
  "observe_results [] s = []"
| "observe_results (hr # hrs) s =
     (let t = snd (run_state (observe_v2_result hr) s) in cache_load t # observe_results hrs t)"

definition observe_v2_result_flips_cache_on_e_notimpl_only :: "WebauthnBindings \<Rightarrow> proc \<Rightarrow> bool list" where
  "observe_v2_result_flips_cache_on_e_notimpl_only b s =
     (let s0 = s\<lparr>uv_cache := Some (Ok (b\<lparr>v2_unimplemented := False\<rparr>))\<rparr>
      in [observe_results [0, 0x80004004, 0x80004005, 0x80004001, 0] s0 =
            [False, False, False, True, True]])"

definition with_env :: "env \<Rightarrow> string option \<Rightarrow> env" where
  "with_env env value =
     env\<lparr>os := (os env)\<lparr>oe_var := (oe_var (os env))(''KEEPASSKEYWIN_FORCE_UV_V1'' := value)\<rparr>\<rparr>"

definition uv_override_tests :: "env \<Rightarrow> (string \<times> bool list) list" where
  "uv_override_tests env =
     [(''force_v1_enabled_truthy_values'',
        map (\<lambda>v. force_v1_enabled (with_env env (Some v)))
          [''1'', ''true'', ''TRUE'', ''True'', ''yes'', ''YES'', ''Yes'', '' 1 '', ''  true  '']),
      (''force_v1_disabled_when_var_absent'', [\<not> force_v1_enabled (with_env env None)]),
      (''force_v1_disabled_falsy_values'',
        map (\<lambda>v. \<not> force_v1_enabled (with_env env (Some v)))
          [''0'', ''false'', ''FALSE'', ''no'', ''off'', [], ''v1'', ''11''])]"

lemma uv_fallback_tests_pass:
  "failing should_fallback_tests = []"
  "pass (observe_v2_result_flips_cache_on_e_notimpl_only b s)"
  by (simp_all add: should_fallback_tests_def should_fallback_to_v1_def observe_v2_result_def
      observe_v2_result_flips_cache_on_e_notimpl_only_def cache_load_def Let_def)

lemma uv_override_tests_pass: "failing (uv_override_tests env) = []"
  by (simp add: uv_override_tests_def force_v1_enabled_def with_env_def to_ascii_lowercase_def
      ascii_lower_def trim_def chars_ascii is_ascii_def strip_ws_def is_whitespace_def str_of_def
      utf8_char_def char_of_def bit_Suc_0_iff)

subsection \<open>The caches of com/request_sig.rs and com/webauthnplugin_ext.rs\<close>

text \<open>
  Two calls see the same slot. Equal addresses of the two references are equal contents here; the
  address itself does not exist.
\<close>

definition same_slot :: "('e + 'a) m \<Rightarrow> proc \<Rightarrow> bool list" where
  "same_slot get s =
     (let (first, t) = run_state get s; (second, _) = run_state get t
      in (case (first, second) of
            (Ok _, Ok _) \<Rightarrow> []
          | (Err a, Err b) \<Rightarrow> [a = b]
          | _ \<Rightarrow> [False]))"

definition key_cache_fail_closed :: "env \<Rightarrow> proc \<Rightarrow> bool list" where
  "key_cache_fail_closed env s = same_slot (get_signing_key_bytes env) s"

definition bindings_cached_after_first_call :: "env \<Rightarrow> proc \<Rightarrow> bool list" where
  "bindings_cached_after_first_call env s = same_slot (cred_bindings env) s"

text \<open>The calls of the test pass null, which the cached error keeps from being read.\<close>

definition new_wrappers_share_cached_bindings ::
  "env \<Rightarrow> WebauthnPluginCredentialDetails \<Rightarrow> os_credential \<Rightarrow> proc \<Rightarrow> bool list" where
  "new_wrappers_share_cached_bindings env details detail s =
     (let (cached, s0) = run_state (cred_bindings env) s;
          (r_add, s1) = run_state (add_credentials env details) s0;
          (r_get, s2) = run_state (get_all_credentials env) s1;
          (r_rem, s3) = run_state (remove_credentials env detail) s2
      in (case cached of
            Ok _ \<Rightarrow> []
          | Err cached_err \<Rightarrow>
              map (\<lambda>result. case result of Ok _ \<Rightarrow> False | Err msg \<Rightarrow> msg = cached_err)
                [map_sum id (\<lambda>_. ()) r_add, map_sum id (\<lambda>_. ()) r_get, map_sum id (\<lambda>_. ()) r_rem]))"

definition free_credential_details_array_noop_on_no_bindings :: "env \<Rightarrow> proc \<Rightarrow> bool list" where
  "free_credential_details_array_noop_on_no_bindings env s =
     [run_state (free_credential_details_array env 0 None) s = ((), s)]"

lemma same_slot_pass:
  assumes "\<And>x t. run_state get s = (x, t) \<Longrightarrow> run_state get t = (x, t)"
  shows "pass (same_slot get s)"
proof -
  obtain x t where run: "run_state get s = (x, t)" by force
  show ?thesis using run assms [OF run] by (cases x) (simp_all add: same_slot_def)
qed

lemma once_lock_tests_pass:
  "pass (key_cache_fail_closed env s)"
  "pass (bindings_cached_after_first_call env s)"
  "pass (free_credential_details_array_noop_on_no_bindings env s)"
  unfolding key_cache_fail_closed_def bindings_cached_after_first_call_def get_signing_key_bytes_def
    cred_bindings_def
  by (rule same_slot_pass, erule key_cell.again)
     (rule same_slot_pass, erule cred_cell.again,
      simp add: free_credential_details_array_noop_on_no_bindings_def free_credential_details_array_def)

lemma shared_bindings_test_passes: "pass (new_wrappers_share_cached_bindings env details detail s)"
proof -
  obtain x t where run: "run_state (cred_bindings env) s = (x, t)" by force
  note cached = cred_bindings_cached [OF cred_bindings_filled [OF run]]
  show ?thesis
    by (cases x) (simp_all add: new_wrappers_share_cached_bindings_def run cached add_credentials_def
        get_all_credentials_def remove_credentials_def split: prod.split)
qed

subsection \<open>log_filter.rs\<close>

definition quoted_eq :: string where
  "quoted_eq = [CHR 0x22, CHR ''='', CHR 0x22]"

definition log_filter_tests :: "env \<Rightarrow> (string \<times> bool list) list" where
  "log_filter_tests env =
     [(''empty_input_yields_empty_output'',
        (let r = parse env [] ''X'' in [good_directives r = [], warnings r = []])),
      (''whitespace_only_input_yields_empty_output'',
        (let r = parse env ''   ,, ,  '' ''X'' in [good_directives r = [], warnings r = []])),
      (''single_top_level_level_passes'',
        (let r = parse env ''info'' ''X'' in [good_directives r = ''info'', warnings r = []])),
      (''target_level_directive_passes'',
        (let r = parse env ''keepasskeywin_provider=debug'' ''X''
         in [good_directives r = ''keepasskeywin_provider=debug'', warnings r = []])),
      (''comma_separated_mix_preserves_order'',
        (let r = parse env ''info,foo=debug,bar=trace'' ''X''
         in [good_directives r = ''info,foo=debug,bar=trace'', warnings r = []])),
      (''invalid_level_string_is_rejected_with_warning'',
        (let r = parse env ''foo=bogus'' ''MY_VAR''
         in [good_directives r = [], length (warnings r) = 1,
             contains (warnings r ! 0) ''MY_VAR'', contains (warnings r ! 0) ''foo=bogus''])),
      (''mixed_good_and_bad_partitions_correctly'',
        (let r = parse env ''info,foo=bogus,bar=debug'' ''MY_VAR''
         in [good_directives r = ''info,bar=debug'', length (warnings r) = 1,
             contains (warnings r ! 0) ''foo=bogus''])),
      (''warning_format_quotes_the_part'',
        (let r = parse env ''='' ''X''
         in [good_directives r = [], length (warnings r) = 1, contains (warnings r ! 0) quoted_eq])),
      (''whitespace_around_directive_is_trimmed'',
        (let r = parse env ''  info  ,  foo=debug  '' ''X''
         in [good_directives r = ''info,foo=debug'', warnings r = []]))]"

text \<open>What the tests expect of the directive parser of \<open>tracing_subscriber\<close>.\<close>

definition directive_parser :: "env \<Rightarrow> bool" where
  "directive_parser env \<longleftrightarrow>
     list_all (\<lambda>d. directive_error (lib env) d = None)
       [''info'', ''keepasskeywin_provider=debug'', ''foo=debug'', ''bar=trace'', ''bar=debug''] \<and>
     list_all (\<lambda>d. directive_error (lib env) d \<noteq> None) [''foo=bogus'', ''='']"

lemma contains_infix: "contains (xs @ pat @ ys) pat"
proof -
  have "take (length pat) (drop (length xs) (xs @ pat @ ys)) = pat" by simp
  moreover have "length xs < Suc (length (xs @ pat @ ys))" by simp
  ultimately show ?thesis unfolding contains_def list_ex_iff by (metis atLeastLessThan_iff atLeastLessThan_upt le0)
qed

lemmas ascii_trim = trim_def chars_ascii is_ascii_def strip_ws_def is_whitespace_def str_of_def
  utf8_char_def char_of_def bit_Suc_0_iff

lemma test_parts:
  "parts [] = []" "parts ''   ,, ,  '' = []" "parts ''info'' = [''info'']"
  "parts ''keepasskeywin_provider=debug'' = [''keepasskeywin_provider=debug'']"
  "parts ''info,foo=debug,bar=trace'' = [''info'', ''foo=debug'', ''bar=trace'']"
  "parts ''foo=bogus'' = [''foo=bogus'']"
  "parts ''info,foo=bogus,bar=debug'' = [''info'', ''foo=bogus'', ''bar=debug'']"
  "parts ''='' = [''='']"
  "parts ''  info  ,  foo=debug  '' = [''info'', ''foo=debug'']"
  by (simp_all add: parts_def ascii_trim)

lemma test_debug:
  "debug_str table ''foo=bogus'' = CHR 0x22 # ''foo=bogus'' @ [CHR 0x22]"
  "debug_str table ''='' = quoted_eq"
  by (simp_all add: debug_str_def escape_char_def quoted_eq_def ascii_trim)

lemma warning_names:
  "contains (warning env v part e) v"
  "debug_str (escaped_debug (lib env)) part = a @ pat @ b \<Longrightarrow> contains (warning env v part e) pat"
  using contains_infix [of "[]" v] contains_infix [of "v @ '': rejected directive '' @ a" pat "b @ '': '' @ e"]
  by (simp_all add: warning_def)

theorem log_filter_tests_pass:
  assumes "directive_parser env"
  shows "failing (log_filter_tests env) = []"
proof -
  have quote: "contains (warning env v ''foo=bogus'' e) ''foo=bogus''" for v e
    by (rule warning_names(2) [where a = "[CHR 0x22]" and b = "[CHR 0x22]"]) (simp add: test_debug)
  have eq: "contains (warning env v ''='' e) quoted_eq" for v e
    by (rule warning_names(2) [where a = "[]" and b = "[]"]) (simp add: test_debug)
  show ?thesis
    using assms quote eq
    by (auto simp: log_filter_tests_def directive_parser_def parse_run test_parts accepted_def
        warning_names(1) Let_def)
qed

lemma log_filter_tests_sample:
  "failing (log_filter_tests (sample_env\<lparr>lib := (lib sample_env)
     \<lparr>directive_error := (\<lambda>d. if d \<in> {''foo=bogus'', ''=''} then Some ''bad'' else None)\<rparr>\<rparr>)) = []"
  by (rule log_filter_tests_pass) (simp add: directive_parser_def)

subsection \<open>com/authenticator_info.rs\<close>

text \<open>
  The tests decode the encoded map with \<open>ciborium\<close> and look into the value; \<open>decode\<close> is its
  decoder.
\<close>

fun get_key :: "cbor \<Rightarrow> int \<Rightarrow> cbor option" where
  "get_key (CMap kvs) k = map_option snd (find (\<lambda>(key, _). key = CInteger k) kvs)"
| "get_key _ k = None"

fun array_items :: "cbor option \<Rightarrow> cbor list option" where
  "array_items (Some (CArray xs)) = Some xs"
| "array_items _ = None"

fun map_items :: "cbor option \<Rightarrow> (cbor \<times> cbor) list option" where
  "map_items (Some (CMap kvs)) = Some kvs"
| "map_items _ = None"

definition some_item :: "('a \<Rightarrow> bool) \<Rightarrow> 'a list option \<Rightarrow> bool" where
  "some_item P xs = (case xs of Some xs \<Rightarrow> list_ex P xs | None \<Rightarrow> False)"

definition has_field :: "string \<Rightarrow> cbor \<Rightarrow> cbor \<Rightarrow> bool" where
  "has_field k v entry = some_item (\<lambda>kv. kv = (CText k, v)) (map_items (Some entry))"

definition authenticator_info_tests :: "env \<Rightarrow> (bytes \<Rightarrow> cbor) \<Rightarrow> (string \<times> bool list) list" where
  "authenticator_info_tests env decode =
     (let m = decode (authenticator_get_info_cbor env);
          versions = array_items (get_key m 1);
          options = map_items (get_key m 4);
          algorithms = array_items (get_key m 10);
          rs256 = (\<lambda>entry. has_field ''alg'' (CInteger (-257)) entry)
      in [(''aaguid_is_not_all_zeros'',
            [list_ex (\<lambda>b. b \<noteq> 0) KEEPASSKEYWIN_AAGUID, length KEEPASSKEYWIN_AAGUID = 16]),
          (''versions_include_fido_2_1'',
            [some_item (\<lambda>v. v = CText ''FIDO_2_1'') versions,
             some_item (\<lambda>v. v = CText ''FIDO_2_0'') versions]),
          (''aaguid_key_roundtrips'', [get_key m 3 = Some (CBytes KEEPASSKEYWIN_AAGUID)]),
          (''options_flags_present'',
            map (\<lambda>required. some_item (\<lambda>kv. kv = (CText required, CBool True)) options)
              [''rk'', ''up'', ''uv'']),
          (''transports_and_algorithms_present'',
            [array_items (get_key m 9) \<noteq> None,
             some_item (has_field ''alg'' (CInteger (-7))) algorithms,
             some_item (has_field ''alg'' (CInteger (-257))) algorithms]),
          (''algorithms_include_rs256'',
            (case Option.bind algorithms (find rs256) of
               None \<Rightarrow> [False]
             | Some entry \<Rightarrow> [has_field ''type'' (CText ''public-key'') entry]))])"

theorem authenticator_info_tests_pass:
  assumes "decode (cbor_encode (lib env) get_info) = get_info"
  shows "failing (authenticator_info_tests env decode) = []"
proof -
  have "decode (authenticator_get_info_cbor env) = get_info"
    using assms by (simp add: authenticator_get_info_cbor_def)
  then show ?thesis
    by (simp add: authenticator_info_tests_def get_info_def some_item_def has_field_def
        KEEPASSKEYWIN_AAGUID_def)
qed

subsection \<open>com/server.rs\<close>

definition server_constant_tests :: "(string \<times> bool list) list" where
  "server_constant_tests =
     [(''iid_constant_correct'',
        [data1 IID_IPLUGIN_AUTHENTICATOR = 0xd26bcf6f, data2 IID_IPLUGIN_AUTHENTICATOR = 0xb54c,
         data3 IID_IPLUGIN_AUTHENTICATOR = 0x43ff,
         data4 IID_IPLUGIN_AUTHENTICATOR = [0x9f, 0x06, 0xd5, 0xbf, 0x14, 0x86, 0x25, 0xf7]]),
      (''plugin_lock_status_values'', [lock_status_u32 Locked = 0, lock_status_u32 Unlocked = 1]),
      (''request_type_cbor_value'', [request_type_u32 Ctap2Cbor = 1])]"

lemma server_constant_tests_pass: "failing server_constant_tests = []"
  by code_simp

text \<open>
  \<open>b64url\<close> is the encoder of the tests, and \<open>expect_err\<close> the field a failed parse names.
\<close>

definition expect_err :: "env \<Rightarrow> (string \<times> json) list \<Rightarrow> string \<Rightarrow> bool list" where
  "expect_err env v expected =
     (case parse_add_credentials_fields env (JObject v) of Err got \<Rightarrow> [got = expected] | Ok _ \<Rightarrow> [False])"

definition happy_path :: "env \<Rightarrow> (bytes \<Rightarrow> string) \<Rightarrow> bool list" where
  "happy_path env b64url =
     (let cred_id = [1, 2, 3, 4, 5];
          user_id = [0xaa, 0xbb, 0xcc];
          v = JObject
            [(''cbor'', JString ''ignored''),
             (''credentialIdB64Url'', JString (b64url cred_id)),
             (''rpId'', JString ''example.com''),
             (''rpName'', JString ''Example Site''),
             (''userHandleB64Url'', JString (b64url user_id)),
             (''userName'', JString ''alice''),
             (''userDisplayName'', JString ''Alice Smith'')]
      in (case parse_add_credentials_fields env v of
            Err _ \<Rightarrow> [False]
          | Ok fs \<Rightarrow>
              [f_credential_id fs = cred_id, f_user_handle fs = user_id] @
              map (\<lambda>w. w \<noteq> [] \<and> last w = 0)
                [f_rp_id_w fs, f_rp_name_w fs, f_user_name_w fs, f_user_disp_w fs] @
              [from_utf16 (butlast (f_rp_id_w fs)) = Some ''example.com'',
               from_utf16 (butlast (f_rp_name_w fs)) = Some ''Example Site'']))"

definition missing_field_tests :: "env \<Rightarrow> (bytes \<Rightarrow> string) \<Rightarrow> (string \<times> bool list) list" where
  "missing_field_tests env b64url =
     [(''parse_add_credentials_fields_missing_credential_id'',
        expect_err env
          [(''rpId'', JString ''example.com''), (''rpName'', JString ''Example''),
           (''userHandleB64Url'', JString (b64url [0x78])), (''userName'', JString ''alice''),
           (''userDisplayName'', JString ''Alice'')] ''credentialIdB64Url''),
      (''parse_add_credentials_fields_missing_rp_id'',
        expect_err env
          [(''credentialIdB64Url'', JString (b64url [0x78])), (''rpName'', JString ''Example''),
           (''userHandleB64Url'', JString (b64url [0x78])), (''userName'', JString ''alice''),
           (''userDisplayName'', JString ''Alice'')] ''rpId''),
      (''parse_add_credentials_fields_missing_user_display_name'',
        expect_err env
          [(''credentialIdB64Url'', JString (b64url [0x78])), (''rpId'', JString ''example.com''),
           (''rpName'', JString ''Example''), (''userHandleB64Url'', JString (b64url [0x78])),
           (''userName'', JString ''alice'')] ''userDisplayName''),
      (''parse_add_credentials_fields_bad_base64'',
        expect_err env
          [(''credentialIdB64Url'', JString ''AAAA==''), (''rpId'', JString ''example.com''),
           (''rpName'', JString ''Example''), (''userHandleB64Url'', JString (b64url [0x78])),
           (''userName'', JString ''alice''), (''userDisplayName'', JString ''Alice'')]
          ''credentialIdB64Url decode'')]"

definition empty_strings_ok :: "env \<Rightarrow> (bytes \<Rightarrow> string) \<Rightarrow> bool list" where
  "empty_strings_ok env b64url =
     (case parse_add_credentials_fields env (JObject
             [(''credentialIdB64Url'', JString (b64url [0x78])), (''rpId'', JString []),
              (''rpName'', JString []), (''userHandleB64Url'', JString (b64url [0x78])),
              (''userName'', JString []), (''userDisplayName'', JString [])]) of
        Err _ \<Rightarrow> [False]
      | Ok fs \<Rightarrow>
          [f_rp_id_w fs = [0], f_rp_name_w fs = [0], f_user_name_w fs = [0],
           f_user_disp_w fs = [0]])"

text \<open>The documented behaviour of \<open>URL_SAFE_NO_PAD\<close> that the tests use.\<close>

definition url_safe_no_pad :: "env \<Rightarrow> (bytes \<Rightarrow> string) \<Rightarrow> bool" where
  "url_safe_no_pad env b64url \<longleftrightarrow>
     (\<forall>bs. b64url_decode (lib env) (b64url bs) = Some bs) \<and>
     b64url_decode (lib env) ''AAAA=='' = None"

theorem add_credentials_tests_pass:
  assumes "url_safe_no_pad env b64url"
  shows "pass (happy_path env b64url)" and "failing (missing_field_tests env b64url) = []"
    and "pass (empty_strings_ok env b64url)"
proof -
  have str: "is_str ''example.com''" "is_str ''Example Site''"
    by (rule ascii_is_str, code_simp)+
  have no_text: "encode_utf16 [] = []"
    by (simp add: encode_utf16_def chars_ascii is_ascii_def)
  show "pass (happy_path env b64url)"
    using assms str
    by (simp add: happy_path_def parse_add_credentials_fields_def str_field_def url_safe_no_pad_def
        encode_utf16_nul_def)
  show "failing (missing_field_tests env b64url) = []"
    using assms by (simp add: missing_field_tests_def expect_err_def
        parse_add_credentials_fields_def str_field_def url_safe_no_pad_def)
  show "pass (empty_strings_ok env b64url)"
    using assms by (simp add: empty_strings_ok_def parse_add_credentials_fields_def str_field_def
        url_safe_no_pad_def encode_utf16_nul_def no_text)
qed

lemma byte_char [simp]: "word_of_nat (of_char (char_of (unat (b :: u8))) :: nat) = b"
proof -
  have "unat b < 256" using unsigned_less [of b, where ?'a = nat] by simp
  then show ?thesis by simp
qed

lemma url_safe_no_pad_sample:
  "url_safe_no_pad
     (sample_env\<lparr>lib := (lib sample_env)\<lparr>b64url_decode :=
        (\<lambda>x. if x \<noteq> [] \<and> hd x = CHR ''x''
             then Some (map (\<lambda>c. word_of_nat (of_char c :: nat)) (tl x)) else None)\<rparr>\<rparr>)
     (\<lambda>bs. CHR ''x'' # map (\<lambda>b. char_of (unat b)) bs)"
proof -
  have "map ((\<lambda>c. word_of_nat (of_char c :: nat)) \<circ> (\<lambda>b. char_of (unat b))) bs = (bs :: bytes)" for bs
    by (rule map_idI) (simp only: o_apply byte_char)
  then show ?thesis by (simp add: url_safe_no_pad_def)
qed

text \<open>
  \<open>make_credential_cbor\<close> and the assertion request are built with \<open>passkey-types\<close> and \<open>ciborium\<close>.
\<close>

definition prompt_hint_tests :: "env \<Rightarrow> (string \<Rightarrow> bytes) \<Rightarrow> bytes \<Rightarrow> bytes \<Rightarrow> (string \<times> bool list) list" where
  "prompt_hint_tests env make_credential_cbor bad assertion =
     [(''extract_hint_from_make_credential'',
        [extract_prompt_hint env (make_credential_cbor ''alice@example.com'') MAKE_CREDENTIAL =
           ''alice@example.com'']),
      (''extract_hint_malformed_cbor_fallback'',
        [extract_prompt_hint env bad MAKE_CREDENTIAL = ''KeePassKeyWin'']),
      (''extract_hint_get_assertion_fallback'',
        [extract_prompt_hint env assertion GET_ASSERTION = ''KeePassKeyWin''])]"

theorem prompt_hint_tests_pass:
  assumes "cbor_user_name (lib env) (make_credential_cbor ''alice@example.com'') =
      Some ''alice@example.com''"
    and "cbor_user_name (lib env) bad = None" and "cbor_user_name (lib env) assertion = None"
  shows "failing (prompt_hint_tests env make_credential_cbor bad assertion) = []"
  using assms by (simp add: prompt_hint_tests_def extract_prompt_hint_def)

subsection \<open>ctap/mod.rs and ipc/mod.rs: the text of the parameters\<close>

definition in_quotes :: "string \<Rightarrow> string" where
  "in_quotes w = CHR 0x22 # w @ [CHR 0x22]"

definition member :: "string \<Rightarrow> string \<Rightarrow> string" where
  "member k text = in_quotes k @ '':'' @ text"

text \<open>\<open>to_string\<close> is the text of \<open>serde_json\<close>; the structs are the objects they serialise to.\<close>

definition create_passkey_params_serialize :: "(json \<Rightarrow> string) \<Rightarrow> bool list" where
  "create_passkey_params_serialize to_string =
     (let text = to_string (create_passkey_json
            \<lparr>rp_id = ''example.com'', rp_name = ''Example'', user_handle = ''dXNlcg=='',
             user_name = ''user@example.com'', user_display_name = ''Test User''\<rparr>)
      in [contains text (member ''rpId'' (in_quotes ''example.com'')),
          contains text (member ''rpName'' (in_quotes ''Example'')),
          contains text (member ''userHandle'' (in_quotes ''dXNlcg==''))])"

definition sign_assertion_params_serialize :: "(json \<Rightarrow> string) \<Rightarrow> bool list" where
  "sign_assertion_params_serialize to_string =
     (let text = to_string (sign_assertion_json
            \<lparr>sap_credential_id = ''cred1'', sap_auth_data = ''auth=='',
             sap_client_data_hash = ''hash==''\<rparr>)
      in [contains text (member ''credentialId'' (in_quotes ''cred1'')),
          contains text (member ''authData'' (in_quotes ''auth=='')),
          contains text (member ''clientDataHash'' (in_quotes ''hash==''))])"

definition request_json :: "RpcRequest \<Rightarrow> json" where
  "request_json req = JObject
     [(''jsonrpc'', JString (jsonrpc req)), (''id'', JNumber (uint (req_id req))),
      (''method'', JString (req_method req)), (''params'', req_params req)]"

definition rpc_request_serializes_correctly :: "(json \<Rightarrow> string) \<Rightarrow> bool list" where
  "rpc_request_serializes_correctly to_string =
     (let text = to_string (request_json
            \<lparr>jsonrpc = ''2.0'', req_id = 1, req_method = ''test.method'',
             req_params = JObject [(''x'', JNumber 42)]\<rparr>)
      in [contains text (member ''jsonrpc'' (in_quotes ''2.0'')),
          contains text (member ''method'' (in_quotes ''test.method'')),
          contains text (member ''x'' ''42'')])"

text \<open>
  The compact format of \<open>serde_json\<close>: an object contains its members, a name without characters
  to escape is quoted as it is, and a number is its digits.
\<close>

definition plain :: "string \<Rightarrow> bool" where
  "plain w = list_all (\<lambda>c. 32 \<le> (of_char c :: nat) \<and> (of_char c :: nat) < 127 \<and> c \<noteq> CHR 0x22 \<and> c \<noteq> CHR 0x5C) w"

definition compact :: "(json \<Rightarrow> string) \<Rightarrow> bool" where
  "compact to_string \<longleftrightarrow>
     (\<forall>kvs k v. (k, v) \<in> set kvs \<and> plain k \<longrightarrow>
        (\<exists>before after. to_string (JObject kvs) = before @ member k (to_string v) @ after)) \<and>
     (\<forall>w. plain w \<longrightarrow> to_string (JString w) = in_quotes w) \<and>
     (\<forall>n. to_string (JNumber n) = show_int n)"

lemma compact_member:
  assumes "compact to_string" and "(k, v) \<in> set kvs" and "plain k"
    and "to_string v = a @ pat @ b"
  shows "contains (to_string (JObject kvs)) pat"
    and "a = [] \<Longrightarrow> b = [] \<Longrightarrow> contains (to_string (JObject kvs)) (member k pat)"
proof -
  obtain x y where split: "to_string (JObject kvs) = x @ member k (to_string v) @ y"
    using assms unfolding compact_def by blast
  show "contains (to_string (JObject kvs)) pat"
    using contains_infix [of "x @ in_quotes k @ '':'' @ a" pat "b @ y"] split assms(4)
    by (simp add: member_def)
  show "a = [] \<Longrightarrow> b = [] \<Longrightarrow> contains (to_string (JObject kvs)) (member k pat)"
    using contains_infix [of x "member k pat" y] split assms(4) by (simp add: member_def)
qed

lemma compact_string:
  assumes "compact to_string" and "(k, JString w) \<in> set kvs" and "plain k" and "plain w"
  shows "contains (to_string (JObject kvs)) (member k (in_quotes w))"
  by (rule compact_member(2) [OF assms(1-3), where a = "[]" and b = "[]"])
    (use assms in \<open>simp_all add: compact_def\<close>)

theorem serialize_tests_pass:
  assumes "compact to_string"
  shows "pass (create_passkey_params_serialize to_string)" and "pass (sign_assertion_params_serialize to_string)"
proof -
  have names: "plain ''rpId''" "plain ''rpName''" "plain ''userHandle''" "plain ''credentialId''"
      "plain ''authData''" "plain ''clientDataHash''"
    and texts: "plain ''example.com''" "plain ''Example''" "plain ''dXNlcg==''" "plain ''cred1''"
      "plain ''auth==''" "plain ''hash==''"
    by code_simp+
  show "pass (create_passkey_params_serialize to_string)" and "pass (sign_assertion_params_serialize to_string)"
    by (simp_all add: create_passkey_params_serialize_def sign_assertion_params_serialize_def Let_def
        create_passkey_json_def sign_assertion_json_def compact_string [OF assms] names texts)
qed

theorem rpc_request_test_passes:
  assumes c: "compact to_string"
  shows "pass (rpc_request_serializes_correctly to_string)"
proof -
  have plain: "plain ''jsonrpc''" "plain ''2.0''" "plain ''method''" "plain ''test.method''"
      "plain ''params''" "plain ''x''"
    by code_simp+
  have "show_int 42 = ''42''" by code_simp
  then have "to_string (JNumber 42) = ''42''" using c by (simp add: compact_def)
  then obtain a b where eq: "to_string (JObject [(''x'', JNumber 42)]) = a @ member ''x'' ''42'' @ b"
    using c plain(6) unfolding compact_def by (metis list.set_intros(1))
  have "contains (to_string (JObject [(''jsonrpc'', JString ''2.0''), (''id'', JNumber 1),
      (''method'', JString ''test.method''), (''params'', JObject [(''x'', JNumber 42)])])) (member ''x'' ''42'')"
    by (rule compact_member(1) [OF c _ plain(5) eq]) simp
  then show ?thesis
    by (simp add: rpc_request_serializes_correctly_def request_json_def Let_def
        compact_string [OF c] plain)
qed

end
