(* ===== verification/Recovery.thy ===== *)
theory Recovery
  imports Pipe_Session
begin

text \<open>
  A call over a pipe whose other end has gone. When the plugin has been restarted, the old
  connection breaks at the first write, a new one can be opened, and the plugin answers the
  handshake and then the call: the retrying call returns the plugin's answer and leaves the
  new connection in place. This is the path of \<open>take_call_with_retry\<close> that the tests of the
  crate cannot run.
\<close>

definition sent :: "nat \<Rightarrow> string \<Rightarrow> event list" where
  "sent c line = [Pipe (PipeWrite c line None), Pipe (PipeWrite c [newline] None), Pipe (PipeFlush c None)]"

text \<open>A call whose three writes succeed: the read decides.\<close>

lemma call_over:
  assumes "ser_request (lib env) \<lparr>jsonrpc = ''2.0'', req_id = next_id p, req_method = rpc, req_params = ps\<rparr> = Ok line"
    and "\<And>h d. pe_write (pipes env) h (transport p) d = None" and "\<And>h. pe_flush (pipes env) h (transport p) = None"
    and "pe_read (pipes env) (trace s @ sent (transport p) line) (transport p) = Ok buf"
  shows "run_state (call_value env p rpc ps) s =
    ((case de_response (lib env) (if buf \<noteq> [] \<and> last buf = newline then butlast buf else buf) of
        Err e \<Rightarrow> Err (Json e) | Ok r \<Rightarrow> rpc_result (\<lambda>v. Ok v) r, p\<lparr>next_id := next_id p + 1\<rparr>),
     s\<lparr>trace := trace s @ sent (transport p) line @ [Pipe (PipeRead (transport p) (Ok buf))]\<rparr>)"
  using assms by (simp add: call_def Let_def send_line_def recv_line_def pipe_write_def
      pipe_flush_def pipe_read_def sent_def split: sum.split)

text \<open>A call whose first write fails.\<close>

lemma call_broken:
  assumes "ser_request (lib env) \<lparr>jsonrpc = ''2.0'', req_id = next_id p, req_method = rpc, req_params = ps\<rparr> = Ok line"
    and "pe_write (pipes env) (trace s) (transport p) line = Some e"
  shows "run_state (call_value env p rpc ps) s =
    ((Err (Io e), p\<lparr>next_id := next_id p + 1\<rparr>),
     s\<lparr>trace := trace s @ [Pipe (PipeWrite (transport p) line (Some e))]\<rparr>)"
  using assms by (simp add: call_def Let_def send_line_def pipe_write_def)

lemma connect_at_once:
  assumes "pe_open (pipes env) (trace s) (pipe_name sid) = Ok c"
  shows "run_state (connect env sid) s =
    (Ok \<lparr>transport = c, next_id = 1\<rparr>, s\<lparr>trace := trace s @ [Pipe (PipeOpen (pipe_name sid) (Ok c))]\<rparr>)"
  using assms by (simp add: connect_def delays_ms_def try_connect_def)

lemma hello_key_cached:
  "key_cache s = Some (Ok key) \<Longrightarrow> run_state (get_op_sign_pub_key_bytes_for_hello env) s = (Some key, s)"
  by (simp add: get_op_sign_pub_key_bytes_for_hello_def get_signing_key_bytes_def key_cell.full)

text \<open>The replies read from a connection so far.\<close>

definition replies :: "event list \<Rightarrow> nat \<Rightarrow> nat" where
  "replies h c = length (filter (\<lambda>e. case e of Pipe (PipeRead c' _) \<Rightarrow> c' = c | _ \<Rightarrow> False) h)"

lemma replies_append [simp]: "replies (xs @ ys) c = replies xs c + replies ys c"
  by (simp add: replies_def)

lemma replies_sent [simp]: "replies (sent c line) d = 0"
  by (simp add: replies_def sent_def)

text \<open>
  A restarted plugin: the connection \<open>old\<close> is broken, \<open>c\<close> is the one that can be opened; the
  first line it answers accepts the handshake, the later ones carry the result \<open>v\<close>. Its nonce
  is in the registry.
\<close>

definition answers :: "env \<Rightarrow> string \<Rightarrow> (json option \<Rightarrow> bool) \<Rightarrow> bool" where
  "answers env buf P \<longleftrightarrow>
     (\<exists>l r. buf = l @ [newline] \<and> de_response (lib env) l = Ok r \<and> resp_error r = None \<and> P (resp_result r))"

definition plugin_restarted :: "env \<Rightarrow> nat \<Rightarrow> nat \<Rightarrow> json \<Rightarrow> bool" where
  "plugin_restarted env old c v \<longleftrightarrow>
     (\<forall>h d. \<exists>m. pe_write (pipes env) h old d = Some (IoError BrokenPipe m)) \<and>
     (\<forall>h n. pe_open (pipes env) h n = Ok c) \<and>
     (\<forall>h d. pe_write (pipes env) h c d = None) \<and> (\<forall>h. pe_flush (pipes env) h c = None) \<and>
     (\<forall>h. \<exists>buf. pe_read (pipes env) h c = Ok buf \<and>
        answers env buf (\<lambda>x. 0 < replies h c \<longrightarrow> x = Some v)) \<and>
     (\<forall>req. \<exists>line. ser_request (lib env) req = Ok line) \<and>
     (\<forall>s. \<exists>nonce. fst (run_state (read_handshake_nonce env) s) = Some (Ok nonce))"

lemma nonce_read_run:
  "\<exists>r. run_state (read_handshake_nonce env) s =
     (fst (run_state (read_handshake_nonce env) s), s\<lparr>trace := trace s @ [RegGet r]\<rparr>)"
  by (auto simp: read_handshake_nonce_def reg_get_value_def Let_def split: option.split)

lemma call_answered:
  assumes restarted: "plugin_restarted env old c v" and p: "transport p = c"
  obtains line buf x where "run_state (call_value env p rpc ps) s =
      ((Ok x, p\<lparr>next_id := next_id p + 1\<rparr>),
       s\<lparr>trace := trace s @ sent c line @ [Pipe (PipeRead c (Ok buf))]\<rparr>)"
    and "0 < replies (trace s) c \<Longrightarrow> x = v"
proof -
  obtain line where line: "ser_request (lib env)
      \<lparr>jsonrpc = ''2.0'', req_id = next_id p, req_method = rpc, req_params = ps\<rparr> = Ok line"
    using restarted unfolding plugin_restarted_def by blast
  obtain buf where buf: "pe_read (pipes env) (trace s @ sent c line) c = Ok buf"
      "answers env buf (\<lambda>x. 0 < replies (trace s) c \<longrightarrow> x = Some v)"
    using restarted unfolding plugin_restarted_def by (metis add.right_neutral replies_append replies_sent)
  then obtain l r where "buf = l @ [newline]" "de_response (lib env) l = Ok r" "resp_error r = None"
      "0 < replies (trace s) c \<Longrightarrow> resp_result r = Some v"
    by (auto simp: answers_def)
  with line buf(1) restarted p show thesis
    by (intro that [of "case resp_result r of Some x \<Rightarrow> x | None \<Rightarrow> JNull" line buf])
      (simp_all add: call_over [where line = line] plugin_restarted_def rpc_result_def)
qed

lemma handshake_answered:
  assumes "plugin_restarted env old c v"
  obtains line buf where "run_state (handshake env \<lparr>transport = c, next_id = 1\<rparr> pkg nonce (Some key)) s =
      ((Ok (), \<lparr>transport = c, next_id = 2\<rparr>),
       s\<lparr>trace := trace s @ sent c line @ [Pipe (PipeRead c (Ok buf))]\<rparr>)"
  by (rule call_answered [OF assms, of "\<lparr>transport = c, next_id = 1\<rparr>" "''keepasskeywin.hello''"
        "hello_params pkg nonce (b64_encode (lib env) key)" s])
    (simp_all add: handshake_def)

lemma session_restarted:
  assumes "plugin_restarted env old c v" and "key_cache s = Some (Ok key)"
  obtains r line buf where "run_state (connect_and_handshake env sid) s =
      (Some (Ok \<lparr>transport = c, next_id = 2\<rparr>),
       s\<lparr>trace := trace s @ [Pipe (PipeOpen (pipe_name sid) (Ok c)), RegGet r] @ sent c line @
           [Pipe (PipeRead c (Ok buf))]\<rparr>)"
proof -
  let ?s1 = "s\<lparr>trace := trace s @ [Pipe (PipeOpen (pipe_name sid) (Ok c))]\<rparr>"
  obtain nonce where nonce: "fst (run_state (read_handshake_nonce env) ?s1) = Some (Ok nonce)"
    using assms(1) unfolding plugin_restarted_def by blast
  with nonce_read_run [of env ?s1] obtain r where
    read: "run_state (read_handshake_nonce env) ?s1 = (Some (Ok nonce), ?s1\<lparr>trace := trace ?s1 @ [RegGet r]\<rparr>)"
    by auto
  have conn: "run_state (connect env sid) s = (Ok \<lparr>transport = c, next_id = 1\<rparr>, ?s1)"
    using assms(1) by (intro connect_at_once) (simp add: plugin_restarted_def)
  let ?s2 = "?s1\<lparr>trace := trace ?s1 @ [RegGet r]\<rparr>"
  obtain line buf where hello:
    "run_state (handshake env \<lparr>transport = c, next_id = 1\<rparr> KEEPASSKEYWIN_PKG_FAMILY nonce (Some key)) ?s2 =
      ((Ok (), \<lparr>transport = c, next_id = 2\<rparr>), ?s2\<lparr>trace := trace ?s2 @ sent c line @ [Pipe (PipeRead c (Ok buf))]\<rparr>)"
    by (rule handshake_answered [OF assms(1)])
  have "key_cache ?s2 = Some (Ok key)" using assms(2) by simp
  note key = hello_key_cached [OF this]
  show thesis
    by (rule that [of r line buf])
      (simp add: connect_and_handshake_def conn read [simplified] key [simplified] hello [simplified])
qed

fun is_link :: "event \<Rightarrow> bool" where
  "is_link (Pipe (PipeOpen _ _)) = True"
| "is_link (Pipe (PipeDrop _)) = True"
| "is_link _ = False"

text \<open>The retry itself: the old connection breaks on the first write, the new session opens one
  connection, and the repeated call returns the result of its answer.\<close>

lemma retry_restarted:
  assumes "plugin_restarted env (transport p) c v" and "key_cache s = Some (Ok key)"
  obtains es where "run_state (call_or_reconnect env sess p rpc params) s =
      (Some (Ok v, Some \<lparr>transport = c, next_id = 3\<rparr>), s\<lparr>trace := trace s @ es\<rparr>)"
    and "filter is_link es = [Pipe (PipeDrop (transport p)), Pipe (PipeOpen (pipe_name sess) (Ok c))]"
proof -
  obtain line where line: "ser_request (lib env)
      \<lparr>jsonrpc = ''2.0'', req_id = next_id p, req_method = rpc, req_params = params\<rparr> = Ok line"
    using assms(1) unfolding plugin_restarted_def by blast
  obtain m where broken: "pe_write (pipes env) (trace s) (transport p) line = Some (IoError BrokenPipe m)"
    using assms(1) unfolding plugin_restarted_def by blast
  note first = call_broken [OF line broken]
  let ?s1 = "s\<lparr>trace := trace s @ [Pipe (PipeWrite (transport p) line (Some (IoError BrokenPipe m))),
      Pipe (PipeDrop (transport p))]\<rparr>"
  have key: "key_cache ?s1 = Some (Ok key)" using assms(2) by simp
  obtain r hello buf where session: "run_state (connect_and_handshake env sess) ?s1 =
      (Some (Ok \<lparr>transport = c, next_id = 2\<rparr>),
       ?s1\<lparr>trace := trace ?s1 @ [Pipe (PipeOpen (pipe_name sess) (Ok c)), RegGet r] @
           sent c hello @ [Pipe (PipeRead c (Ok buf))]\<rparr>)" (is "_ = (_, ?s2)")
    by (rule session_restarted [OF assms(1) key])
  obtain line2 buf2 x where second: "run_state (call_value env \<lparr>transport = c, next_id = 2\<rparr> rpc params) ?s2 =
      ((Ok x, \<lparr>transport = c, next_id = 3\<rparr>), ?s2\<lparr>trace := trace ?s2 @ sent c line2 @ [Pipe (PipeRead c (Ok buf2))]\<rparr>)"
    and "0 < replies (trace ?s2) c \<Longrightarrow> x = v"
    by (rule call_answered [OF assms(1), of "\<lparr>transport = c, next_id = 2\<rparr>" rpc params ?s2]) simp_all
  then have x: "x = v" by (simp add: replies_def)
  have links: "filter is_link (sent c l) = []" for l by (simp add: sent_def)
  let ?es = "[Pipe (PipeWrite (transport p) line (Some (IoError BrokenPipe m))), Pipe (PipeDrop (transport p)),
      Pipe (PipeOpen (pipe_name sess) (Ok c)), RegGet r] @ sent c hello @ [Pipe (PipeRead c (Ok buf))] @
      sent c line2 @ [Pipe (PipeRead c (Ok buf2))]"
  have "run_state (call_or_reconnect env sess p rpc params) s =
      (Some (Ok v, Some \<lparr>transport = c, next_id = 3\<rparr>), s\<lparr>trace := trace s @ ?es\<rparr>)"
    using session second by (simp add: call_or_reconnect_def first classify_rpc_error_def drop_client_def x)
  then show thesis by (rule that) (simp add: links)
qed

text \<open>
  C3. Recovery. When the plugin has been restarted and the signing key is known, a call over
  the broken connection still returns the plugin's answer: the old connection is closed before
  the new one is opened, nothing else is opened or closed, and the state holds the new
  connection, with the request counter after the handshake and the call; the shared slot and
  the other states are as they were.
\<close>

theorem restarted_plugin_recovers:
  assumes "plugin_restarted env (transport p) c v" and "pipe_of a s = Some p" and "key_cache s = Some (Ok key)"
  shows "case run_state (take_call_with_retry env a rpc params) s of (r, t) \<Rightarrow>
    r = Some (Some (Ok v)) \<and> pipe_of a t = Some \<lparr>transport = c, next_id = 3\<rparr> \<and>
    heap t = (heap s)(a := heap t a) \<and> shared_state t = shared_state s \<and>
    evs is_link t = evs is_link s @
      [Pipe (PipeDrop (transport p)), Pipe (PipeOpen (pipe_name (session_of a s)) (Ok c))]"
proof -
  from assms(2) obtain st where st: "heap s a = Some st" "pipe st = Some p"
    by (auto simp: pipe_of_def split: option.splits)
  let ?s0 = "snd (run_state (set_pipe a None) s)"
  have key: "key_cache ?s0 = Some (Ok key)" using assms(3) by (simp add: set_pipe_def)
  obtain es where fut: "run_state (call_or_reconnect env (session_of a s) p rpc params) ?s0 =
      (Some (Ok v, Some \<lparr>transport = c, next_id = 3\<rparr>), ?s0\<lparr>trace := trace ?s0 @ es\<rparr>)"
    and links: "filter is_link es = [Pipe (PipeDrop (transport p)), Pipe (PipeOpen (pipe_name (session_of a s)) (Ok c))]"
    by (rule retry_restarted [OF assms(1) key])
  show ?thesis
  proof (rule take_some [OF assms(2), of env rpc params])
    fix s1 assume "run_state (call_or_reconnect env (session_of a s) p rpc params) ?s0 = (None, s1)"
    with fut show ?thesis by simp
  next
    fix r fresh s1
    assume "run_state (call_or_reconnect env (session_of a s) p rpc params) ?s0 = (Some (r, fresh), s1)"
      and run: "run_state (take_call_with_retry env a rpc params) s =
         (Some (Some r), snd (run_state (reconcile_pipe a fresh) s1))"
    with fut have "r = Ok v" "fresh = Some \<lparr>transport = c, next_id = 3\<rparr>"
        "s1 = ?s0\<lparr>trace := trace ?s0 @ es\<rparr>"
      by simp_all
    with run st show ?thesis
      by (simp add: reconcile_pipe_def set_pipe_def pipe_of_def evs_def links)
  qed
qed

text \<open>An environment after a restart, and a process that still holds the old connection.\<close>

definition restarted_env :: env where
  "restarted_env = sample_env
     \<lparr>pipes := \<lparr>pe_open = (\<lambda>_ _. Ok 1),
        pe_write = (\<lambda>_ c _. if c = 0 then Some (IoError BrokenPipe ''gone'') else None),
        pe_flush = (\<lambda>_ _. None), pe_read = (\<lambda>_ _. Ok (''ok'' @ [newline]))\<rparr>,
      os := (os sample_env)\<lparr>oe_reg := (\<lambda>_. \<lparr>rr_status = 0, rr_type = REG_SZ, rr_data = [0x61, 0], rr_cb = 4\<rparr>)\<rparr>,
      lib := (lib sample_env)\<lparr>de_response := (\<lambda>_. Ok
        \<lparr>resp_id = JNull, resp_result = Some (JBool True), resp_error = None\<rparr>)\<rparr>\<rparr>"

definition stale_proc :: proc where
  "stale_proc = init_proc
     \<lparr>heap := [0 \<mapsto> \<lparr>session_id = 1, pipe = Some \<lparr>transport = 0, next_id = 5\<rparr>\<rparr>],
      shared_state := Some 0, key_cache := Some (Ok [1])\<rparr>"

lemma restarted_env: "plugin_restarted restarted_env 0 1 (JBool True)"
proof -
  have "from_utf16 [0x61] = Some ''a''"
    by (simp add: from_utf16_def str_of_def utf8_char_def char_of_def bit_Suc_0_iff)
  then have "fst (run_state (read_handshake_nonce restarted_env) s) = Some (Ok ''a'')" for s
    by (simp add: read_handshake_nonce_def reg_get_value_def restarted_env_def nonce_buf_len_def)
  then show ?thesis
    by (simp add: plugin_restarted_def answers_def restarted_env_def sample_env_def)
qed

theorem restarted_plugin_recovers_witness:
  "fst (run_state (take_call_with_retry restarted_env 0 ''keepasskeywin.getLockStatus'' (JObject [])) stale_proc) =
     Some (Some (Ok (JBool True)))"
proof -
  have p: "pipe_of 0 stale_proc = Some \<lparr>transport = 0, next_id = 5\<rparr>"
    and k: "key_cache stale_proc = Some (Ok [1])"
    by (simp_all add: stale_proc_def pipe_of_def)
  have "plugin_restarted restarted_env (transport (\<lparr>transport = 0, next_id = 5\<rparr> :: PipeClient)) 1 (JBool True)"
    using restarted_env by simp
  from restarted_plugin_recovers [OF this p k, of "''keepasskeywin.getLockStatus''" "JObject []"]
  show ?thesis by (simp split: prod.splits)
qed

end
