(* ===== verification/Unix_Build.thy ===== *)
theory Unix_Build
  imports Unit_Tests Recovery
begin

text \<open>
  The code that only the build for other operating systems compiles: the socket of
  \<open>PipeClient::try_connect\<close>, the subcommands that refuse to run, and the two tests that drive
  the client against a server over that socket. The back-off around \<open>try_connect\<close> is the same
  code in both builds; it is stated once, over one attempt, and interpreted on both transports.
\<close>

subsection \<open>Connecting over a socket\<close>

definition socket_path :: "u32 \<Rightarrow> string" where
  "socket_path sid = ''/tmp/keepasskeywin-test-'' @ show_nat (unat sid) @ ''.sock''"

definition try_connect_unix :: "env \<Rightarrow> u32 \<Rightarrow> (ClientError + PipeClient) m" where
  "try_connect_unix env sid = do {
     r \<leftarrow> ask (\<lambda>h. pe_open (pipes env) h (socket_path sid)) (\<lambda>r. Pipe (PipeOpen (socket_path sid) r));
     ret (case r of Err e \<Rightarrow> Err (Io e) | Ok c \<Rightarrow> Ok \<lparr>transport = c, next_id = 1\<rparr>)
   }"

fun back_off ::
  "(ClientError + PipeClient) m \<Rightarrow> nat list \<Rightarrow> ClientError option \<Rightarrow> (ClientError + PipeClient) m" where
  "back_off once [] last_err = do {
     r \<leftarrow> once;
     ret (case r of
            Ok client \<Rightarrow> Ok client
          | Err _ \<Rightarrow> Err (case last_err of Some e \<Rightarrow> e | None \<Rightarrow> Timeout))
   }"
| "back_off once (delay # ds) last_err = do {
     r \<leftarrow> once;
     (case r of
        Ok client \<Rightarrow> ret (Ok client)
      | Err e \<Rightarrow> do { emit (Sleep delay); back_off once ds (Some e) })
   }"

definition connect_unix :: "env \<Rightarrow> u32 \<Rightarrow> (ClientError + PipeClient) m" where
  "connect_unix env sid = back_off (try_connect_unix env sid) delays_ms None"

lemma back_off_windows: "back_off (try_connect env sid) ds e = connect_loop env sid ds e"
  by (induction ds arbitrary: e) simp_all

lemma connect_windows: "connect env sid = back_off (try_connect env sid) delays_ms None"
  by (simp add: connect_def back_off_windows)

text \<open>What the back-off promises of any transport whose attempt opens once.\<close>

locale one_attempt =
  fixes once :: "(ClientError + PipeClient) m"
  assumes opens_only: "emits_only is_open once"
    and opens_once: "emits_le is_open 1 once"
    and fresh_ids: "run_state once s = (Ok c, t) \<Longrightarrow> next_id c = 1"
begin

lemma at_most: "emits_le is_open (Suc (length ds)) (back_off once ds e)"
proof (induction ds arbitrary: e)
  case Nil
  show ?case
    by (simp, rule emits_le_bind [OF opens_once emits_le_keeps, where b = 0]) (simp_all add: keeps_def)
next
  case (Cons d ds)
  have rest: "emits_le is_open (Suc (length ds)) (do { emit (Sleep d); back_off once ds (Some e') })" for e'
    by (rule emits_le_bind [OF emits_le_keeps [where n = 0] Cons.IH]) (simp_all add: keeps_def evs_def)
  have finished: "emits_le is_open (Suc (length ds)) (ret (Ok c))" for c :: PipeClient
    by (rule emits_le_keeps) (simp add: keeps_def)
  show ?case
    by (simp, rule emits_le_bind [OF opens_once, where b = "Suc (length ds)"])
      (auto intro!: emits_le_case_sum rest finished)
qed

lemma starts_at_one: "run_state (back_off once ds e) s = (Ok c, t) \<Longrightarrow> next_id c = 1"
proof (induction ds arbitrary: e s)
  case Nil
  then show ?case by (auto split: prod.splits sum.splits dest: fresh_ids)
next
  case (Cons d ds)
  then show ?case by (auto split: prod.splits sum.splits dest: fresh_ids)
qed

end

interpretation pipe_attempt: one_attempt "try_connect env sid" for env sid
  by unfold_locales
    (auto simp: try_connect_def emits_only_def emits_le_def evs_def split: sum.splits)

interpretation socket_attempt: one_attempt "try_connect_unix env sid" for env sid
  by unfold_locales
    (auto simp: try_connect_unix_def emits_only_def emits_le_def evs_def split: sum.splits)

lemma connect_attempts: "emits_le is_open 8 (connect env sid)" "emits_le is_open 8 (connect_unix env sid)"
proof -
  have eight: "Suc (length delays_ms) = 8" by (simp add: delays_ms_def)
  show "emits_le is_open 8 (connect env sid)"
    unfolding connect_windows eight [symmetric] by (rule pipe_attempt.at_most)
  show "emits_le is_open 8 (connect_unix env sid)"
    unfolding connect_unix_def eight [symmetric] by (rule socket_attempt.at_most)
qed

subsection \<open>The subcommands that only Windows has\<close>

definition refuse :: "string \<Rightarrow> int m" where
  "refuse sub = do { emit (Stderr (sub @ '' is Windows-only'')); ret 1 }"

definition run_plugin_activated_unix :: "int m" where
  "run_plugin_activated_unix = refuse ''-PluginActivated''"

definition run_register_unix :: "int m" where
  "run_register_unix = refuse ''register''"

definition run_unregister_unix :: "int m" where
  "run_unregister_unix = refuse ''unregister''"

lemma refusals:
  assumes "m \<in> {run_plugin_activated_unix, run_register_unix, run_unregister_unix}"
  shows "\<exists>l. run_state m s = (1, s\<lparr>trace := trace s @ [Stderr l]\<rparr>)"
  using assms by (auto simp: run_plugin_activated_unix_def run_register_unix_def run_unregister_unix_def
      refuse_def)

subsection \<open>The servers of the tests\<close>

text \<open>
  The server of a test is another thread; here it is the environment, which computes what the
  client reads from what the client wrote. \<open>from_slice\<close> is \<open>serde_json::from_slice\<close>, which the
  server applies to what it has read, and \<open>show_value\<close> formats a value into its reply.
\<close>

definition accepted_connections :: "event list \<Rightarrow> nat" where
  "accepted_connections h =
     length (filter (\<lambda>e. case e of Pipe (PipeOpen _ (Inr _)) \<Rightarrow> True | _ \<Rightarrow> False) h)"

text \<open>What the client has written on the connection since the last reply.\<close>

fun unread :: "nat \<Rightarrow> string \<Rightarrow> event list \<Rightarrow> string" where
  "unread c acc [] = acc"
| "unread c acc (e # es) = unread c
     (case e of
        Pipe (PipeWrite c' d None) \<Rightarrow> if c' = c then acc @ d else acc
      | Pipe (PipeRead c' _) \<Rightarrow> if c' = c then [] else acc
      | _ \<Rightarrow> acc) es"

lemma unread_append: "unread c acc (xs @ ys) = unread c (unread c acc xs) ys"
  by (induction xs arbitrary: acc) simp_all

definition reply_line :: "string \<Rightarrow> string \<Rightarrow> string" where
  "reply_line i result =
     ''{'' @ in_quotes ''jsonrpc'' @ '':'' @ in_quotes ''2.0'' @ '','' @ in_quotes ''id'' @ '':'' @ i @
     '','' @ in_quotes ''result'' @ '':'' @ result @ ''}''"

definition true_member :: "string \<Rightarrow> string" where
  "true_member k = ''{'' @ in_quotes k @ '':true}''"

text \<open>Connection 0 is dropped after its first request, connection 1 answers.\<close>

definition stale_server :: "(string \<Rightarrow> json option) \<Rightarrow> (json \<Rightarrow> string) \<Rightarrow> pipe_env" where
  "stale_server from_slice show_value =
     \<lparr>pe_open = (\<lambda>h path. Ok (accepted_connections h)),
      pe_write = (\<lambda>h c d. None), pe_flush = (\<lambda>h c. None),
      pe_read = (\<lambda>h c.
        if c = 0 then Ok []
        else (case from_slice (unread c [] h) of
                None \<Rightarrow> Ok []
              | Some req \<Rightarrow> Ok (reply_line (show_value (json_get req ''id''))
                  (true_member ''retry_succeeded'') @ [newline])))\<rparr>"

text \<open>One connection: the canned answer to hello, then an echo.\<close>

definition echo_server :: "(string \<Rightarrow> json option) \<Rightarrow> (json \<Rightarrow> string) \<Rightarrow> pipe_env" where
  "echo_server from_slice show_value =
     \<lparr>pe_open = (\<lambda>h path. Ok (accepted_connections h)),
      pe_write = (\<lambda>h c d. None), pe_flush = (\<lambda>h c. None),
      pe_read = (\<lambda>h c.
        case from_slice (unread c [] h) of
          None \<Rightarrow> Ok []
        | Some req \<Rightarrow>
            if replies h c = 0 then Ok (reply_line ''1'' (in_quotes ''ok'') @ [newline])
            else Ok (reply_line (show_value (json_get req ''id'')) (true_member ''echo'') @ [newline]))\<rparr>"

text \<open>
  What the tests use of \<open>serde_json\<close>: a request is serialised to a text that parses back to an
  object with its id, the replies from_slice to what they say, and the empty text does not from_slice.
\<close>

definition parsed_reply :: "int \<Rightarrow> json \<Rightarrow> RpcResponse" where
  "parsed_reply i result = \<lparr>resp_id = JNumber i, resp_result = Some result, resp_error = None\<rparr>"

definition json_text :: "env \<Rightarrow> (string \<Rightarrow> json option) \<Rightarrow> (json \<Rightarrow> string) \<Rightarrow> bool" where
  "json_text env from_slice show_value \<longleftrightarrow>
     (\<forall>req. \<exists>line v. ser_request (lib env) req = Ok line \<and> from_slice (line @ [newline]) = Some v \<and>
        json_get v ''id'' = JNumber (uint (req_id req))) \<and>
     (\<exists>e. de_response (lib env) [] = Err e) \<and>
     de_response (lib env) (reply_line ''1'' (in_quotes ''ok'')) = Ok (parsed_reply 1 (JString ''ok'')) \<and>
     de_response (lib env) (reply_line (show_value (JNumber 1)) (true_member ''retry_succeeded'')) =
       Ok (parsed_reply 1 (JObject [(''retry_succeeded'', JBool True)])) \<and>
     de_response (lib env) (reply_line (show_value (JNumber 2)) (true_member ''echo'')) =
       Ok (parsed_reply 2 (JObject [(''echo'', JBool True)]))"

subsection \<open>The tests\<close>

definition stale_pipe_reconnect_round_trip :: "env \<Rightarrow> bool list m" where
  "stale_pipe_reconnect_round_trip env = do {
     let params = JObject [(''x'', JNumber 1)];
     r \<leftarrow> connect_unix env 55556;
     (case r of
        Err _ \<Rightarrow> ret [False]
      | Ok client1 \<Rightarrow> do {
          (result1, client1) \<leftarrow> call_value env client1 ''test.method'' params;
          drop_client client1;
          r \<leftarrow> connect_unix env 55556;
          (case r of
             Err _ \<Rightarrow> ret [False]
           | Ok client2 \<Rightarrow> do {
               (result2, client2) \<leftarrow> call_value env client2 ''test.method'' params;
               drop_client client2;
               ret [case result1 of Err _ \<Rightarrow> True | Ok _ \<Rightarrow> False,
                    case result2 of Err _ \<Rightarrow> False
                    | Ok v \<Rightarrow> json_get v ''retry_succeeded'' = JBool True]
             })
        })
   }"

definition unix_pipe_round_trip :: "env \<Rightarrow> bool list m" where
  "unix_pipe_round_trip env = do {
     r \<leftarrow> connect_unix env 55555;
     (case r of
        Err _ \<Rightarrow> ret [False]
      | Ok client \<Rightarrow> do {
          (hello, client) \<leftarrow> handshake env client PKG_FAMILY ''deadbeef'' (Some (replicate 72 0));
          (result, client) \<leftarrow> call_value env client ''keepasskeywin.listCredentials''
            (JObject [(''rpId'', JString ''example.com'')]);
          drop_client client;
          ret [case hello of Err _ \<Rightarrow> False | Ok _ \<Rightarrow> True,
               case result of Err _ \<Rightarrow> False | Ok v \<Rightarrow> json_get v ''echo'' = JBool True]
        })
   }"

lemma connect_unix_at_once:
  assumes "pe_open (pipes env) (trace s) (socket_path sid) = Ok c"
  shows "run_state (connect_unix env sid) s =
    (Ok \<lparr>transport = c, next_id = 1\<rparr>, s\<lparr>trace := trace s @ [Pipe (PipeOpen (socket_path sid) (Ok c))]\<rparr>)"
  using assms by (simp add: connect_unix_def delays_ms_def try_connect_unix_def)

lemma unread_sent: "unread c acc (sent c line) = acc @ line @ [newline]"
  by (simp add: sent_def)

theorem stale_pipe_reconnect_round_trip_passes:
  assumes codec: "json_text env from_slice show_value" and server: "pipes env = stale_server from_slice show_value"
  shows "pass (fst (run_state (stale_pipe_reconnect_round_trip env) init_proc))"
proof -
  obtain line v where ser: "ser_request (lib env) \<lparr>jsonrpc = ''2.0'', req_id = 1,
        req_method = ''test.method'', req_params = JObject [(''x'', JNumber 1)]\<rparr> = Ok line"
      and parsed: "from_slice (line @ [newline]) = Some v" and id: "json_get v ''id'' = JNumber 1"
    using codec unfolding json_text_def
    by (metis (no_types, lifting) RpcRequest.select_convs(2) uint_1)
  obtain e where eof: "de_response (lib env) [] = Err e" using codec by (auto simp: json_text_def)
  have reply: "de_response (lib env) (reply_line (show_value (JNumber 1)) (true_member ''retry_succeeded'')) =
      Ok (parsed_reply 1 (JObject [(''retry_succeeded'', JBool True)]))"
    using codec by (simp add: json_text_def)
  let ?ps = "JObject [(''x'', JNumber 1)]" and ?path = "socket_path 55556"
  let ?buf = "reply_line (show_value (JNumber 1)) (true_member ''retry_succeeded'') @ [newline]"
  let ?new = "\<lambda>c. \<lparr>transport = c, next_id = 1\<rparr> :: PipeClient" and ?used = "\<lambda>c. \<lparr>transport = c, next_id = 2\<rparr> :: PipeClient"
  let ?open = "\<lambda>c. Pipe (PipeOpen ?path (Ok c))" and ?read = "\<lambda>c b. Pipe (PipeRead c (Ok b))"
  let ?h1 = "[?open 0]"
  let ?h2 = "?h1 @ sent 0 line @ [?read 0 []]"
  let ?h3 = "?h2 @ [Pipe (PipeDrop 0)]"
  let ?h4 = "?h3 @ [?open 1]"
  let ?h5 = "?h4 @ sent 1 line @ [?read 1 ?buf]"
  have c1: "run_state (connect_unix env 55556) init_proc = (Ok (?new 0), init_proc\<lparr>trace := ?h1\<rparr>)"
    by (subst connect_unix_at_once) (simp_all add: server stale_server_def accepted_connections_def init_proc_def)
  have r1: "run_state (call_value env (?new 0) ''test.method'' ?ps) (init_proc\<lparr>trace := ?h1\<rparr>) =
      ((Err (Json e), ?used 0), init_proc\<lparr>trace := ?h2\<rparr>)"
    by (subst call_over [where line = line and buf = "[]"]) (simp_all add: server stale_server_def ser eof)
  have c2: "run_state (connect_unix env 55556) (init_proc\<lparr>trace := ?h3\<rparr>) = (Ok (?new 1), init_proc\<lparr>trace := ?h4\<rparr>)"
    by (subst connect_unix_at_once) (simp_all add: server stale_server_def accepted_connections_def sent_def)
  have r2: "run_state (call_value env (?new 1) ''test.method'' ?ps) (init_proc\<lparr>trace := ?h4\<rparr>) =
      ((Ok (JObject [(''retry_succeeded'', JBool True)]), ?used 1), init_proc\<lparr>trace := ?h5\<rparr>)"
    by (subst call_over [where line = line and buf = ?buf])
      (simp_all add: server stale_server_def ser reply parsed id unread_append unread_sent sent_def
        parsed_reply_def rpc_result_def)
  show ?thesis
    unfolding stale_pipe_reconnect_round_trip_def
    by (simp add: Let_def c1 r1 drop_client_def c2 [simplified] r2 [simplified])
qed

lemma serialised:
  assumes "json_text env from_slice show_value"
  obtains line v where "ser_request (lib env) req = Ok line" "from_slice (line @ [newline]) = Some v"
    "json_get v ''id'' = JNumber (uint (req_id req))"
  using assms unfolding json_text_def by blast

theorem unix_pipe_round_trip_passes:
  assumes codec: "json_text env from_slice show_value" and server: "pipes env = echo_server from_slice show_value"
  shows "pass (fst (run_state (unix_pipe_round_trip env) init_proc))"
proof -
  let ?key = "b64_encode (lib env) (replicate 72 0)"
  let ?hello = "hello_params PKG_FAMILY ''deadbeef'' ?key"
  let ?ps = "JObject [(''rpId'', JString ''example.com'')]"
  obtain l1 v1 where l1: "ser_request (lib env) \<lparr>jsonrpc = ''2.0'', req_id = 1,
        req_method = ''keepasskeywin.hello'', req_params = ?hello\<rparr> = Ok l1"
      and p1: "from_slice (l1 @ [newline]) = Some v1"
    by (rule serialised [OF codec])
  obtain l2 v2 where l2: "ser_request (lib env) \<lparr>jsonrpc = ''2.0'', req_id = 2,
        req_method = ''keepasskeywin.listCredentials'', req_params = ?ps\<rparr> = Ok l2"
      and p2: "from_slice (l2 @ [newline]) = Some v2" and id2: "json_get v2 ''id'' = JNumber 2"
    by (rule serialised [OF codec, of "\<lparr>jsonrpc = ''2.0'', req_id = 2,
        req_method = ''keepasskeywin.listCredentials'', req_params = ?ps\<rparr>"]) simp
  let ?new = "\<lparr>transport = 0, next_id = 1\<rparr> :: PipeClient" and ?used = "\<lparr>transport = 0, next_id = 2\<rparr> :: PipeClient"
  let ?ok = "reply_line ''1'' (in_quotes ''ok'') @ [newline]"
  let ?echo = "reply_line (show_value (JNumber 2)) (true_member ''echo'') @ [newline]"
  let ?h1 = "[Pipe (PipeOpen (socket_path 55555) (Ok 0))]"
  let ?h2 = "?h1 @ sent 0 l1 @ [Pipe (PipeRead 0 (Ok ?ok))]"
  let ?h3 = "?h2 @ sent 0 l2 @ [Pipe (PipeRead 0 (Ok ?echo))]"
  have c: "run_state (connect_unix env 55555) init_proc = (Ok ?new, init_proc\<lparr>trace := ?h1\<rparr>)"
    by (subst connect_unix_at_once) (simp_all add: server echo_server_def accepted_connections_def init_proc_def)
  have r1: "run_state (call_value env ?new ''keepasskeywin.hello'' ?hello) (init_proc\<lparr>trace := ?h1\<rparr>) =
      ((Ok (JString ''ok''), ?used), init_proc\<lparr>trace := ?h2\<rparr>)"
    using codec by (subst call_over [where line = l1 and buf = ?ok])
      (simp_all add: server echo_server_def l1 p1 sent_def replies_def json_text_def parsed_reply_def
        rpc_result_def)
  have r2: "run_state (call_value env ?used ''keepasskeywin.listCredentials'' ?ps) (init_proc\<lparr>trace := ?h2\<rparr>) =
      ((Ok (JObject [(''echo'', JBool True)]), \<lparr>transport = 0, next_id = 3\<rparr>), init_proc\<lparr>trace := ?h3\<rparr>)"
    using codec by (subst call_over [where line = l2 and buf = ?echo])
      (simp_all add: server echo_server_def l2 p2 id2 sent_def replies_def json_text_def parsed_reply_def
        rpc_result_def)
  show ?thesis
    unfolding unix_pipe_round_trip_def handshake_def
    by (simp add: c r1 [simplified] drop_client_def r2 [simplified])
qed

text \<open>A codec of this kind: requests are their ids in unary.\<close>

definition unary_codec :: crates where
  "unary_codec = (lib sample_env)
     \<lparr>ser_request := (\<lambda>req. Ok (replicate (unat (req_id req)) (CHR ''1''))),
      de_response := (\<lambda>l.
        if l = reply_line ''1'' (in_quotes ''ok'') then Ok (parsed_reply 1 (JString ''ok''))
        else if l = reply_line ''1'' (true_member ''retry_succeeded'')
        then Ok (parsed_reply 1 (JObject [(''retry_succeeded'', JBool True)]))
        else if l = reply_line ''11'' (true_member ''echo'')
        then Ok (parsed_reply 2 (JObject [(''echo'', JBool True)]))
        else Err ''EOF'')\<rparr>"

definition unary_value :: "json \<Rightarrow> string" where
  "unary_value v = (case v of JNumber n \<Rightarrow> replicate (nat n) (CHR ''1'') | _ \<Rightarrow> [])"

definition unary_slice :: "string \<Rightarrow> json option" where
  "unary_slice l = Some (JObject [(''id'', JNumber (int (length l) - 1))])"

lemma unary_json_text: "json_text (sample_env\<lparr>lib := unary_codec\<rparr>) unary_slice unary_value"
  by (simp add: json_text_def unary_codec_def unary_slice_def unary_value_def reply_line_def
      true_member_def in_quotes_def unsigned_of_nat numeral_2_eq_2)

lemma sample_round_trips:
  "pass (fst (run_state (stale_pipe_reconnect_round_trip
     (sample_env\<lparr>lib := unary_codec, pipes := stale_server unary_slice unary_value\<rparr>)) init_proc)) \<and>
   pass (fst (run_state (unix_pipe_round_trip
     (sample_env\<lparr>lib := unary_codec, pipes := echo_server unary_slice unary_value\<rparr>)) init_proc))"
proof
  have codec: "json_text (sample_env\<lparr>lib := unary_codec, pipes := p\<rparr>) unary_slice unary_value" for p
    using unary_json_text by (simp add: json_text_def)
  show "pass (fst (run_state (stale_pipe_reconnect_round_trip
     (sample_env\<lparr>lib := unary_codec, pipes := stale_server unary_slice unary_value\<rparr>)) init_proc))"
    by (rule stale_pipe_reconnect_round_trip_passes [OF codec]) simp
  show "pass (fst (run_state (unix_pipe_round_trip
     (sample_env\<lparr>lib := unary_codec, pipes := echo_server unary_slice unary_value\<rparr>)) init_proc))"
    by (rule unix_pipe_round_trip_passes [OF codec]) simp
qed

end
